(* ===== verification/Prelude.thy ===== *)
theory Prelude
  imports Complex_Main "HOL-Library.Word" "HOL-Library.Multiset"
begin

text \<open>
  Shared vocabulary of the development: the machine types of the C sources
  (\<open>sqlite-vec.c\<close> lines 29 to 37), the SQLite result codes the code returns, the
  enumerations every component uses, the development's lemma collections and the generic
  list facts the component proofs share.

  Arrays are lists; an array of \<open>n\<close> bytes is an \<open>8 word list\<close> of length \<open>n\<close>. A C string is
  a \<open>string\<close> (a list of bytes) without its terminating NUL, so reading at or past its end
  gives the NUL.
\<close>

unbundle bit_operations_syntax

section \<open>Machine types\<close>

type_synonym u8 = "8 word"
type_synonym i8 = "8 word"
type_synonym u16 = "16 word"
type_synonym i32 = "32 word"
type_synonym u32 = "32 word"
type_synonym i64 = "64 word"
type_synonym u64 = "64 word"
type_synonym bytes = "8 word list"

section \<open>Result codes\<close>

text \<open>The codes of SQLite that the modelled functions return when they do not succeed (success is
  \<open>Inr\<close>); \<open>SQLITE_ROW\<close> is one of them where a statement has more rows than expected.\<close>

datatype sqlite_rc =
    SQLITE_ERROR
  | SQLITE_NOMEM
  | SQLITE_EMPTY
  | SQLITE_CONSTRAINT
  | SQLITE_CORRUPT
  | SQLITE_NOTFOUND
  | SQLITE_ROW

type_synonym 'a result = "sqlite_rc + 'a"

section \<open>Column and element kinds\<close>

text \<open>\<open>enum VectorElementType\<close> and its numeric codes, which double as SQL subtypes.\<close>

datatype VectorElementType =
    SQLITE_VEC_ELEMENT_TYPE_FLOAT32
  | SQLITE_VEC_ELEMENT_TYPE_BIT
  | SQLITE_VEC_ELEMENT_TYPE_INT8

fun element_type_code :: "VectorElementType \<Rightarrow> int" where
  "element_type_code SQLITE_VEC_ELEMENT_TYPE_FLOAT32 = 223 + 0"
| "element_type_code SQLITE_VEC_ELEMENT_TYPE_BIT = 223 + 1"
| "element_type_code SQLITE_VEC_ELEMENT_TYPE_INT8 = 223 + 2"

datatype Vec0DistanceMetrics =
    VEC0_DISTANCE_METRIC_L2
  | VEC0_DISTANCE_METRIC_COSINE
  | VEC0_DISTANCE_METRIC_L1

text \<open>\<open>vector_byte_size\<close>: bytes of one vector of the given element type.\<close>

fun vector_byte_size :: "VectorElementType \<Rightarrow> nat \<Rightarrow> nat" where
  "vector_byte_size SQLITE_VEC_ELEMENT_TYPE_FLOAT32 dimensions = dimensions * 4"
| "vector_byte_size SQLITE_VEC_ELEMENT_TYPE_INT8 dimensions = dimensions * 1"
| "vector_byte_size SQLITE_VEC_ELEMENT_TYPE_BIT dimensions = dimensions div 8"

text \<open>SQLite's fundamental datatypes, as \<open>sqlite3_value_type\<close> returns them.\<close>

datatype sqlite_type =
    SQLITE_INTEGER
  | SQLITE_FLOAT
  | SQLITE_TEXT
  | SQLITE_BLOB
  | SQLITE_NULL

section \<open>Lemma collections\<close>

named_theorems bitmap_simps "reading a bitmap after an operation"
named_theorems fp_simps "classification and comparison of floating-point values"
named_theorems scan_simps "unfolding of the scanner on concrete input"

section \<open>Lists\<close>

lemma filter_upt_length_le: "length (filter P [0..<n]) \<le> n"
  by (metis diff_zero length_filter_le length_upt)

lemma nth_take_upt: "i < n \<Longrightarrow> n \<le> length xs \<Longrightarrow> take n xs ! i = xs ! i"
  by simp

section \<open>Interfaces\<close>

text \<open>
  \<open>sqlite3_strnicmp\<close> is SQLite's. The code only tests its result against 0, so the model
  takes it as a parameter \<open>nicmp a b n\<close> ("the first \<open>n\<close> bytes are equal, ignoring ASCII
  case"); \<open>strnicmp_api\<close> is its documented behaviour.
\<close>

definition ascii_lower :: "char \<Rightarrow> nat" where
  "ascii_lower c = (let n = of_char c in if 65 \<le> n \<and> n \<le> 90 then n + 32 else n)"

locale strnicmp_api =
  fixes nicmp :: "string \<Rightarrow> string \<Rightarrow> nat \<Rightarrow> bool"
  assumes nicmp_iff: "nicmp a b n \<longleftrightarrow> map ascii_lower (take n a) = map ascii_lower (take n b)"
begin

lemma nicmp_zero: "nicmp a b 0"
  by (simp add: nicmp_iff)

lemma nicmp_refl: "nicmp a a n"
  by (simp add: nicmp_iff)

lemma nicmp_prefix: "m \<le> n \<Longrightarrow> nicmp a b n \<Longrightarrow> nicmp a b m"
  by (metis min_absorb1 nicmp_iff take_map take_take)

lemma nicmp_shorter: "length b < n \<Longrightarrow> n \<le> length a \<Longrightarrow> \<not> nicmp a b n"
  by (auto simp: nicmp_iff dest!: arg_cong [where f = length])

end

definition strnicmp_ref :: "string \<Rightarrow> string \<Rightarrow> nat \<Rightarrow> bool" where
  "strnicmp_ref a b n \<longleftrightarrow> map ascii_lower (take n a) = map ascii_lower (take n b)"

interpretation ref: strnicmp_api strnicmp_ref
  by unfold_locales (simp add: strnicmp_ref_def)


text \<open>
  What the top-k selection and the merge rely on from the distance type: \<open>le\<close> is a total
  preorder on the values that are \<open>ok\<close> (for \<open>float\<close>, the values that are not NaN).
\<close>

locale dist_order =
  fixes le :: "'d \<Rightarrow> 'd \<Rightarrow> bool"
    and ok :: "'d \<Rightarrow> bool"
  assumes le_refl: "ok a \<Longrightarrow> le a a"
    and le_trans: "le a b \<Longrightarrow> le b c \<Longrightarrow> le a c"
    and le_total: "ok a \<Longrightarrow> ok b \<Longrightarrow> le a b \<or> le b a"

text \<open>What a client of a bitmap relies on: reading after a write, and that writes keep the size.\<close>

locale bitset =
  fixes get :: "'b \<Rightarrow> nat \<Rightarrow> bool"
    and put :: "'b \<Rightarrow> nat \<Rightarrow> bool \<Rightarrow> 'b"
    and cap :: "'b \<Rightarrow> nat"
  assumes get_put: "p < cap b \<Longrightarrow> get (put b p v) q = (if q = p then v else get b q)"
    and cap_put: "cap (put b p v) = cap b"
begin

text \<open>The three loop shapes of the filters: assign every bit, clear some, set some.\<close>

lemma cap_fold: "cap (fold (\<lambda>i b. put b i (f i)) is b) = cap b"
  by (induction "is" arbitrary: b) (auto simp: cap_put)

lemma get_assign_loop:
  "n \<le> cap b \<Longrightarrow> get (fold (\<lambda>i b. put b i (f i)) [0..<n] b) q = (if q < n then f q else get b q)"
  by (induction n) (auto simp: get_put cap_fold)

lemma cap_clear_loop: "cap (fold (\<lambda>i b. if get b i \<and> \<not> f i then put b i False else b) is b) = cap b"
  by (induction "is" arbitrary: b) (auto simp: cap_put)

lemma get_clear_loop:
  "n \<le> cap b \<Longrightarrow>
   get (fold (\<lambda>i b. if get b i \<and> \<not> f i then put b i False else b) [0..<n] b) q
     = (get b q \<and> (q < n \<longrightarrow> f q))"
  by (induction n) (auto simp: get_put cap_clear_loop less_Suc_eq)

lemma cap_set_loop: "cap (fold (\<lambda>i b. if f i then put b i True else b) is b) = cap b"
  by (induction "is" arbitrary: b) (auto simp: cap_put)

lemma get_set_loop:
  "n \<le> cap b \<Longrightarrow>
   get (fold (\<lambda>i b. if f i then put b i True else b) [0..<n] b) q = (get b q \<or> q < n \<and> f q)"
  by (induction n) (auto simp: get_put cap_set_loop less_Suc_eq)

end

end
