(* ===== verification/Floats.thy ===== *)
theory Floats
  imports Prelude
begin

text \<open>
  The C floating-point types. The distance kernels compute with \<open>float\<close> (\<open>f32\<close>) and
  \<open>double\<close>; both are IEEE 754 binary formats rounding to nearest, ties to even, on the
  targets the code is built for. A value is NaN, a signed infinity or a finite value
  \<open>(-1)^s * m * 2^e\<close>; every operation computes the exact result and rounds it once
  (\<open>fp_round\<close>). No operation is fused (no FMA contraction), which is what the compiler does
  for the baseline x86-64 target; NaN payloads are not modelled.
\<close>

datatype fp = FNaN | FInf bool | FFin bool nat int

type_synonym f32 = fp
type_synonym f64 = fp

text \<open>A format: precision, exponent of the smallest subnormal, largest exponent.\<close>

record fpfmt =
  prec :: nat
  emin :: int
  emax :: int

definition binary32 :: fpfmt where
  "binary32 = \<lparr>prec = 24, emin = -149, emax = 104\<rparr>"

definition binary64 :: fpfmt where
  "binary64 = \<lparr>prec = 53, emin = -1074, emax = 971\<rparr>"

section \<open>Rounding\<close>

fun bit_len :: "nat \<Rightarrow> nat" where
  "bit_len n = (if n = 0 then 0 else Suc (bit_len (n div 2)))"

declare bit_len.simps [simp del]

text \<open>
  \<open>rne m k\<close> is \<open>m / 2^k\<close> rounded to the nearest integer, ties to even. \<open>fp_round\<close> rounds
  \<open>(-1)^s * m * 2^e\<close> to the format: it drops enough low bits to fit the precision and the
  least exponent, renormalises after a carry, and overflows to infinity.
\<close>

definition rne :: "nat \<Rightarrow> nat \<Rightarrow> nat" where
  "rne m k =
     (if k = 0 then m
      else let q = m div 2 ^ k; r = m mod 2 ^ k; half = 2 ^ (k - 1)
           in if half < r \<or> (r = half \<and> odd q) then q + 1 else q)"

definition fp_round :: "fpfmt \<Rightarrow> bool \<Rightarrow> nat \<Rightarrow> int \<Rightarrow> fp" where
  "fp_round f s m e =
     (if m = 0 then FFin s 0 (emin f)
      else let sh = max (int (bit_len m) - int (prec f)) (emin f - e)
           in if sh \<le> 0
              then (if emax f < e + sh then FInf s else FFin s (m * 2 ^ nat (- sh)) (e + sh))
              else let q = rne m (nat sh);
                       c = (if q = 2 ^ prec f then 1 else 0);
                       q' = (if q = 2 ^ prec f then 2 ^ (prec f - 1) else q)
                   in if q' = 0 then FFin s 0 (emin f)
                      else if emax f < e + sh + c then FInf s
                      else FFin s q' (e + sh + c))"

section \<open>Classification and comparison\<close>

fun isnan :: "fp \<Rightarrow> bool" where
  "isnan FNaN = True"
| "isnan _ = False"

fun isinf :: "fp \<Rightarrow> bool" where
  "isinf (FInf _) = True"
| "isinf _ = False"

text \<open>A finite value as a multiple of \<open>2^b\<close>, for \<open>b\<close> at most its exponent.\<close>

definition scaled :: "bool \<Rightarrow> nat \<Rightarrow> int \<Rightarrow> int \<Rightarrow> int" where
  "scaled s m e b = (if s then - int m else int m) * 2 ^ nat (e - b)"

fun fp_le :: "fp \<Rightarrow> fp \<Rightarrow> bool" where
  "fp_le FNaN _ = False"
| "fp_le _ FNaN = False"
| "fp_le (FInf True) _ = True"
| "fp_le _ (FInf False) = True"
| "fp_le (FInf False) _ = False"
| "fp_le _ (FInf True) = False"
| "fp_le (FFin s m e) (FFin t n g) =
     (scaled s m e (min e g) \<le> scaled t n g (min e g))"

definition fp_lt :: "fp \<Rightarrow> fp \<Rightarrow> bool" where
  "fp_lt a b \<longleftrightarrow> fp_le a b \<and> \<not> fp_le b a"

definition fp_eq :: "fp \<Rightarrow> fp \<Rightarrow> bool" where
  "fp_eq a b \<longleftrightarrow> fp_le a b \<and> fp_le b a"

abbreviation fp_ge :: "fp \<Rightarrow> fp \<Rightarrow> bool" where
  "fp_ge a b \<equiv> fp_le b a"

abbreviation fp_gt :: "fp \<Rightarrow> fp \<Rightarrow> bool" where
  "fp_gt a b \<equiv> fp_lt b a"

text \<open>
  The comparison in terms of the real values: a total preorder on everything that is not
  NaN, and false as soon as one operand is NaN.
\<close>

definition fin_val :: "bool \<Rightarrow> nat \<Rightarrow> int \<Rightarrow> real" where
  "fin_val s m e = (if s then - real m else real m) * 2 powi e"

lemma scaled_val: "b \<le> e \<Longrightarrow> real_of_int (scaled s m e b) * 2 powi b = fin_val s m e"
proof -
  assume "b \<le> e"
  then have "(2::real) powi e = 2 ^ nat (e - b) * 2 powi b"
    by (metis (no_types, lifting) add.commute diff_add_cancel diff_ge_0_iff_ge int_nat_eq power_int_add power_int_of_nat zero_neq_numeral)
  then show ?thesis by (simp add: scaled_def fin_val_def)
qed

lemma fp_le_fin: "fp_le (FFin s m e) (FFin t n g) \<longleftrightarrow> fin_val s m e \<le> fin_val t n g"
proof -
  let ?b = "min e g"
  have p: "(0::real) < 2 powi ?b" by (simp add: zero_less_power_int)
  have "fp_le (FFin s m e) (FFin t n g) \<longleftrightarrow>
      real_of_int (scaled s m e ?b) * 2 powi ?b \<le> real_of_int (scaled t n g ?b) * 2 powi ?b"
    using p by simp
  also have "\<dots> \<longleftrightarrow> fin_val s m e \<le> fin_val t n g" by (simp add: scaled_val)
  finally show ?thesis .
qed


text \<open>The comparison case by case, on the real values of the finite operands.\<close>

lemma fp_le_iff:
  "fp_le a b \<longleftrightarrow>
     (case (a, b) of
        (FNaN, _) \<Rightarrow> False
      | (_, FNaN) \<Rightarrow> False
      | (FInf s, FInf t) \<Rightarrow> s \<or> \<not> t
      | (FInf s, FFin _ _ _) \<Rightarrow> s
      | (FFin _ _ _, FInf t) \<Rightarrow> \<not> t
      | (FFin s m e, FFin t n g) \<Rightarrow> fin_val s m e \<le> fin_val t n g)"
proof (cases a)
  case (FInf s)
  then show ?thesis by (cases s; cases b) (auto split: bool.splits elim: fp_le.elims)
next
  case (FFin s m e)
  show ?thesis
  proof (cases b)
    case (FInf t)
    with FFin show ?thesis by (cases t) auto
  next
    case (FFin t n g)
    with \<open>a = FFin s m e\<close> show ?thesis by (simp only: fp_le_fin prod.case fp.case)
  qed (simp add: FFin)
qed simp

lemma fp_le_notnan: "fp_le a b \<Longrightarrow> \<not> isnan a \<and> \<not> isnan b"
  by (cases a; cases b) auto

lemma fp_le_refl: "\<not> isnan a \<Longrightarrow> fp_le a a"
  unfolding fp_le_iff by (cases a) auto

lemma fp_le_trans: "fp_le a b \<Longrightarrow> fp_le b c \<Longrightarrow> fp_le a c"
  unfolding fp_le_iff by (cases a; cases b; cases c) auto

lemma fp_le_total: "\<not> isnan a \<Longrightarrow> \<not> isnan b \<Longrightarrow> fp_le a b \<or> fp_le b a"
  unfolding fp_le_iff by (cases a; cases b) auto
lemma fp_lt_iff: "\<not> isnan a \<Longrightarrow> \<not> isnan b \<Longrightarrow> fp_lt a b \<longleftrightarrow> \<not> fp_le b a"
  using fp_le_total by (auto simp: fp_lt_def)

interpretation fp_ord: dist_order fp_le "\<lambda>d. \<not> isnan d"
  by unfold_locales (auto simp: fp_le_refl intro: fp_le_trans dest: fp_le_total)

section \<open>Arithmetic\<close>

fun fp_neg :: "fp \<Rightarrow> fp" where
  "fp_neg FNaN = FNaN"
| "fp_neg (FInf s) = FInf (\<not> s)"
| "fp_neg (FFin s m e) = FFin (\<not> s) m e"

fun fp_abs :: "fp \<Rightarrow> fp" where
  "fp_abs FNaN = FNaN"
| "fp_abs (FInf s) = FInf False"
| "fp_abs (FFin s m e) = FFin False m e"

fun fp_add :: "fpfmt \<Rightarrow> fp \<Rightarrow> fp \<Rightarrow> fp" where
  "fp_add f FNaN _ = FNaN"
| "fp_add f _ FNaN = FNaN"
| "fp_add f (FInf s) (FInf t) = (if s = t then FInf s else FNaN)"
| "fp_add f (FInf s) (FFin _ _ _) = FInf s"
| "fp_add f (FFin _ _ _) (FInf t) = FInf t"
| "fp_add f (FFin s m e) (FFin t n g) =
     (let b = min e g; v = scaled s m e b + scaled t n g b
      in if v = 0 then FFin (s \<and> t \<and> m = 0 \<and> n = 0) 0 (emin f)
         else fp_round f (v < 0) (nat \<bar>v\<bar>) b)"

definition fp_sub :: "fpfmt \<Rightarrow> fp \<Rightarrow> fp \<Rightarrow> fp" where
  "fp_sub f a b = fp_add f a (fp_neg b)"

fun fp_mul :: "fpfmt \<Rightarrow> fp \<Rightarrow> fp \<Rightarrow> fp" where
  "fp_mul f FNaN _ = FNaN"
| "fp_mul f _ FNaN = FNaN"
| "fp_mul f (FInf s) (FInf t) = FInf (s \<noteq> t)"
| "fp_mul f (FInf s) (FFin t n _) = (if n = 0 then FNaN else FInf (s \<noteq> t))"
| "fp_mul f (FFin s m _) (FInf t) = (if m = 0 then FNaN else FInf (s \<noteq> t))"
| "fp_mul f (FFin s m e) (FFin t n g) = fp_round f (s \<noteq> t) (m * n) (e + g)"

text \<open>
  Quotient and root are computed to two bits more than the precision, with a sticky bit
  for a non-zero remainder, and then rounded.
\<close>

fun fp_div :: "fpfmt \<Rightarrow> fp \<Rightarrow> fp \<Rightarrow> fp" where
  "fp_div f FNaN _ = FNaN"
| "fp_div f _ FNaN = FNaN"
| "fp_div f (FInf s) (FInf t) = FNaN"
| "fp_div f (FInf s) (FFin t _ _) = FInf (s \<noteq> t)"
| "fp_div f (FFin s _ _) (FInf t) = FFin (s \<noteq> t) 0 (emin f)"
| "fp_div f (FFin s m e) (FFin t n g) =
     (if n = 0 then (if m = 0 then FNaN else FInf (s \<noteq> t))
      else let k = prec f + 2 + bit_len n - bit_len m; a = m * 2 ^ k
           in fp_round f (s \<noteq> t) (2 * (a div n) + (if a mod n = 0 then 0 else 1)) (e - int k - g - 1))"

fun isqrt :: "nat \<Rightarrow> nat" where
  "isqrt n =
     (if n = 0 then 0
      else let r = 2 * isqrt (n div 4) in if (r + 1) * (r + 1) \<le> n then r + 1 else r)"

declare isqrt.simps [simp del]

fun fp_sqrt :: "fpfmt \<Rightarrow> fp \<Rightarrow> fp" where
  "fp_sqrt f FNaN = FNaN"
| "fp_sqrt f (FInf s) = (if s then FNaN else FInf False)"
| "fp_sqrt f (FFin s m e) =
     (if m = 0 then FFin s 0 (emin f)
      else if s then FNaN
      else let k = 2 * (prec f + 2) + (if even e then 0 else 1); a = m * 2 ^ k; r = isqrt a
           in fp_round f False (2 * r + (if r * r = a then 0 else 1)) ((e - int k) div 2 - 1))"

section \<open>Conversions\<close>

text \<open>Between formats, and from C integers (exact value rounded once).\<close>

fun fp_conv :: "fpfmt \<Rightarrow> fp \<Rightarrow> fp" where
  "fp_conv f FNaN = FNaN"
| "fp_conv f (FInf s) = FInf s"
| "fp_conv f (FFin s m e) = fp_round f s m e"

definition fp_of_int :: "fpfmt \<Rightarrow> int \<Rightarrow> fp" where
  "fp_of_int f i = fp_round f (i < 0) (nat \<bar>i\<bar>) 0"

text \<open>Truncation toward zero, the C conversion of a finite value to an integer.\<close>

fun fp_trunc :: "fp \<Rightarrow> int" where
  "fp_trunc (FFin s m e) =
     (let v = (if 0 \<le> e then int m * 2 ^ nat e else int (m div 2 ^ nat (- e)))
      in if s then - v else v)"
| "fp_trunc _ = 0"

text \<open>The stored form of a \<open>float\<close>: four little-endian bytes of the 32-bit pattern.\<close>

definition f32_of_bits :: "u32 \<Rightarrow> f32" where
  "f32_of_bits w =
     (let s = bit w 31; ex = unat (drop_bit 23 w AND 255); fr = unat (w AND 0x7FFFFF)
      in if ex = 255 then (if fr = 0 then FInf s else FNaN)
         else if ex = 0 then FFin s fr (-149)
         else FFin s (fr + 2 ^ 23) (int ex - 150))"

definition u32_of_le :: "bytes \<Rightarrow> nat \<Rightarrow> u32" where
  "u32_of_le bs i =
     ucast (bs ! i) OR push_bit 8 (ucast (bs ! (i + 1)))
     OR push_bit 16 (ucast (bs ! (i + 2))) OR push_bit 24 (ucast (bs ! (i + 3)))"

definition f32_at :: "bytes \<Rightarrow> nat \<Rightarrow> f32" where
  "f32_at bs i = f32_of_bits (u32_of_le bs (4 * i))"

section \<open>Names the kernels use\<close>

abbreviation "f32_add \<equiv> fp_add binary32"
abbreviation "f32_sub \<equiv> fp_sub binary32"
abbreviation "f32_mul \<equiv> fp_mul binary32"
abbreviation "f64_add \<equiv> fp_add binary64"
abbreviation "f64_sub \<equiv> fp_sub binary64"
abbreviation "f64_mul \<equiv> fp_mul binary64"
abbreviation "f64_div \<equiv> fp_div binary64"
abbreviation "f64_sqrt \<equiv> fp_sqrt binary64"
abbreviation "to_f32 \<equiv> fp_conv binary32"
abbreviation "to_f64 \<equiv> fp_conv binary64"
abbreviation "fp0 \<equiv> FFin False 0 (-149)"

end
