(* ===== verification/Bitmaps.thy ===== *)
theory Bitmaps
  imports Prelude
begin

text \<open>
  The bitmaps of \<open>sqlite-vec.c\<close> (\<open>bitmap_new\<close> to \<open>bitmap_fill\<close>): bit \<open>p\<close> of a bitmap is bit
  \<open>p mod 8\<close> of byte \<open>p div 8\<close>. Every caller passes a position inside the bitmap, so
  positions are \<open>nat\<close>. The lemmas give each operation's effect bit by bit.
\<close>

definition bitmap_new :: "nat \<Rightarrow> bytes" where
  "bitmap_new n = replicate (n div 8) 0"

definition bitmap_new_from :: "nat \<Rightarrow> bytes \<Rightarrow> bytes" where
  "bitmap_new_from n src = take (n div 8) src"

definition bitmap_copy :: "bytes \<Rightarrow> bytes \<Rightarrow> nat \<Rightarrow> bytes" where
  "bitmap_copy base src n = take (n div 8) src @ drop (n div 8) base"

definition bitmap_and_inplace :: "bytes \<Rightarrow> bytes \<Rightarrow> nat \<Rightarrow> bytes" where
  "bitmap_and_inplace base other n =
     fold (\<lambda>i b. b[i := (b ! i) AND (other ! i)]) [0..<n div 8] base"

definition bitmap_set :: "bytes \<Rightarrow> nat \<Rightarrow> bool \<Rightarrow> bytes" where
  "bitmap_set bitmap position value =
     (if value
      then bitmap[position div 8 := (bitmap ! (position div 8)) OR push_bit (position mod 8) 1]
      else bitmap[position div 8 := (bitmap ! (position div 8)) AND NOT (push_bit (position mod 8) 1)])"

definition bitmap_get :: "bytes \<Rightarrow> nat \<Rightarrow> bool" where
  "bitmap_get bitmap position \<longleftrightarrow>
     drop_bit (position mod 8) (bitmap ! (position div 8)) AND 1 = 1"

definition bitmap_clear :: "bytes \<Rightarrow> nat \<Rightarrow> bytes" where
  "bitmap_clear bitmap n = replicate (n div 8) 0 @ drop (n div 8) bitmap"

definition bitmap_fill :: "bytes \<Rightarrow> nat \<Rightarrow> bytes" where
  "bitmap_fill bitmap n = replicate (n div 8) 0xFF @ drop (n div 8) bitmap"

section \<open>Effect of the operations, bit by bit\<close>

lemma bitmap_get_bit: "bitmap_get b p \<longleftrightarrow> bit (b ! (p div 8)) (p mod 8)"
  by (simp add: bitmap_get_def bit_iff_and_drop_bit_eq_1 and.commute)

lemma length_bitmap_set [simp]: "length (bitmap_set b p v) = length b"
  by (simp add: bitmap_set_def)

lemma bitmap_get_set [bitmap_simps]:
  assumes "p < 8 * length b"
  shows "bitmap_get (bitmap_set b p v) q = (if q = p then v else bitmap_get b q)"
proof -
  have pl: "p div 8 < length b" using assms by simp
  have m: "q mod 8 < 8" "p mod 8 < 8" by simp_all
  have eq: "q = p \<longleftrightarrow> q div 8 = p div 8 \<and> q mod 8 = p mod 8"
    by (metis div_mult_mod_eq)
  show ?thesis
  proof (cases "q div 8 = p div 8")
    case True
    with pl m eq show ?thesis
      by (auto simp: bitmap_get_bit bitmap_set_def bit_or_iff bit_and_iff bit_not_iff
          bit_exp_iff)
  next
    case False
    with eq show ?thesis by (auto simp: bitmap_get_bit bitmap_set_def)
  qed
qed

interpretation bm: bitset bitmap_get bitmap_set "\<lambda>b. 8 * length b"
  by unfold_locales (auto simp: bitmap_get_set)

lemma length_bitmap_new [simp]: "length (bitmap_new n) = n div 8"
  by (simp add: bitmap_new_def)

lemma length_bitmap_clear [simp]: "n div 8 \<le> length b \<Longrightarrow> length (bitmap_clear b n) = length b"
  by (simp add: bitmap_clear_def)

lemma length_bitmap_fill [simp]: "n div 8 \<le> length b \<Longrightarrow> length (bitmap_fill b n) = length b"
  by (simp add: bitmap_fill_def)

lemma length_bitmap_copy [simp]:
  "n div 8 \<le> length b \<Longrightarrow> n div 8 \<le> length c \<Longrightarrow> length (bitmap_copy b c n) = length b"
  by (simp add: bitmap_copy_def)

lemma div8_less: "p < n \<Longrightarrow> 8 dvd n \<Longrightarrow> p div 8 < n div (8::nat)"
  by (auto elim!: dvdE)

lemma bitmap_get_clear [bitmap_simps]:
  "p < n \<Longrightarrow> 8 dvd n \<Longrightarrow> bitmap_get (bitmap_clear b n) p = False"
  by (simp add: bitmap_get_bit bitmap_clear_def nth_append div8_less)

lemma bitmap_get_fill [bitmap_simps]:
  assumes "p < n" and "8 dvd n"
  shows "bitmap_get (bitmap_fill b n) p = True"
proof -
  have "bit (0xFF :: 8 word) (p mod 8)"
    using bit_mask_iff [where 'a = "8 word", of 8 "p mod 8"] by (simp add: mask_numeral)
  then show ?thesis
    using assms by (simp add: bitmap_get_bit bitmap_fill_def nth_append div8_less)
qed

lemma bitmap_get_copy [bitmap_simps]:
  "p < n \<Longrightarrow> 8 dvd n \<Longrightarrow> n div 8 \<le> length c \<Longrightarrow> bitmap_get (bitmap_copy b c n) p = bitmap_get c p"
  by (simp add: bitmap_get_bit bitmap_copy_def nth_append div8_less min_def)

lemma length_and_fold: "length (fold (\<lambda>i b. b[i := (b ! i) AND (c ! i)]) is b) = length b"
  by (induction "is" arbitrary: b) auto

lemma length_bitmap_and [simp]: "length (bitmap_and_inplace b c n) = length b"
  by (simp add: bitmap_and_inplace_def length_and_fold)

lemma nth_and_fold:
  "m \<le> length b \<Longrightarrow> j < length b \<Longrightarrow>
   fold (\<lambda>i b. b[i := (b ! i) AND (c ! i)]) [0..<m] b ! j = (if j < m then (b ! j) AND (c ! j) else b ! j)"
  by (induction m) (auto simp: nth_list_update length_and_fold less_Suc_eq)

lemma bitmap_get_and [bitmap_simps]:
  assumes "p < n" and "8 dvd n" and "n div 8 \<le> length b"
  shows "bitmap_get (bitmap_and_inplace b c n) p = (bitmap_get b p \<and> bitmap_get c p)"
proof -
  have "p div 8 < n div 8" using assms by (simp add: div8_less)
  with assms show ?thesis
    by (simp add: bitmap_get_bit bitmap_and_inplace_def nth_and_fold bit_and_iff)
qed

end
