(* ===== verification/Topk.thy ===== *)
theory Topk
  imports Floats Bitmaps
begin

text \<open>
  The two routines the exhaustive KNN scan is built from: \<open>min_idx\<close>, which selects the \<open>k\<close>
  smallest candidate distances of one chunk, and \<open>merge_sorted_lists\<close>, which merges a
  chunk's selection into the running top \<open>k\<close>. \<open>is_topk\<close> is their specification; the
  lemmas of the locale \<open>dist_order\<close> show how a top-k grows by one element and how two
  merge, for any total preorder of distances.
\<close>

section \<open>Specification\<close>

text \<open>
  \<open>out\<close> is a list of the \<open>k\<close> smallest of the (distance, row) pairs \<open>S\<close>, in ascending order
  of distance; all of \<open>S\<close> when it has fewer than \<open>k\<close> elements.
\<close>

definition is_topk :: "('d \<Rightarrow> 'd \<Rightarrow> bool) \<Rightarrow> nat \<Rightarrow> ('d \<times> 'r) multiset \<Rightarrow> ('d \<times> 'r) list \<Rightarrow> bool" where
  "is_topk le k S out \<longleftrightarrow>
     mset out \<subseteq># S \<and> length out = min k (size S) \<and>
     sorted_wrt (\<lambda>x y. le (fst x) (fst y)) out \<and>
     (\<forall>x \<in># S - mset out. \<forall>y \<in> set out. le (fst y) (fst x))"

section \<open>\<open>min_idx\<close>: repeated linear scan\<close>

text \<open>The \<open>while\<close> loop that skips to the first candidate not taken yet.\<close>

function min_idx_skip :: "nat \<Rightarrow> bytes \<Rightarrow> bytes \<Rightarrow> nat \<Rightarrow> nat" where
  "min_idx_skip n candidates bTaken i =
     (if i < n \<and> (bitmap_get bTaken i \<or> \<not> bitmap_get candidates i)
      then min_idx_skip n candidates bTaken (Suc i) else i)"
  by pat_completeness auto
termination
  by (relation "measure (\<lambda>(n, candidates, bTaken, i). n - i)") auto

declare min_idx_skip.simps [simp del]

text \<open>The inner \<open>for\<close> loop: the last smallest untaken candidate at or below \<open>m\<close>'s distance.\<close>

definition min_idx_scan :: "f32 list \<Rightarrow> nat \<Rightarrow> bytes \<Rightarrow> bytes \<Rightarrow> nat \<Rightarrow> nat" where
  "min_idx_scan distances n candidates bTaken m =
     fold (\<lambda>i m. if fp_le (distances ! i) (distances ! m) \<and> \<not> bitmap_get bTaken i
                      \<and> bitmap_get candidates i
                   then i else m) [0..<n] m"

text \<open>The outer loop, with the number of rounds left; it stops early when no candidate is left.\<close>

primrec min_idx_loop :: "f32 list \<Rightarrow> nat \<Rightarrow> bytes \<Rightarrow> nat \<Rightarrow> bytes \<Rightarrow> nat list \<times> bytes" where
  "min_idx_loop distances n candidates 0 bTaken = ([], bTaken)"
| "min_idx_loop distances n candidates (Suc left) bTaken =
     (let m = min_idx_skip n candidates bTaken 0
      in if n \<le> m then ([], bTaken)
         else let m' = min_idx_scan distances n candidates bTaken m;
                  (out, t) = min_idx_loop distances n candidates left (bitmap_set bTaken m' True)
              in (m' # out, t))"

text \<open>\<open>min_idx\<close>: the indices written to \<open>out\<close> (\<open>*k_used\<close> is their number).\<close>

definition min_idx :: "f32 list \<Rightarrow> nat \<Rightarrow> bytes \<Rightarrow> nat \<Rightarrow> bytes \<Rightarrow> nat list" where
  "min_idx distances n candidates k bTaken =
     fst (min_idx_loop distances n candidates k (bitmap_clear bTaken n))"

section \<open>\<open>merge_sorted_lists\<close>\<close>

text \<open>
  The loop with its two cursors, \<open>left\<close> output cells to go. The result is what is written to
  \<open>out\<close> and \<open>out_rowids\<close>, pairwise; \<open>*out_used\<close> is its length.
\<close>

primrec merge_loop ::
  "f32 list \<Rightarrow> 'r list \<Rightarrow> nat \<Rightarrow> f32 list \<Rightarrow> 'r list \<Rightarrow> nat list \<Rightarrow> nat \<Rightarrow> nat \<Rightarrow> nat \<Rightarrow> nat \<Rightarrow> (f32 \<times> 'r) list"
where
  "merge_loop a a_rowids a_length b b_rowids b_top_idxs b_length 0 ptrA ptrB = []"
| "merge_loop a a_rowids a_length b b_rowids b_top_idxs b_length (Suc left) ptrA ptrB =
     (if a_length \<le> ptrA \<and> b_length \<le> ptrB then []
      else if a_length \<le> ptrA then
        (b ! (b_top_idxs ! ptrB), b_rowids ! (b_top_idxs ! ptrB))
          # merge_loop a a_rowids a_length b b_rowids b_top_idxs b_length left ptrA (Suc ptrB)
      else if b_length \<le> ptrB then
        (a ! ptrA, a_rowids ! ptrA)
          # merge_loop a a_rowids a_length b b_rowids b_top_idxs b_length left (Suc ptrA) ptrB
      else if fp_le (a ! ptrA) (b ! (b_top_idxs ! ptrB)) then
        (a ! ptrA, a_rowids ! ptrA)
          # merge_loop a a_rowids a_length b b_rowids b_top_idxs b_length left (Suc ptrA) ptrB
      else
        (b ! (b_top_idxs ! ptrB), b_rowids ! (b_top_idxs ! ptrB))
          # merge_loop a a_rowids a_length b b_rowids b_top_idxs b_length left ptrA (Suc ptrB))"

definition merge_sorted_lists ::
  "f32 list \<Rightarrow> 'r list \<Rightarrow> nat \<Rightarrow> f32 list \<Rightarrow> 'r list \<Rightarrow> nat list \<Rightarrow> nat \<Rightarrow> nat \<Rightarrow> (f32 \<times> 'r) list"
where
  "merge_sorted_lists a a_rowids a_length b b_rowids b_top_idxs b_length out_length =
     merge_loop a a_rowids a_length b b_rowids b_top_idxs b_length out_length 0 0"

section \<open>Top-k of any total preorder of distances\<close>

text \<open>The merge on lists of pairs, as the abstraction of \<open>merge_loop\<close>.\<close>

fun pair_merge :: "('d \<Rightarrow> 'd \<Rightarrow> bool) \<Rightarrow> ('d \<times> 'r) list \<Rightarrow> ('d \<times> 'r) list \<Rightarrow> ('d \<times> 'r) list" where
  "pair_merge le [] ys = ys"
| "pair_merge le xs [] = xs"
| "pair_merge le (x # xs) (y # ys) =
     (if le (fst x) (fst y) then x # pair_merge le xs (y # ys) else y # pair_merge le (x # xs) ys)"

lemma pair_merge_Nil2 [simp]: "pair_merge le xs [] = xs"
  by (cases xs) auto

lemma mset_pair_merge [simp]: "mset (pair_merge le xs ys) = mset xs + mset ys"
  by (induction le xs ys rule: pair_merge.induct) auto

lemma set_pair_merge [simp]: "set (pair_merge le xs ys) = set xs \<union> set ys"
  by (metis mset_pair_merge set_mset_mset set_mset_union)

lemma length_pair_merge [simp]: "length (pair_merge le xs ys) = length xs + length ys"
  by (metis mset_pair_merge size_mset size_union)

context dist_order
begin

abbreviation pair_le :: "'d \<times> 'r \<Rightarrow> 'd \<times> 'r \<Rightarrow> bool" where
  "pair_le x y \<equiv> le (fst x) (fst y)"

lemma sorted_pair_merge:
  assumes "sorted_wrt pair_le xs" and "sorted_wrt pair_le ys"
    and "\<forall>x \<in> set xs \<union> set ys. ok (fst x)"
  shows "sorted_wrt pair_le (pair_merge le xs ys)"
  using assms
proof (induction "length xs + length ys" arbitrary: xs ys rule: less_induct)
  case less
  show ?case
  proof (cases "xs = [] \<or> ys = []")
    case True
    with less.prems show ?thesis by (cases xs) (auto simp: neq_Nil_conv)
  next
    case False
    then obtain x xs' y ys' where eq: "xs = x # xs'" "ys = y # ys'" by (auto simp: neq_Nil_conv)
    show ?thesis
    proof (cases "le (fst x) (fst y)")
      case True
      have "sorted_wrt pair_le (pair_merge le xs' ys)" using less eq by auto
      with True less.prems eq show ?thesis by (auto intro: le_trans)
    next
      case False
      with less.prems(3) eq have "le (fst y) (fst x)" using le_total by auto
      moreover have "sorted_wrt pair_le (pair_merge le xs ys')" using less eq by auto
      ultimately show ?thesis using False less.prems eq by (auto intro: le_trans)
    qed
  qed
qed

lemma is_topk_Nil: "is_topk le k {#} []"
  by (simp add: is_topk_def)

lemma is_topk_Cons:
  assumes "is_topk le k S out" and "\<forall>x \<in># S. le (fst m) (fst x)"
  shows "is_topk le (Suc k) (add_mset m S) (m # out)"
  using assms by (auto simp: is_topk_def dest: mset_subset_eqD in_diffD)

lemma argmin_fold:
  assumes "P m" and "\<forall>i \<in> set is \<union> {m}. P i \<longrightarrow> ok (d i)"
  shows "let r = fold (\<lambda>i m. if le (d i) (d m) \<and> P i then i else m) is m
         in P r \<and> r \<in> insert m (set is) \<and> (\<forall>i \<in> insert m (set is). P i \<longrightarrow> le (d r) (d i))"
  using assms
proof (induction "is" arbitrary: m)
  case Nil
  then show ?case by (simp add: le_refl)
next
  case (Cons j js)
  define m' where "m' = (if le (d j) (d m) \<and> P j then j else m)"
  define r where "r = fold (\<lambda>i m. if le (d i) (d m) \<and> P i then i else m) js m'"
  have "P m'" and ok: "\<forall>i \<in> set js \<union> {m'}. P i \<longrightarrow> ok (d i)"
    using Cons.prems by (auto simp: m'_def)
  note IH = Cons.IH [OF this, unfolded Let_def, folded r_def]
  have r: "P r" "r \<in> insert m' (set js)" "\<forall>i \<in> insert m' (set js). P i \<longrightarrow> le (d r) (d i)"
    using IH by blast+
  have m: "le (d m') (d m)" using Cons.prems le_refl by (auto simp: m'_def)
  have j: "le (d m') (d j)" if "P j" using Cons.prems le_refl le_total that by (auto simp: m'_def)
  have "le (d r) (d m')" using r(3) \<open>P m'\<close> by blast
  with m j have rm: "le (d r) (d m)" and rj: "P j \<Longrightarrow> le (d r) (d j)" using le_trans by blast+
  have mem: "r \<in> insert m (set (j # js))" using r(2) by (auto simp: m'_def split: if_splits)
  have eq: "fold (\<lambda>i m. if le (d i) (d m) \<and> P i then i else m) (j # js) m = r"
    by (simp add: r_def m'_def)
  have all: "\<forall>i \<in> insert m (set (j # js)). P i \<longrightarrow> le (d r) (d i)" using r(3) rm rj by auto
  show ?case unfolding Let_def eq using r(1) mem all by blast
qed

lemma mset_diff_split:
  assumes "mset xs \<subseteq># A" and "mset ys \<subseteq># B" and "O1 + D = mset xs + mset ys"
  shows "A + B - O1 = (A - mset xs) + (B - mset ys) + D"
proof -
  obtain A' B' where A: "A = mset xs + A'" and B: "B = mset ys + B'"
    using assms by (auto simp: mset_subset_eq_exists_conv)
  have "A + B = (mset xs + mset ys) + (A' + B')" by (simp add: A B)
  then have "A + B = O1 + (D + (A' + B'))" using assms(3) by (metis add.assoc)
  then have "A + B - O1 = D + (A' + B')" by simp
  also have "\<dots> = (A - mset xs) + (B - mset ys) + D" by (simp add: A B)
  finally show ?thesis .
qed

lemma topk_covers:
  assumes C: "is_topk le k C zs" and zs: "mset zs \<subseteq># mset out + D"
    and lo: "length out \<le> k" and x: "x \<in># C - mset zs" and y: "y \<in> set out"
    and cross: "\<And>y z. y \<in> set out \<Longrightarrow> z \<in># D \<Longrightarrow> le (fst y) (fst z)"
  shows "le (fst y) (fst x)"
proof -
  have zC: "mset zs \<subseteq># C" and lz: "length zs = min k (size C)"
    and last: "\<And>z. z \<in> set zs \<Longrightarrow> le (fst z) (fst x)"
    using C x by (auto simp: is_topk_def)
  have "size C = length zs + size (C - mset zs)"
    using zC by (metis size_mset size_union subset_mset.add_diff_inverse)
  moreover have "C - mset zs \<noteq> {#}" using x by auto
  then have "0 < size (C - mset zs)" by (simp add: nonempty_has_size)
  ultimately have kz: "length zs = k" using lz by simp
  show ?thesis
  proof (cases "mset zs \<subseteq># mset out")
    case True
    have "size (mset zs) \<ge> size (mset out)" using kz lo by simp
    with True have "mset zs = mset out"
      by (metis leD mset_subset_size subset_mset.less_le)
    with y last show ?thesis by (metis mset_eq_setD)
  next
    case False
    then obtain z where z: "count (mset out) z < count (mset zs) z"
      by (meson not_le subseteq_mset_def)
    then have "z \<in># mset zs" by (metis count_eq_zero_iff not_less0)
    have "count (mset zs) z \<le> count (mset out) z + count D z"
      using zs by (metis count_union subseteq_mset_def)
    with z have "z \<in># D" by (metis add.right_neutral count_eq_zero_iff not_le)
    with cross y have "le (fst y) (fst z)" by blast
    moreover have "le (fst z) (fst x)" using last \<open>z \<in># mset zs\<close> by simp
    ultimately show ?thesis by (rule le_trans)
  qed
qed

lemma topk_merge:
  assumes xs: "is_topk le k A xs" and ys: "is_topk le k B ys"
    and okA: "\<forall>x \<in># A + B. ok (fst x)"
  shows "is_topk le k (A + B) (take k (pair_merge le xs ys))"
proof -
  let ?M = "pair_merge le xs ys"
  let ?out = "take k ?M"
  have sub: "mset xs \<subseteq># A" "mset ys \<subseteq># B"
    and len: "length xs = min k (size A)" "length ys = min k (size B)"
    and sxy: "sorted_wrt pair_le xs" "sorted_wrt pair_le ys"
    using xs ys by (auto simp: is_topk_def)
  have okM: "\<forall>x \<in> set xs \<union> set ys. ok (fst x)"
    using sub okA by (auto dest: mset_subset_eqD)
  have sM: "sorted_wrt pair_le ?M" using sxy okM by (rule sorted_pair_merge)
  have split: "mset ?out + mset (drop k ?M) = mset xs + mset ys"
    by (metis append_take_drop_id mset_append mset_pair_merge)
  have rest: "A + B - mset ?out = (A - mset xs) + (B - mset ys) + mset (drop k ?M)"
    using sub split by (rule mset_diff_split)
  have outsub: "mset ?out \<subseteq># A + B"
    using split sub by (metis mset_subset_eq_add_left subset_mset.add_mono subset_mset.trans)
  have cross: "le (fst y) (fst z)" if "y \<in> set ?out" "z \<in> set (drop k ?M)" for y z
    using sM that by (metis append_take_drop_id sorted_wrt_append)
  have from_part: "le (fst y) (fst x)"
    if C: "is_topk le k C zs" and zs: "mset zs \<subseteq># mset ?out + mset (drop k ?M)"
      and x: "x \<in># C - mset zs" and y: "y \<in> set ?out" for C zs x y
    using topk_covers [OF C zs _ x y] cross by simp
  have "\<forall>x \<in># A + B - mset ?out. \<forall>y \<in> set ?out. le (fst y) (fst x)"
    unfolding rest using from_part [OF xs] from_part [OF ys] cross unfolding split by auto
  moreover have "length ?out = min k (size (A + B))" using len by auto
  moreover have "sorted_wrt pair_le ?out" using sM by (metis sorted_wrt_take)
  ultimately show ?thesis using outsub by (simp add: is_topk_def)
qed

end

section \<open>Correctness of \<open>min_idx\<close>\<close>

definition free_idxs :: "nat \<Rightarrow> bytes \<Rightarrow> bytes \<Rightarrow> nat set" where
  "free_idxs n candidates bTaken = {i. i < n \<and> bitmap_get candidates i \<and> \<not> bitmap_get bTaken i}"

lemma finite_free_idxs [simp]: "finite (free_idxs n c t)"
  by (rule finite_subset [of _ "{..<n}"]) (auto simp: free_idxs_def)

lemma min_idx_skip_free:
  "let m = min_idx_skip n c t i in
     (if n \<le> m then \<forall>j \<in> free_idxs n c t. j < i else m \<in> free_idxs n c t)"
proof (induction n c t i rule: min_idx_skip.induct)
  case (1 n c t i)
  show ?case
  proof (cases "i < n \<and> (bitmap_get t i \<or> \<not> bitmap_get c i)")
    case True
    then have "\<forall>j \<in> free_idxs n c t. j < Suc i \<longrightarrow> j < i"
      by (auto simp: free_idxs_def less_Suc_eq)
    with "1.IH" [OF True] True show ?thesis
      by (subst min_idx_skip.simps) (auto simp: Let_def split: if_splits)
  next
    case False
    then show ?thesis by (subst min_idx_skip.simps) (auto simp: free_idxs_def)
  qed
qed

lemma min_idx_scan_least:
  assumes "m \<in> free_idxs n c t" and nan: "\<forall>i \<in> free_idxs n c t. \<not> isnan (d ! i)"
  shows "min_idx_scan d n c t m \<in> free_idxs n c t
    \<and> (\<forall>i \<in> free_idxs n c t. fp_le (d ! min_idx_scan d n c t m) (d ! i))"
proof -
  let ?P = "\<lambda>i. \<not> bitmap_get t i \<and> bitmap_get c i"
  have m: "?P m" "m < n" using assms by (auto simp: free_idxs_def)
  have "\<forall>i \<in> set [0..<n] \<union> {m}. ?P i \<longrightarrow> \<not> isnan (d ! i)"
    using nan m by (auto simp: free_idxs_def)
  from fp_ord.argmin_fold [of ?P m "[0..<n]" "\<lambda>i. d ! i", OF m(1) this] m(2)
  show ?thesis by (auto simp: min_idx_scan_def free_idxs_def Let_def conj_assoc)
qed

lemma free_idxs_take:
  assumes "m \<in> free_idxs n c t" and "n \<le> 8 * length t"
  shows "free_idxs n c t = insert m (free_idxs n c (bitmap_set t m True))"
    and "m \<notin> free_idxs n c (bitmap_set t m True)"
  using assms by (auto simp: free_idxs_def bitmap_get_set split: if_splits)

lemma min_idx_loop_topk:
  assumes "n \<le> 8 * length t" and "\<forall>i \<in> free_idxs n c t. \<not> isnan (d ! i)"
  shows "is_topk fp_le r (image_mset (\<lambda>i. (d ! i, i)) (mset_set (free_idxs n c t)))
      (map (\<lambda>i. (d ! i, i)) (fst (min_idx_loop d n c r t)))"
  using assms
proof (induction r arbitrary: t)
  case 0
  then show ?case by (simp add: is_topk_def)
next
  case (Suc r)
  let ?m = "min_idx_skip n c t 0"
  note skip = min_idx_skip_free [of n c t 0, unfolded Let_def]
  show ?case
  proof (cases "n \<le> ?m")
    case True
    then have "free_idxs n c t = {}" using skip by auto
    with True show ?thesis by (simp add: fp_ord.is_topk_Nil)
  next
    case False
    then have mf: "?m \<in> free_idxs n c t" using skip by simp
    define m' where "m' = min_idx_scan d n c t ?m"
    have m': "m' \<in> free_idxs n c t" "\<forall>i \<in> free_idxs n c t. fp_le (d ! m') (d ! i)"
      using min_idx_scan_least [OF mf Suc.prems(2)] by (simp_all add: m'_def)
    note fr = free_idxs_take [OF m'(1) Suc.prems(1)]
    let ?t = "bitmap_set t m' True"
    let ?S = "image_mset (\<lambda>i. (d ! i, i)) (mset_set (free_idxs n c ?t))"
    have "is_topk fp_le r ?S (map (\<lambda>i. (d ! i, i)) (fst (min_idx_loop d n c r ?t)))"
      using Suc.prems fr by (intro Suc.IH) auto
    moreover have "\<forall>x \<in># ?S. fp_le (fst (d ! m', m')) (fst x)" using m'(2) fr by auto
    ultimately have "is_topk fp_le (Suc r) (add_mset (d ! m', m') ?S)
        ((d ! m', m') # map (\<lambda>i. (d ! i, i)) (fst (min_idx_loop d n c r ?t)))"
      by (rule fp_ord.is_topk_Cons)
    moreover have "image_mset (\<lambda>i. (d ! i, i)) (mset_set (free_idxs n c t)) = add_mset (d ! m', m') ?S"
      by (subst fr(1)) (simp add: fr(2))
    moreover have "map (\<lambda>i. (d ! i, i)) (fst (min_idx_loop d n c (Suc r) t))
        = (d ! m', m') # map (\<lambda>i. (d ! i, i)) (fst (min_idx_loop d n c r ?t))"
      using False by (simp add: Let_def m'_def split: prod.splits)
    ultimately show ?thesis by simp
  qed
qed

text \<open>The candidates of one chunk, as (distance, index) pairs.\<close>

definition chunk_candidates :: "f32 list \<Rightarrow> nat \<Rightarrow> bytes \<Rightarrow> nat list" where
  "chunk_candidates distances n candidates = filter (bitmap_get candidates) [0..<n]"

lemma mset_chunk_candidates:
  "mset (chunk_candidates d n c) = mset_set {i. i < n \<and> bitmap_get c i}"
proof -
  have "mset (chunk_candidates d n c) = mset_set (set (chunk_candidates d n c))"
    by (rule mset_set_set [symmetric]) (simp add: chunk_candidates_def)
  also have "set (chunk_candidates d n c) = {i. i < n \<and> bitmap_get c i}"
    by (auto simp: chunk_candidates_def)
  finally show ?thesis .
qed

lemma min_idx_topk:
  assumes "8 dvd n" and "n div 8 \<le> length t"
    and "\<forall>i < n. bitmap_get c i \<longrightarrow> \<not> isnan (d ! i)"
  shows "is_topk fp_le k (mset (map (\<lambda>i. (d ! i, i)) (chunk_candidates d n c)))
      (map (\<lambda>i. (d ! i, i)) (min_idx d n c k t))"
proof -
  have fr: "free_idxs n c (bitmap_clear t n) = {i. i < n \<and> bitmap_get c i}"
    using assms(1) by (auto simp: free_idxs_def bitmap_get_clear)
  have "n \<le> 8 * length (bitmap_clear t n)" using assms(1,2) by auto
  moreover have "\<forall>i \<in> free_idxs n c (bitmap_clear t n). \<not> isnan (d ! i)" using assms(3) by (simp add: fr)
  ultimately have "is_topk fp_le k (image_mset (\<lambda>i. (d ! i, i)) (mset_set (free_idxs n c (bitmap_clear t n))))
      (map (\<lambda>i. (d ! i, i)) (fst (min_idx_loop d n c k (bitmap_clear t n))))"
    by (rule min_idx_loop_topk)
  then show ?thesis by (simp add: min_idx_def fr mset_chunk_candidates)
qed

section \<open>\<open>merge_sorted_lists\<close> refines the merge of pairs\<close>

lemma merge_loop_pair_merge:
  "ptrA \<le> la \<Longrightarrow> ptrB \<le> lb \<Longrightarrow>
   merge_loop a ar la b br bt lb left ptrA ptrB
     = take left (pair_merge fp_le (map (\<lambda>i. (a ! i, ar ! i)) [ptrA..<la])
                                   (map (\<lambda>i. (b ! (bt ! i), br ! (bt ! i))) [ptrB..<lb]))"
proof (induction left arbitrary: ptrA ptrB)
  case (Suc left)
  show ?case
    using Suc by (cases "ptrA = la"; cases "ptrB = lb") (auto simp: upt_conv_Cons)
qed simp

lemma merge_sorted_lists_eq:
  "merge_sorted_lists a ar la b br bt lb k
     = take k (pair_merge fp_le (map (\<lambda>i. (a ! i, ar ! i)) [0..<la])
                                (map (\<lambda>i. (b ! (bt ! i), br ! (bt ! i))) [0..<lb]))"
  by (simp add: merge_sorted_lists_def merge_loop_pair_merge)

end
