(* ===== verification/Scanner.thy ===== *)
theory Scanner
  imports Prelude
begin

text \<open>
  The tokenizer for the column definitions of \<open>CREATE VIRTUAL TABLE ... USING vec0(...)\<close>
  (\<open>enum Vec0TokenType\<close> to \<open>vec0_scanner_next\<close>), and the C library's \<open>atoi\<close> the parsers
  read numbers with.

  A pointer into the source is the suffix of the source that starts there; the source ends
  at \<open>end\<close>. A token holds the suffix at its start and its length \<open>end - start\<close>. The scanner
  writes its output token only when it returns a token, so the caller's token keeps its
  old contents at end of input or on an error: the functions take the old token and return
  the new one.
\<close>

section \<open>Tokens\<close>

datatype Vec0TokenType =
    TOKEN_TYPE_IDENTIFIER
  | TOKEN_TYPE_DIGIT
  | TOKEN_TYPE_LBRACKET
  | TOKEN_TYPE_RBRACKET
  | TOKEN_TYPE_PLUS
  | TOKEN_TYPE_EQ
  | TOKEN_TYPE_LPAREN
  | TOKEN_TYPE_RPAREN
  | TOKEN_TYPE_COMMA

record Vec0Token =
  token_type :: Vec0TokenType
  tok_start :: string
  tok_len :: nat

datatype scan_rc =
    VEC0_TOKEN_RESULT_EOF
  | VEC0_TOKEN_RESULT_SOME
  | VEC0_TOKEN_RESULT_ERROR

definition is_alpha :: "char \<Rightarrow> bool" where
  "is_alpha x \<longleftrightarrow> (97 \<le> (of_char x :: nat) \<and> (of_char x :: nat) \<le> 122)
                \<or> (65 \<le> (of_char x :: nat) \<and> (of_char x :: nat) \<le> 90)"

definition is_digit :: "char \<Rightarrow> bool" where
  "is_digit x \<longleftrightarrow> 48 \<le> (of_char x :: nat) \<and> (of_char x :: nat) \<le> 57"

definition is_whitespace :: "char \<Rightarrow> bool" where
  "is_whitespace x \<longleftrightarrow> x = CHR '' '' \<or> x = CHR 0x09 \<or> x = CHR 0x0A \<or> x = CHR 0x0D"

definition is_ident_char :: "char \<Rightarrow> bool" where
  "is_ident_char x \<longleftrightarrow> is_alpha x \<or> is_digit x \<or> x = CHR ''_''"

abbreviation sym_token :: "Vec0TokenType \<Rightarrow> string \<Rightarrow> Vec0Token" where
  "sym_token t ptr \<equiv> \<lparr>token_type = t, tok_start = ptr, tok_len = 0\<rparr>"

fun vec0_token_next :: "string \<Rightarrow> Vec0Token \<Rightarrow> scan_rc \<times> Vec0Token" where
  "vec0_token_next [] out = (VEC0_TOKEN_RESULT_EOF, out)"
| "vec0_token_next (cur # ptr) out =
     (if is_whitespace cur then vec0_token_next ptr out
      else if cur = CHR ''+'' then (VEC0_TOKEN_RESULT_SOME, sym_token TOKEN_TYPE_PLUS ptr)
      else if cur = CHR ''['' then (VEC0_TOKEN_RESULT_SOME, sym_token TOKEN_TYPE_LBRACKET ptr)
      else if cur = CHR '']'' then (VEC0_TOKEN_RESULT_SOME, sym_token TOKEN_TYPE_RBRACKET ptr)
      else if cur = CHR ''='' then (VEC0_TOKEN_RESULT_SOME, sym_token TOKEN_TYPE_EQ ptr)
      else if cur = CHR ''('' then (VEC0_TOKEN_RESULT_SOME, sym_token TOKEN_TYPE_LPAREN ptr)
      else if cur = CHR '')'' then (VEC0_TOKEN_RESULT_SOME, sym_token TOKEN_TYPE_RPAREN ptr)
      else if cur = CHR '','' then (VEC0_TOKEN_RESULT_SOME, sym_token TOKEN_TYPE_COMMA ptr)
      else if is_alpha cur then
        (VEC0_TOKEN_RESULT_SOME,
         \<lparr>token_type = TOKEN_TYPE_IDENTIFIER, tok_start = cur # ptr,
          tok_len = length (takeWhile is_ident_char (cur # ptr))\<rparr>)
      else if is_digit cur then
        (VEC0_TOKEN_RESULT_SOME,
         \<lparr>token_type = TOKEN_TYPE_DIGIT, tok_start = cur # ptr,
          tok_len = length (takeWhile is_digit (cur # ptr))\<rparr>)
      else (VEC0_TOKEN_RESULT_ERROR, out))"

definition tok_end :: "Vec0Token \<Rightarrow> string" where
  "tok_end t = drop (tok_len t) (tok_start t)"

definition tok_text :: "Vec0Token \<Rightarrow> string" where
  "tok_text t = take (tok_len t) (tok_start t)"

section \<open>The scanner\<close>

text \<open>
  The scanner's state is the suffix at \<open>scanner->start\<close>; \<open>scanner->end\<close> does not move and
  \<open>scanner->ptr\<close> is never read.
\<close>

definition vec0_scanner_init :: "string \<Rightarrow> string" where
  "vec0_scanner_init source = source"

definition vec0_scanner_next :: "string \<Rightarrow> Vec0Token \<Rightarrow> scan_rc \<times> string \<times> Vec0Token" where
  "vec0_scanner_next scanner out =
     (let (rc, out') = vec0_token_next scanner out
      in if rc = VEC0_TOKEN_RESULT_SOME then (rc, tok_end out', out') else (rc, scanner, out'))"

section \<open>\<open>atoi\<close>\<close>

text \<open>
  \<open>atoi\<close> skips white space, reads an optional sign and the digits that follow, and converts
  the \<open>long\<close> it computes (saturated at 64 bits, as \<open>strtol\<close> does) to a 32-bit \<open>int\<close>.
\<close>

definition isspace :: "char \<Rightarrow> bool" where
  "isspace x \<longleftrightarrow> x = CHR '' '' \<or> (9 \<le> (of_char x :: nat) \<and> (of_char x :: nat) \<le> 13)"

definition digits_value :: "string \<Rightarrow> int" where
  "digits_value ds = foldl (\<lambda>v c. 10 * v + (int (of_char c) - 48)) 0 ds"

definition strtol_value :: "string \<Rightarrow> int" where
  "strtol_value s =
     (let s1 = dropWhile isspace s;
          neg = (case s1 of c # _ \<Rightarrow> c = CHR ''-'' | [] \<Rightarrow> False);
          s2 = (case s1 of c # r \<Rightarrow> if c = CHR ''-'' \<or> c = CHR ''+'' then r else s1 | [] \<Rightarrow> []);
          v = digits_value (takeWhile is_digit s2)
      in if neg then - v else v)"

definition long_sat :: "int \<Rightarrow> int" where
  "long_sat v = max (- (2 ^ 63)) (min (2 ^ 63 - 1) v)"

definition int32_of :: "int \<Rightarrow> int" where
  "int32_of v = (v + 2 ^ 31) mod 2 ^ 32 - 2 ^ 31"

definition atoi :: "string \<Rightarrow> int" where
  "atoi s = int32_of (long_sat (strtol_value s))"

section \<open>Progress\<close>

text \<open>
  What a parser's loop relies on: a returned token consumes at least one character, and
  anything else leaves the scanner where it was.
\<close>

locale token_source =
  fixes next_token :: "'s \<Rightarrow> 't \<Rightarrow> scan_rc \<times> 's \<times> 't"
    and left :: "'s \<Rightarrow> nat"
  assumes some_progress: "next_token s t = (VEC0_TOKEN_RESULT_SOME, s', t') \<Longrightarrow> left s' < left s"
    and other_keeps: "next_token s t = (rc, s', t') \<Longrightarrow> rc \<noteq> VEC0_TOKEN_RESULT_SOME \<Longrightarrow> s' = s \<and> t' = t"
begin

lemma left_le: "next_token s t = (rc, s', t') \<Longrightarrow> left s' \<le> left s"
  by (cases "rc = VEC0_TOKEN_RESULT_SOME") (auto dest: some_progress other_keeps)

lemma left_le_sym: "(rc, s', t') = next_token s t \<Longrightarrow> left s' \<le> left s"
  using left_le by metis

lemma left_less_sym: "(VEC0_TOKEN_RESULT_SOME, s', t') = next_token s t \<Longrightarrow> left s' < left s"
  using some_progress by metis

text \<open>Reading every token ends: the number of tokens is bounded by the characters left.\<close>

lemma eof_stable: "next_token s t = (VEC0_TOKEN_RESULT_EOF, s', t') \<Longrightarrow> next_token s' t' = (VEC0_TOKEN_RESULT_EOF, s', t')"
  using other_keeps by fastforce

end

lemma takeWhile_nonempty: "P x \<Longrightarrow> 0 < length (takeWhile P (x # xs))"
  by simp

lemma token_next_end:
  "vec0_token_next s out = (VEC0_TOKEN_RESULT_SOME, t) \<Longrightarrow> length (tok_end t) < length s"
proof (induction s out rule: vec0_token_next.induct)
  case (2 cur ptr out)
  then show ?case
    by (auto simp: tok_end_def is_ident_char_def split: if_splits)
qed simp

lemma token_next_other:
  "vec0_token_next s out = (rc, t) \<Longrightarrow> rc \<noteq> VEC0_TOKEN_RESULT_SOME \<Longrightarrow> t = out"
proof (induction s out rule: vec0_token_next.induct)
  case (2 cur ptr out)
  then show ?case by (auto split: if_splits)
qed simp

interpretation sc: token_source vec0_scanner_next length
proof
  show "length s' < length s" if "vec0_scanner_next s t = (VEC0_TOKEN_RESULT_SOME, s', t')" for s t s' t'
    using that token_next_end by (auto simp: vec0_scanner_next_def split: prod.splits if_splits)
  show "s' = s \<and> t' = t" if "vec0_scanner_next s t = (rc, s', t')" "rc \<noteq> VEC0_TOKEN_RESULT_SOME" for s t rc s' t'
    using that token_next_other by (auto simp: vec0_scanner_next_def split: prod.splits if_splits)
qed

end
