(* ===== verification/Columns.thy ===== *)
theory Columns
  imports Scanner Floats
begin

text \<open>
  The parsers of the arguments of \<open>CREATE VIRTUAL TABLE ... USING vec0(...)\<close>: table options,
  partition keys, primary keys, auxiliary columns, metadata columns and vector columns with
  their index options. Each returns \<open>Inl SQLITE_EMPTY\<close> when the argument is not of its kind,
  \<open>Inl SQLITE_ERROR\<close> when it is malformed, and the parsed fields otherwise. \<open>nicmp\<close> is
  \<open>sqlite3_strnicmp\<close>; \<open>token\<close> is the parser's uninitialised local, whose value only shows
  when the first scan returns no token.
\<close>

abbreviation keyword :: "(string \<Rightarrow> string \<Rightarrow> nat \<Rightarrow> bool) \<Rightarrow> Vec0Token \<Rightarrow> string \<Rightarrow> bool" where
  "keyword nicmp tk lit \<equiv> nicmp (tok_start tk) lit (tok_len tk)"

section \<open>Table options, partition keys, primary keys\<close>

definition vec0_parse_table_option :: "Vec0Token \<Rightarrow> string \<Rightarrow> (string \<times> string) result" where
  "vec0_parse_table_option token source =
    (let s0 = vec0_scanner_init source;
         (rc, s1, key) = vec0_scanner_next s0 token
     in if rc \<noteq> VEC0_TOKEN_RESULT_SOME \<and> token_type key \<noteq> TOKEN_TYPE_IDENTIFIER then Inl SQLITE_EMPTY
     else let (rc, s2, eq) = vec0_scanner_next s1 key
     in if rc \<noteq> VEC0_TOKEN_RESULT_SOME \<and> token_type eq \<noteq> TOKEN_TYPE_EQ then Inl SQLITE_EMPTY
     else let (rc, s3, val) = vec0_scanner_next s2 eq
     in if rc \<noteq> VEC0_TOKEN_RESULT_SOME
           \<and> \<not> (token_type val = TOKEN_TYPE_IDENTIFIER \<or> token_type val = TOKEN_TYPE_DIGIT)
        then Inl SQLITE_ERROR
     else let (rc, s4, last) = vec0_scanner_next s3 val
     in if rc = VEC0_TOKEN_RESULT_EOF then Inr (tok_text key, tok_text val) else Inl SQLITE_ERROR)"

text \<open>The column type of a key column: \<open>text\<close>, or \<open>int\<close> or \<open>integer\<close>.\<close>

definition key_column_type :: "(string \<Rightarrow> string \<Rightarrow> nat \<Rightarrow> bool) \<Rightarrow> Vec0Token \<Rightarrow> sqlite_type option" where
  "key_column_type nicmp tk =
     (if keyword nicmp tk ''text'' then Some SQLITE_TEXT
      else if keyword nicmp tk ''int'' \<or> keyword nicmp tk ''integer'' then Some SQLITE_INTEGER
      else None)"

definition vec0_parse_partition_key_definition ::
  "(string \<Rightarrow> string \<Rightarrow> nat \<Rightarrow> bool) \<Rightarrow> Vec0Token \<Rightarrow> string \<Rightarrow> (string \<times> sqlite_type) result"
where
  "vec0_parse_partition_key_definition nicmp token source =
    (let s0 = vec0_scanner_init source;
         (rc, s1, t1) = vec0_scanner_next s0 token
     in if rc \<noteq> VEC0_TOKEN_RESULT_SOME \<and> token_type t1 \<noteq> TOKEN_TYPE_IDENTIFIER then Inl SQLITE_EMPTY
     else let (rc, s2, t2) = vec0_scanner_next s1 t1
     in if rc \<noteq> VEC0_TOKEN_RESULT_SOME \<and> token_type t2 \<noteq> TOKEN_TYPE_IDENTIFIER then Inl SQLITE_EMPTY
     else case key_column_type nicmp t2 of None \<Rightarrow> Inl SQLITE_EMPTY
     | Some column_type \<Rightarrow>
         let (rc, s3, t3) = vec0_scanner_next s2 t2
     in if rc \<noteq> VEC0_TOKEN_RESULT_SOME \<and> token_type t3 \<noteq> TOKEN_TYPE_IDENTIFIER then Inl SQLITE_EMPTY
     else if \<not> keyword nicmp t3 ''partition'' then Inl SQLITE_EMPTY
     else let (rc, s4, t4) = vec0_scanner_next s3 t3
     in if rc \<noteq> VEC0_TOKEN_RESULT_SOME \<and> token_type t4 \<noteq> TOKEN_TYPE_IDENTIFIER then Inl SQLITE_EMPTY
     else if \<not> keyword nicmp t4 ''key'' then Inl SQLITE_EMPTY
     else Inr (tok_text t1, column_type))"

definition vec0_parse_primary_key_definition ::
  "(string \<Rightarrow> string \<Rightarrow> nat \<Rightarrow> bool) \<Rightarrow> Vec0Token \<Rightarrow> string \<Rightarrow> (string \<times> sqlite_type) result"
where
  "vec0_parse_primary_key_definition nicmp token source =
    (let s0 = vec0_scanner_init source;
         (rc, s1, t1) = vec0_scanner_next s0 token
     in if rc \<noteq> VEC0_TOKEN_RESULT_SOME \<and> token_type t1 \<noteq> TOKEN_TYPE_IDENTIFIER then Inl SQLITE_EMPTY
     else let (rc, s2, t2) = vec0_scanner_next s1 t1
     in if rc \<noteq> VEC0_TOKEN_RESULT_SOME \<and> token_type t2 \<noteq> TOKEN_TYPE_IDENTIFIER then Inl SQLITE_EMPTY
     else case key_column_type nicmp t2 of None \<Rightarrow> Inl SQLITE_EMPTY
     | Some column_type \<Rightarrow>
         let (rc, s3, t3) = vec0_scanner_next s2 t2
     in if rc \<noteq> VEC0_TOKEN_RESULT_SOME \<and> token_type t3 \<noteq> TOKEN_TYPE_IDENTIFIER then Inl SQLITE_EMPTY
     else if \<not> keyword nicmp t3 ''primary'' then Inl SQLITE_EMPTY
     else let (rc, s4, t4) = vec0_scanner_next s3 t3
     in if rc \<noteq> VEC0_TOKEN_RESULT_SOME \<and> token_type t4 \<noteq> TOKEN_TYPE_IDENTIFIER then Inl SQLITE_EMPTY
     else if \<not> keyword nicmp t4 ''key'' then Inl SQLITE_EMPTY
     else Inr (tok_text t1, column_type))"

section \<open>Auxiliary and metadata columns\<close>

definition auxiliary_column_type :: "(string \<Rightarrow> string \<Rightarrow> nat \<Rightarrow> bool) \<Rightarrow> Vec0Token \<Rightarrow> sqlite_type option" where
  "auxiliary_column_type nicmp tk =
     (if keyword nicmp tk ''text'' then Some SQLITE_TEXT
      else if keyword nicmp tk ''int'' \<or> keyword nicmp tk ''integer'' then Some SQLITE_INTEGER
      else if keyword nicmp tk ''float'' \<or> keyword nicmp tk ''double'' then Some SQLITE_FLOAT
      else if keyword nicmp tk ''blob'' then Some SQLITE_BLOB
      else None)"

definition vec0_parse_auxiliary_column_definition ::
  "(string \<Rightarrow> string \<Rightarrow> nat \<Rightarrow> bool) \<Rightarrow> Vec0Token \<Rightarrow> string \<Rightarrow> (string \<times> sqlite_type) result"
where
  "vec0_parse_auxiliary_column_definition nicmp token source =
    (let s0 = vec0_scanner_init source;
         (rc, s1, t1) = vec0_scanner_next s0 token
     in if rc \<noteq> VEC0_TOKEN_RESULT_SOME \<or> token_type t1 \<noteq> TOKEN_TYPE_PLUS then Inl SQLITE_EMPTY
     else let (rc, s2, t2) = vec0_scanner_next s1 t1
     in if rc \<noteq> VEC0_TOKEN_RESULT_SOME \<and> token_type t2 \<noteq> TOKEN_TYPE_IDENTIFIER then Inl SQLITE_EMPTY
     else let (rc, s3, t3) = vec0_scanner_next s2 t2
     in if rc \<noteq> VEC0_TOKEN_RESULT_SOME \<and> token_type t3 \<noteq> TOKEN_TYPE_IDENTIFIER then Inl SQLITE_EMPTY
     else case auxiliary_column_type nicmp t3 of None \<Rightarrow> Inl SQLITE_EMPTY
     | Some column_type \<Rightarrow> Inr (tok_text t2, column_type))"

datatype vec0_metadata_column_kind =
    VEC0_METADATA_COLUMN_KIND_BOOLEAN
  | VEC0_METADATA_COLUMN_KIND_INTEGER
  | VEC0_METADATA_COLUMN_KIND_FLOAT
  | VEC0_METADATA_COLUMN_KIND_TEXT

definition metadata_column_kind ::
  "(string \<Rightarrow> string \<Rightarrow> nat \<Rightarrow> bool) \<Rightarrow> Vec0Token \<Rightarrow> vec0_metadata_column_kind option"
where
  "metadata_column_kind nicmp tk =
     (if keyword nicmp tk ''boolean'' \<or> keyword nicmp tk ''bool''
      then Some VEC0_METADATA_COLUMN_KIND_BOOLEAN
      else if keyword nicmp tk ''int64'' \<or> keyword nicmp tk ''integer64'' \<or>
              keyword nicmp tk ''integer'' \<or> keyword nicmp tk ''int''
      then Some VEC0_METADATA_COLUMN_KIND_INTEGER
      else if keyword nicmp tk ''float'' \<or> keyword nicmp tk ''double'' \<or>
              keyword nicmp tk ''float64'' \<or> keyword nicmp tk ''f64''
      then Some VEC0_METADATA_COLUMN_KIND_FLOAT
      else if keyword nicmp tk ''text'' then Some VEC0_METADATA_COLUMN_KIND_TEXT
      else None)"

definition vec0_parse_metadata_column_definition ::
  "(string \<Rightarrow> string \<Rightarrow> nat \<Rightarrow> bool) \<Rightarrow> Vec0Token \<Rightarrow> string \<Rightarrow> (string \<times> vec0_metadata_column_kind) result"
where
  "vec0_parse_metadata_column_definition nicmp token source =
    (let s0 = vec0_scanner_init source;
         (rc, s1, t1) = vec0_scanner_next s0 token
     in if rc \<noteq> VEC0_TOKEN_RESULT_SOME \<or> token_type t1 \<noteq> TOKEN_TYPE_IDENTIFIER then Inl SQLITE_EMPTY
     else let (rc, s2, t2) = vec0_scanner_next s1 t1
     in if rc \<noteq> VEC0_TOKEN_RESULT_SOME \<or> token_type t2 \<noteq> TOKEN_TYPE_IDENTIFIER then Inl SQLITE_EMPTY
     else case metadata_column_kind nicmp t2 of None \<Rightarrow> Inl SQLITE_EMPTY
     | Some column_type \<Rightarrow> Inr (tok_text t1, column_type))"

end
