(* ===== verification/VectorColumn.thy ===== *)
theory VectorColumn
  imports Columns
begin

text \<open>
  Vector column definitions (\<open>vec0_parse_vector_column\<close>) and the options of their indexes:
  \<open>vec0_parse_rescore_options\<close> and \<open>vec0_parse_diskann_options\<close>. The build is the default
  one: RESCORE and DISKANN compiled in, IVF not. The error text of the rescore options is
  dropped by their only caller, so it is not modelled.
\<close>

section \<open>Index configurations\<close>

text \<open>The value 0 that \<open>memset\<close> leaves in an enumeration is a constructor of its own.\<close>

datatype Vec0IndexType =
    VEC0_INDEX_TYPE_FLAT
  | VEC0_INDEX_TYPE_RESCORE
  | VEC0_INDEX_TYPE_IVF
  | VEC0_INDEX_TYPE_DISKANN

datatype Vec0RescoreQuantizerType =
    VEC0_RESCORE_QUANTIZER_UNSET
  | VEC0_RESCORE_QUANTIZER_BIT
  | VEC0_RESCORE_QUANTIZER_INT8

record Vec0RescoreConfig =
  rs_quantizer_type :: Vec0RescoreQuantizerType
  rs_oversample :: int
  rs_oversample_search :: int

datatype Vec0DiskannQuantizerType =
    VEC0_DISKANN_QUANTIZER_UNSET
  | VEC0_DISKANN_QUANTIZER_BINARY
  | VEC0_DISKANN_QUANTIZER_INT8

record Vec0DiskannConfig =
  dk_quantizer_type :: Vec0DiskannQuantizerType
  dk_n_neighbors :: int
  dk_search_list_size :: int
  dk_search_list_size_search :: int
  dk_search_list_size_insert :: int
  dk_alpha :: f32
  dk_buffer_threshold :: int

record VectorColumnDefinition =
  vc_name :: string
  vc_dimensions :: nat
  vc_element_type :: VectorElementType
  vc_distance_metric :: Vec0DistanceMetrics
  vc_index_type :: Vec0IndexType
  vc_rescore :: Vec0RescoreConfig
  vc_diskann :: Vec0DiskannConfig

definition zero_rescore :: Vec0RescoreConfig where
  "zero_rescore = \<lparr>rs_quantizer_type = VEC0_RESCORE_QUANTIZER_UNSET, rs_oversample = 0,
                   rs_oversample_search = 0\<rparr>"

definition zero_diskann :: Vec0DiskannConfig where
  "zero_diskann = \<lparr>dk_quantizer_type = VEC0_DISKANN_QUANTIZER_UNSET, dk_n_neighbors = 0,
                   dk_search_list_size = 0, dk_search_list_size_search = 0,
                   dk_search_list_size_insert = 0, dk_alpha = fp0, dk_buffer_threshold = 0\<rparr>"

text \<open>\<open>VEC0_DISKANN_DEFAULT_ALPHA\<close>: \<open>1.2f\<close>, the \<open>float\<close> nearest to 1.2.\<close>

definition default_alpha :: f32 where
  "default_alpha = FFin False 10066330 (-23)"

fun diskann_quantized_vector_byte_size :: "Vec0DiskannQuantizerType \<Rightarrow> nat \<Rightarrow> nat" where
  "diskann_quantized_vector_byte_size VEC0_DISKANN_QUANTIZER_BINARY dimensions = dimensions div 8"
| "diskann_quantized_vector_byte_size VEC0_DISKANN_QUANTIZER_INT8 dimensions = dimensions * 1"
| "diskann_quantized_vector_byte_size VEC0_DISKANN_QUANTIZER_UNSET dimensions = 0"

definition vector_column_byte_size :: "VectorColumnDefinition \<Rightarrow> nat" where
  "vector_column_byte_size column = vector_byte_size (vc_element_type column) (vc_dimensions column)"

section \<open>\<open>rescore(...)\<close>\<close>

text \<open>One \<open>key=value\<close> of the list: the configuration and \<open>hasQuantizer\<close> after it.\<close>

definition rescore_option ::
  "(string \<Rightarrow> string \<Rightarrow> nat \<Rightarrow> bool) \<Rightarrow> Vec0Token \<Rightarrow> Vec0Token \<Rightarrow> Vec0RescoreConfig \<Rightarrow> bool \<Rightarrow>
   (Vec0RescoreConfig \<times> bool) result"
where
  "rescore_option nicmp key val config hasQuantizer =
     (if keyword nicmp key ''quantizer'' then
        if token_type val \<noteq> TOKEN_TYPE_IDENTIFIER then Inl SQLITE_ERROR
        else if keyword nicmp val ''bit''
        then Inr (config\<lparr>rs_quantizer_type := VEC0_RESCORE_QUANTIZER_BIT\<rparr>, True)
        else if keyword nicmp val ''int8''
        then Inr (config\<lparr>rs_quantizer_type := VEC0_RESCORE_QUANTIZER_INT8\<rparr>, True)
        else Inl SQLITE_ERROR
      else if keyword nicmp key ''oversample'' then
        if token_type val \<noteq> TOKEN_TYPE_DIGIT then Inl SQLITE_ERROR
        else if atoi (tok_start val) \<le> 0 \<or> 128 < atoi (tok_start val) then Inl SQLITE_ERROR
        else Inr (config\<lparr>rs_oversample := atoi (tok_start val)\<rparr>, hasQuantizer)
      else Inl SQLITE_ERROR)"

definition rescore_done :: "Vec0RescoreConfig \<Rightarrow> bool \<Rightarrow> string \<Rightarrow> (Vec0RescoreConfig \<times> string) result" where
  "rescore_done config hasQuantizer s = (if hasQuantizer then Inr (config, s) else Inl SQLITE_ERROR)"

function rescore_options_loop ::
  "(string \<Rightarrow> string \<Rightarrow> nat \<Rightarrow> bool) \<Rightarrow> string \<Rightarrow> Vec0Token \<Rightarrow> Vec0RescoreConfig \<Rightarrow> bool \<Rightarrow>
   (Vec0RescoreConfig \<times> string) result"
where
  "rescore_options_loop nicmp s0 t0 config has =
    (let (rc, s1, t1) = vec0_scanner_next s0 t0
     in if rc = VEC0_TOKEN_RESULT_EOF then rescore_done config has s1
     else if rc = VEC0_TOKEN_RESULT_SOME \<and> token_type t1 = TOKEN_TYPE_RPAREN
     then rescore_done config has s1
     else if rc \<noteq> VEC0_TOKEN_RESULT_SOME \<or> token_type t1 \<noteq> TOKEN_TYPE_IDENTIFIER then Inl SQLITE_ERROR
     else let (rc2, s2, t2) = vec0_scanner_next s1 t1
     in if rc2 \<noteq> VEC0_TOKEN_RESULT_SOME \<or> token_type t2 \<noteq> TOKEN_TYPE_EQ then Inl SQLITE_ERROR
     else let (rc3, s3, t3) = vec0_scanner_next s2 t2
     in if rc3 \<noteq> VEC0_TOKEN_RESULT_SOME then Inl SQLITE_ERROR
     else case rescore_option nicmp t1 t3 config has of
       Inl e \<Rightarrow> Inl e
     | Inr (config', has') \<Rightarrow>
         let (rc4, s4, t4) = vec0_scanner_next s3 t3
         in if rc4 = VEC0_TOKEN_RESULT_EOF then rescore_done config' has' s4
            else if rc4 = VEC0_TOKEN_RESULT_SOME \<and> token_type t4 = TOKEN_TYPE_RPAREN
            then rescore_done config' has' s4
            else if rc4 = VEC0_TOKEN_RESULT_SOME \<and> token_type t4 = TOKEN_TYPE_COMMA
            then rescore_options_loop nicmp s4 t4 config' has'
            else Inl SQLITE_ERROR)"
  by pat_completeness auto
termination
proof (relation "measure (\<lambda>(nicmp, s, t, config, has). length s)", goal_cases)
  case 1
  show ?case by simp
next
  case 2
  then show ?case
    by clarsimp ((drule sc.left_less_sym)+, linarith)
qed

declare rescore_options_loop.simps [simp del]

definition vec0_parse_rescore_options ::
  "(string \<Rightarrow> string \<Rightarrow> nat \<Rightarrow> bool) \<Rightarrow> Vec0Token \<Rightarrow> Vec0RescoreConfig \<Rightarrow> string \<Rightarrow>
   (Vec0RescoreConfig \<times> string) result"
where
  "vec0_parse_rescore_options nicmp token outConfig scanner =
     rescore_options_loop nicmp scanner token
       (outConfig\<lparr>rs_oversample := 8, rs_quantizer_type := VEC0_RESCORE_QUANTIZER_UNSET\<rparr>) False"

section \<open>\<open>diskann(...)\<close>\<close>

text \<open>One option: the configuration and the flags \<open>hasQuantizer\<close>, \<open>hasSearchListSize\<close>, \<open>...Split\<close>.\<close>

definition diskann_option ::
  "(string \<Rightarrow> string \<Rightarrow> nat \<Rightarrow> bool) \<Rightarrow> Vec0Token \<Rightarrow> Vec0Token \<Rightarrow> Vec0DiskannConfig \<Rightarrow>
   bool \<times> bool \<times> bool \<Rightarrow> (Vec0DiskannConfig \<times> bool \<times> bool \<times> bool) result"
where
  "diskann_option nicmp key val config flags =
     (let (hasQ, hasS, hasSplit) = flags; n = atoi (tok_start val)
      in if keyword nicmp key ''neighbor_quantizer'' then
           if keyword nicmp val ''binary''
           then Inr (config\<lparr>dk_quantizer_type := VEC0_DISKANN_QUANTIZER_BINARY\<rparr>, True, hasS, hasSplit)
           else if keyword nicmp val ''int8''
           then Inr (config\<lparr>dk_quantizer_type := VEC0_DISKANN_QUANTIZER_INT8\<rparr>, True, hasS, hasSplit)
           else Inl SQLITE_ERROR
         else if keyword nicmp key ''n_neighbors'' then
           if n \<le> 0 \<or> n mod 8 \<noteq> 0 \<or> 256 < n then Inl SQLITE_ERROR
           else Inr (config\<lparr>dk_n_neighbors := n\<rparr>, hasQ, hasS, hasSplit)
         else if keyword nicmp key ''search_list_size_search'' \<and> tok_len key = 23 then
           if n \<le> 0 then Inl SQLITE_ERROR
           else Inr (config\<lparr>dk_search_list_size_search := n\<rparr>, hasQ, hasS, True)
         else if keyword nicmp key ''search_list_size_insert'' \<and> tok_len key = 23 then
           if n \<le> 0 then Inl SQLITE_ERROR
           else Inr (config\<lparr>dk_search_list_size_insert := n\<rparr>, hasQ, hasS, True)
         else if keyword nicmp key ''search_list_size'' then
           if n \<le> 0 then Inl SQLITE_ERROR
           else Inr (config\<lparr>dk_search_list_size := n\<rparr>, hasQ, True, hasSplit)
         else if keyword nicmp key ''buffer_threshold'' then
           if n < 0 then Inl SQLITE_ERROR
           else Inr (config\<lparr>dk_buffer_threshold := n\<rparr>, hasQ, hasS, hasSplit)
         else Inl SQLITE_ERROR)"

definition diskann_done ::
  "Vec0DiskannConfig \<Rightarrow> bool \<times> bool \<times> bool \<Rightarrow> string \<Rightarrow> (Vec0DiskannConfig \<times> string) result"
where
  "diskann_done config flags s =
     (let (hasQ, hasS, hasSplit) = flags
      in if \<not> hasQ then Inl SQLITE_ERROR
         else if hasS \<and> hasSplit then Inl SQLITE_ERROR
         else Inr (config, s))"

function diskann_options_loop ::
  "(string \<Rightarrow> string \<Rightarrow> nat \<Rightarrow> bool) \<Rightarrow> string \<Rightarrow> Vec0Token \<Rightarrow> Vec0DiskannConfig \<Rightarrow>
   bool \<times> bool \<times> bool \<Rightarrow> (Vec0DiskannConfig \<times> string) result"
where
  "diskann_options_loop nicmp s0 t0 config flags =
    (let (rc, s1, t1) = vec0_scanner_next s0 t0
     in if rc = VEC0_TOKEN_RESULT_SOME \<and> token_type t1 = TOKEN_TYPE_RPAREN
     then diskann_done config flags s1
     else if rc \<noteq> VEC0_TOKEN_RESULT_SOME \<or> token_type t1 \<noteq> TOKEN_TYPE_IDENTIFIER then Inl SQLITE_ERROR
     else let (rc2, s2, t2) = vec0_scanner_next s1 t1
     in if rc2 \<noteq> VEC0_TOKEN_RESULT_SOME \<or> token_type t2 \<noteq> TOKEN_TYPE_EQ then Inl SQLITE_ERROR
     else let (rc3, s3, t3) = vec0_scanner_next s2 t2
     in if rc3 \<noteq> VEC0_TOKEN_RESULT_SOME then Inl SQLITE_ERROR
     else case diskann_option nicmp t1 t3 config flags of
       Inl e \<Rightarrow> Inl e
     | Inr (config', flags') \<Rightarrow>
         let (rc4, s4, t4) = vec0_scanner_next s3 t3
         in if rc4 = VEC0_TOKEN_RESULT_SOME \<and> token_type t4 = TOKEN_TYPE_RPAREN
            then diskann_done config' flags' s4
            else if rc4 \<noteq> VEC0_TOKEN_RESULT_SOME \<or> token_type t4 \<noteq> TOKEN_TYPE_COMMA then Inl SQLITE_ERROR
            else diskann_options_loop nicmp s4 t4 config' flags')"
  by pat_completeness auto
termination
proof (relation "measure (\<lambda>(nicmp, s, t, config, flags). length s)", goal_cases)
  case 1
  show ?case by simp
next
  case 2
  then show ?case
    by clarsimp ((drule sc.left_less_sym)+, linarith)
qed

declare diskann_options_loop.simps [simp del]

definition vec0_parse_diskann_options ::
  "(string \<Rightarrow> string \<Rightarrow> nat \<Rightarrow> bool) \<Rightarrow> Vec0Token \<Rightarrow> Vec0DiskannConfig \<Rightarrow> string \<Rightarrow>
   (Vec0DiskannConfig \<times> string) result"
where
  "vec0_parse_diskann_options nicmp token config scanner =
    (let config' = config\<lparr>dk_n_neighbors := 72, dk_search_list_size := 128,
                          dk_search_list_size_search := 0, dk_search_list_size_insert := 0,
                          dk_alpha := default_alpha, dk_buffer_threshold := 0\<rparr>;
         (rc, s1, t1) = vec0_scanner_next scanner token
     in if rc \<noteq> VEC0_TOKEN_RESULT_SOME \<or> token_type t1 \<noteq> TOKEN_TYPE_LPAREN then Inl SQLITE_ERROR
        else diskann_options_loop nicmp s1 t1 config' (False, False, False))"

section \<open>Vector columns\<close>

record column_options =
  co_metric :: Vec0DistanceMetrics
  co_index :: Vec0IndexType
  co_rescore :: Vec0RescoreConfig
  co_diskann :: Vec0DiskannConfig

definition default_options :: column_options where
  "default_options = \<lparr>co_metric = VEC0_DISTANCE_METRIC_L2, co_index = VEC0_INDEX_TYPE_FLAT,
                      co_rescore = zero_rescore, co_diskann = zero_diskann\<rparr>"

text \<open>
  \<open>distance_metric=<name>\<close>, from the token after the key: the option's effect, the scanner
  and the caller's token after it.
\<close>

definition distance_metric_option ::
  "(string \<Rightarrow> string \<Rightarrow> nat \<Rightarrow> bool) \<Rightarrow> VectorElementType \<Rightarrow> column_options \<Rightarrow> string \<Rightarrow> Vec0Token \<Rightarrow>
   (column_options \<times> string \<times> Vec0Token) result"
where
  "distance_metric_option nicmp elementType opts s1 t1 =
    (if elementType = SQLITE_VEC_ELEMENT_TYPE_BIT then Inl SQLITE_ERROR
     else let (rc2, s2, t2) = vec0_scanner_next s1 t1
     in if rc2 \<noteq> VEC0_TOKEN_RESULT_SOME \<and> token_type t2 \<noteq> TOKEN_TYPE_EQ then Inl SQLITE_ERROR
     else let (rc3, s3, t3) = vec0_scanner_next s2 t2
     in if rc3 \<noteq> VEC0_TOKEN_RESULT_SOME \<and> token_type t3 \<noteq> TOKEN_TYPE_IDENTIFIER then Inl SQLITE_ERROR
     else if keyword nicmp t3 ''l2'' then Inr (opts\<lparr>co_metric := VEC0_DISTANCE_METRIC_L2\<rparr>, s3, t3)
     else if keyword nicmp t3 ''l1'' then Inr (opts\<lparr>co_metric := VEC0_DISTANCE_METRIC_L1\<rparr>, s3, t3)
     else if keyword nicmp t3 ''cosine'' then Inr (opts\<lparr>co_metric := VEC0_DISTANCE_METRIC_COSINE\<rparr>, s3, t3)
     else Inl SQLITE_ERROR)"

text \<open>\<open>INDEXED BY flat() | rescore(...) | diskann(...)\<close>, from the token after \<open>INDEXED\<close>.\<close>

definition indexed_by_option ::
  "(string \<Rightarrow> string \<Rightarrow> nat \<Rightarrow> bool) \<Rightarrow> Vec0Token \<Rightarrow> VectorElementType \<Rightarrow> nat \<Rightarrow> column_options \<Rightarrow>
   string \<Rightarrow> Vec0Token \<Rightarrow> (column_options \<times> string \<times> Vec0Token) result"
where
  "indexed_by_option nicmp junk elementType dimensions opts s1 t1 =
    (let (rc2, s2, t2) = vec0_scanner_next s1 t1
     in if rc2 \<noteq> VEC0_TOKEN_RESULT_SOME \<or> token_type t2 \<noteq> TOKEN_TYPE_IDENTIFIER
           \<or> \<not> keyword nicmp t2 ''by'' then Inl SQLITE_ERROR
     else let (rc3, s3, t3) = vec0_scanner_next s2 t2
     in if rc3 \<noteq> VEC0_TOKEN_RESULT_SOME \<or> token_type t3 \<noteq> TOKEN_TYPE_IDENTIFIER then Inl SQLITE_ERROR
     else if keyword nicmp t3 ''flat'' then
       (let (rc4, s4, t4) = vec0_scanner_next s3 t3
        in if rc4 \<noteq> VEC0_TOKEN_RESULT_SOME \<or> token_type t4 \<noteq> TOKEN_TYPE_LPAREN then Inl SQLITE_ERROR
        else let (rc5, s5, t5) = vec0_scanner_next s4 t4
        in if rc5 \<noteq> VEC0_TOKEN_RESULT_SOME \<or> token_type t5 \<noteq> TOKEN_TYPE_RPAREN then Inl SQLITE_ERROR
        else Inr (opts\<lparr>co_index := VEC0_INDEX_TYPE_FLAT\<rparr>, s5, t5))
     else if keyword nicmp t3 ''rescore'' then
       (if elementType \<noteq> SQLITE_VEC_ELEMENT_TYPE_FLOAT32 then Inl SQLITE_ERROR
        else let (rc4, s4, t4) = vec0_scanner_next s3 t3
        in if rc4 \<noteq> VEC0_TOKEN_RESULT_SOME \<or> token_type t4 \<noteq> TOKEN_TYPE_LPAREN then Inl SQLITE_ERROR
        else case vec0_parse_rescore_options nicmp junk (co_rescore opts) s4 of
          Inl e \<Rightarrow> Inl SQLITE_ERROR
        | Inr (cfg, s5) \<Rightarrow>
            if rs_quantizer_type cfg = VEC0_RESCORE_QUANTIZER_BIT \<and> dimensions mod 8 \<noteq> 0
            then Inl SQLITE_ERROR
            else Inr (opts\<lparr>co_index := VEC0_INDEX_TYPE_RESCORE, co_rescore := cfg\<rparr>, s5, t4))
     else if keyword nicmp t3 ''ivf'' then Inl SQLITE_ERROR
     else if keyword nicmp t3 ''diskann'' then
       (case vec0_parse_diskann_options nicmp junk (co_diskann opts) s3 of
          Inl e \<Rightarrow> Inl e
        | Inr (cfg, s4) \<Rightarrow> Inr (opts\<lparr>co_index := VEC0_INDEX_TYPE_DISKANN, co_diskann := cfg\<rparr>, s4, t3))
     else Inl SQLITE_ERROR)"

text \<open>
  Loop rules: an invariant that every option keeps holds of the final configuration, and
  the scanner only moves forward.
\<close>

lemma four_scans:
  obtains rc s1 t1 rc2 s2 t2 rc3 s3 t3 rc4 s4 t4 where
    "vec0_scanner_next s t = (rc, s1, t1)" and "vec0_scanner_next s1 t1 = (rc2, s2, t2)"
    and "vec0_scanner_next s2 t2 = (rc3, s3, t3)" and "vec0_scanner_next s3 t3 = (rc4, s4, t4)"
  by (metis prod_cases3)

lemma rescore_loop_rule:
  assumes "rescore_options_loop nicmp s t cfg has = Inr (cfg', s')" and "Inv cfg has"
    and step: "\<And>k v c h c' h'. rescore_option nicmp k v c h = Inr (c', h') \<Longrightarrow> Inv c h \<Longrightarrow> Inv c' h'"
  shows "length s' \<le> length s \<and> Inv cfg' True"
  using assms(1,2)
proof (induction "length s" arbitrary: s t cfg has rule: less_induct)
  case less
  obtain rc s1 t1 rc2 s2 t2 rc3 s3 t3 rc4 s4 t4 where
    n: "vec0_scanner_next s t = (rc, s1, t1)" "vec0_scanner_next s1 t1 = (rc2, s2, t2)"
      "vec0_scanner_next s2 t2 = (rc3, s3, t3)" "vec0_scanner_next s3 t3 = (rc4, s4, t4)"
    by (rule four_scans)
  note le = n [THEN sc.left_le]
  have lt: "rc = VEC0_TOKEN_RESULT_SOME \<Longrightarrow> length s1 < length s" using n(1) sc.some_progress by metis
  note run = less.prems(1) [unfolded rescore_options_loop.simps [of nicmp s t cfg has], simplified n Let_def prod.case]
  show ?case
  proof (cases "rescore_done cfg has s1 = Inr (cfg', s')")
    case True
    with le less.prems(2) show ?thesis by (auto simp: rescore_done_def split: if_splits)
  next
    case False
    with run have rc: "rc = VEC0_TOKEN_RESULT_SOME" by (simp split: if_splits)
    show ?thesis
    proof (cases "rescore_option nicmp t1 t3 cfg has")
      case (Inl e)
      with run False show ?thesis by (simp split: if_splits)
    next
      case (Inr r)
      obtain c2 h2 where r: "r = (c2, h2)" by fastforce
      from Inr r less.prems(2) have inv: "Inv c2 h2" by (auto intro: step)
      from run False Inr r
      have "rescore_done c2 h2 s4 = Inr (cfg', s') \<or> rescore_options_loop nicmp s4 t4 c2 h2 = Inr (cfg', s')"
        by (simp split: if_splits)
      then show ?thesis
        using less.hyps [of s4 t4 c2 h2] inv le lt [OF rc] by (auto simp: rescore_done_def split: if_splits)
    qed
  qed
qed

lemma diskann_loop_rule:
  assumes "diskann_options_loop nicmp s t cfg fl = Inr (cfg', s')" and "Inv cfg fl"
    and step: "\<And>k v c h c' h'. diskann_option nicmp k v c h = Inr (c', h') \<Longrightarrow> Inv c h \<Longrightarrow> Inv c' h'"
  shows "length s' \<le> length s \<and> (\<exists>hs hp. Inv cfg' (True, hs, hp) \<and> \<not> (hs \<and> hp))"
  using assms(1,2)
proof (induction "length s" arbitrary: s t cfg fl rule: less_induct)
  case less
  obtain rc s1 t1 rc2 s2 t2 rc3 s3 t3 rc4 s4 t4 where
    n: "vec0_scanner_next s t = (rc, s1, t1)" "vec0_scanner_next s1 t1 = (rc2, s2, t2)"
      "vec0_scanner_next s2 t2 = (rc3, s3, t3)" "vec0_scanner_next s3 t3 = (rc4, s4, t4)"
    by (rule four_scans)
  note le = n [THEN sc.left_le]
  have lt: "rc = VEC0_TOKEN_RESULT_SOME \<Longrightarrow> length s1 < length s" using n(1) sc.some_progress by metis
  have fin: "length s' \<le> length r \<and> (\<exists>hs hp. Inv cfg' (True, hs, hp) \<and> \<not> (hs \<and> hp))"
    if "diskann_done c f r = Inr (cfg', s')" "Inv c f" for c f r
    using that by (cases f) (auto simp: diskann_done_def split: if_splits)
  note run = less.prems(1) [unfolded diskann_options_loop.simps [of nicmp s t cfg fl], simplified n Let_def prod.case]
  show ?case
  proof (cases "diskann_done cfg fl s1 = Inr (cfg', s')")
    case True
    from fin [OF this less.prems(2)] le show ?thesis by auto
  next
    case False
    with run have rc: "rc = VEC0_TOKEN_RESULT_SOME" by (simp split: if_splits)
    show ?thesis
    proof (cases "diskann_option nicmp t1 t3 cfg fl")
      case (Inl e)
      with run False show ?thesis by (simp split: if_splits)
    next
      case (Inr r)
      obtain c2 f2 where r: "r = (c2, f2)" by (rule prod.exhaust)
      from Inr r less.prems(2) have inv: "Inv c2 f2" by (auto intro: step)
      from run False Inr r
      have "diskann_done c2 f2 s4 = Inr (cfg', s') \<or> diskann_options_loop nicmp s4 t4 c2 f2 = Inr (cfg', s')"
        by (simp split: if_splits)
      then show ?thesis
        using less.hyps [of s4 t4 c2 f2] inv le lt [OF rc] fin [of c2 f2 s4] by auto
    qed
  qed
qed

lemma parse_diskann_left:
  "vec0_parse_diskann_options nicmp junk cfg s = Inr (cfg', s') \<Longrightarrow> length s' < length s"
  by (auto simp: vec0_parse_diskann_options_def Let_def split: prod.splits if_splits
      dest!: diskann_loop_rule [where Inv = "\<lambda>_ _. True"] sc.some_progress)

lemma parse_rescore_left:
  "vec0_parse_rescore_options nicmp junk cfg s = Inr (cfg', s') \<Longrightarrow> length s' \<le> length s"
  unfolding vec0_parse_rescore_options_def
  by (drule rescore_loop_rule [where Inv = "\<lambda>_ _. True"]) auto

lemma distance_metric_left:
  assumes "distance_metric_option nicmp et opts s1 t1 = Inr (opts', s', t')"
  shows "length s' \<le> length s1 \<and> (token_type t1 \<noteq> TOKEN_TYPE_EQ \<longrightarrow> length s' < length s1)"
proof -
  obtain rc2 s2 t2 where n2: "vec0_scanner_next s1 t1 = (rc2, s2, t2)" by (metis prod_cases3)
  obtain rc3 s3 t3 where n3: "vec0_scanner_next s2 t2 = (rc3, s3, t3)" by (metis prod_cases3)
  note le = n2 [THEN sc.left_le] n3 [THEN sc.left_le]
  have "rc2 = VEC0_TOKEN_RESULT_SOME \<Longrightarrow> length s2 < length s1" using n2 sc.some_progress by metis
  moreover have "rc2 \<noteq> VEC0_TOKEN_RESULT_SOME \<Longrightarrow> t2 = t1" using n2 sc.other_keeps by metis
  moreover note run = assms [unfolded distance_metric_option_def Let_def, simplified n2 n3 prod.case]
  ultimately show ?thesis
    using le by (cases "rc2 = VEC0_TOKEN_RESULT_SOME") (auto split: if_splits)
qed

lemma indexed_by_left:
  assumes "indexed_by_option nicmp junk et dims opts s1 t1 = Inr (opts', s', t')"
  shows "length s' < length s1"
proof -
  obtain rc2 s2 t2 where n2: "vec0_scanner_next s1 t1 = (rc2, s2, t2)" by (metis prod_cases3)
  obtain rc3 s3 t3 where n3: "vec0_scanner_next s2 t2 = (rc3, s3, t3)" by (metis prod_cases3)
  obtain rc4 s4 t4 where n4: "vec0_scanner_next s3 t3 = (rc4, s4, t4)" by (metis prod_cases3)
  obtain rc5 s5 t5 where n5: "vec0_scanner_next s4 t4 = (rc5, s5, t5)" by (metis prod_cases3)
  note le = n2 [THEN sc.left_le] n3 [THEN sc.left_le] n4 [THEN sc.left_le] n5 [THEN sc.left_le]
  have lt: "rc2 = VEC0_TOKEN_RESULT_SOME \<Longrightarrow> length s2 < length s1" using n2 sc.some_progress by metis
  show ?thesis
    using assms le lt
    by (auto simp: indexed_by_option_def Let_def n2 n3 n4 n5 split: if_splits sum.splits
        dest!: parse_rescore_left parse_diskann_left)
qed

function vector_options_loop ::
  "(string \<Rightarrow> string \<Rightarrow> nat \<Rightarrow> bool) \<Rightarrow> Vec0Token \<Rightarrow> VectorElementType \<Rightarrow> nat \<Rightarrow> string \<Rightarrow> Vec0Token \<Rightarrow>
   column_options \<Rightarrow> column_options result"
where
  "vector_options_loop nicmp junk elementType dimensions s0 t0 opts =
    (let (rc, s1, t1) = vec0_scanner_next s0 t0
     in if rc = VEC0_TOKEN_RESULT_EOF then Inr opts
     else if rc \<noteq> VEC0_TOKEN_RESULT_SOME \<and> token_type t1 \<noteq> TOKEN_TYPE_IDENTIFIER then Inl SQLITE_ERROR
     else if keyword nicmp t1 ''distance_metric'' then
       (case distance_metric_option nicmp elementType opts s1 t1 of
          Inl e \<Rightarrow> Inl e
        | Inr (opts', s2, t2) \<Rightarrow> vector_options_loop nicmp junk elementType dimensions s2 t2 opts')
     else if keyword nicmp t1 ''indexed'' then
       (case indexed_by_option nicmp junk elementType dimensions opts s1 t1 of
          Inl e \<Rightarrow> Inl e
        | Inr (opts', s2, t2) \<Rightarrow> vector_options_loop nicmp junk elementType dimensions s2 t2 opts')
     else Inl SQLITE_ERROR)"
  by pat_completeness auto
termination
proof (relation "measure (\<lambda>(nicmp, junk, et, dims, s, t, opts). length s)", goal_cases)
  case 1
  show ?case by simp
next
  case (2 nicmp junk et dims s0 t0 opts x rc y s1 t1 b opts' z s2 t2)
  then have n: "vec0_scanner_next s0 t0 = (rc, s1, t1)"
    and d: "distance_metric_option nicmp et opts s1 t1 = Inr (opts', s2, t2)" by simp_all
  have "rc = VEC0_TOKEN_RESULT_SOME \<or> token_type t1 \<noteq> TOKEN_TYPE_EQ" using 2 by auto
  with distance_metric_left [OF d] n sc.left_le [OF n] sc.some_progress [of s0 t0 s1 t1]
  show ?case by auto
next
  case (3 nicmp junk et dims s0 t0 opts x rc y s1 t1 b opts' z s2 t2)
  then have n: "vec0_scanner_next s0 t0 = (rc, s1, t1)"
    and d: "indexed_by_option nicmp junk et dims opts s1 t1 = Inr (opts', s2, t2)" by simp_all
  with indexed_by_left [OF d] sc.left_le [OF n] show ?case by auto
qed

declare vector_options_loop.simps [simp del]

text \<open>The element type; the comparison looks at a fixed number of bytes of the source.\<close>

definition vector_column_type :: "(string \<Rightarrow> string \<Rightarrow> nat \<Rightarrow> bool) \<Rightarrow> Vec0Token \<Rightarrow> VectorElementType option" where
  "vector_column_type nicmp tk =
     (if nicmp (tok_start tk) ''float'' 5 \<or> nicmp (tok_start tk) ''f32'' 3
      then Some SQLITE_VEC_ELEMENT_TYPE_FLOAT32
      else if nicmp (tok_start tk) ''int8'' 4 \<or> nicmp (tok_start tk) ''i8'' 2
      then Some SQLITE_VEC_ELEMENT_TYPE_INT8
      else if nicmp (tok_start tk) ''bit'' 3 then Some SQLITE_VEC_ELEMENT_TYPE_BIT
      else None)"

text \<open>
  \<open>junk\<close> is the uninitialised token of this parser and of the option parsers it calls;
  \<open>mem\<close> says whether copying the name succeeds.
\<close>

definition vec0_parse_vector_column ::
  "(string \<Rightarrow> string \<Rightarrow> nat \<Rightarrow> bool) \<Rightarrow> bool \<Rightarrow> Vec0Token \<Rightarrow> string \<Rightarrow> VectorColumnDefinition result"
where
  "vec0_parse_vector_column nicmp mem junk source =
    (let s0 = vec0_scanner_init source;
         (rc, s1, t1) = vec0_scanner_next s0 junk
     in if rc \<noteq> VEC0_TOKEN_RESULT_SOME \<and> token_type t1 \<noteq> TOKEN_TYPE_IDENTIFIER then Inl SQLITE_EMPTY
     else let (rc, s2, t2) = vec0_scanner_next s1 t1
     in if rc \<noteq> VEC0_TOKEN_RESULT_SOME \<or> token_type t2 \<noteq> TOKEN_TYPE_IDENTIFIER then Inl SQLITE_EMPTY
     else case vector_column_type nicmp t2 of None \<Rightarrow> Inl SQLITE_EMPTY
     | Some elementType \<Rightarrow>
         let (rc, s3, t3) = vec0_scanner_next s2 t2
     in if rc \<noteq> VEC0_TOKEN_RESULT_SOME \<and> token_type t3 \<noteq> TOKEN_TYPE_LBRACKET then Inl SQLITE_EMPTY
     else let (rc, s4, t4) = vec0_scanner_next s3 t3
     in if rc \<noteq> VEC0_TOKEN_RESULT_SOME \<and> token_type t4 \<noteq> TOKEN_TYPE_DIGIT then Inl SQLITE_ERROR
     else let dimensions = atoi (tok_start t4)
     in if dimensions \<le> 0 then Inl SQLITE_ERROR
     else let (rc, s5, t5) = vec0_scanner_next s4 t4
     in if rc \<noteq> VEC0_TOKEN_RESULT_SOME \<and> token_type t5 \<noteq> TOKEN_TYPE_RBRACKET then Inl SQLITE_ERROR
     else case vector_options_loop nicmp junk elementType (nat dimensions) s5 t5 default_options of
       Inl e \<Rightarrow> Inl e
     | Inr opts \<Rightarrow>
         if \<not> mem then Inl SQLITE_ERROR
         else Inr \<lparr>vc_name = tok_text t1, vc_dimensions = nat dimensions,
                   vc_element_type = elementType, vc_distance_metric = co_metric opts,
                   vc_index_type = co_index opts, vc_rescore = co_rescore opts,
                   vc_diskann = co_diskann opts\<rparr>)"

end
