(* ===== verification/Decimal.thy ===== *)
theory Decimal
  imports Scanner
begin

text \<open>
  The decimal text of a number and how \<open>atoi\<close> reads it back.
\<close>

definition stops :: "(char \<Rightarrow> bool) \<Rightarrow> string \<Rightarrow> bool" where
  "stops P s \<longleftrightarrow> s = [] \<or> \<not> P (hd s)"

lemma takeWhile_stops: "\<forall>c \<in> set w. P c \<Longrightarrow> stops P r \<Longrightarrow> takeWhile P (w @ r) = w"
  by (cases r) (auto simp: stops_def takeWhile_append2)

fun decimal :: "nat \<Rightarrow> string" where
  "decimal n = (if n < 10 then [char_of (48 + n)] else decimal (n div 10) @ [char_of (48 + n mod 10)])"

declare decimal.simps [simp del]

lemma decimal_digits: "\<forall>c \<in> set (decimal n). is_digit c"
proof (induction n rule: decimal.induct)
  case (1 n)
  then show ?case
    by (subst decimal.simps) (auto simp: is_digit_def)
qed

lemma decimal_not_Nil: "decimal n \<noteq> []"
  by (subst decimal.simps) simp

lemma decimal_value: "digits_value (decimal n) = int n"
proof (induction n rule: decimal.induct)
  case (1 n)
  show ?case
  proof (cases "n < 10")
    case True
    then show ?thesis by (subst decimal.simps) (simp add: digits_value_def)
  next
    case False
    then have "digits_value (decimal (n div 10)) = int (n div 10)" using 1 by simp
    moreover have "digits_value (ds @ [c]) = 10 * digits_value ds + (int (of_char c) - 48)" for ds c
      by (simp add: digits_value_def)
    moreover have "10 * int (n div 10) + int (n mod 10) = int n" by presburger
    ultimately show ?thesis using False by (subst decimal.simps) simp
  qed
qed

lemma digit_not_sign: "is_digit c \<Longrightarrow> \<not> isspace c \<and> c \<noteq> CHR ''-'' \<and> c \<noteq> CHR ''+''"
  by (auto simp: is_digit_def isspace_def)

lemma atoi_decimal:
  assumes "n < 2 ^ 31" and "stops is_digit r"
  shows "atoi (decimal n @ r) = int n"
proof -
  obtain c ds where d: "decimal n = c # ds" using decimal_not_Nil by (cases "decimal n") auto
  then have c: "is_digit c" using decimal_digits [of n] by simp
  have "takeWhile is_digit (decimal n @ r) = decimal n"
    using decimal_digits assms(2) by (rule takeWhile_stops)
  then have "strtol_value (decimal n @ r) = int n"
    using digit_not_sign [OF c] by (simp add: strtol_value_def d Let_def decimal_value [of n, unfolded d])
  then show ?thesis using assms(1) by (simp add: atoi_def long_sat_def int32_of_def)
qed

lemma atoi_decimal_int:
  "0 \<le> i \<Longrightarrow> i < 2 ^ 31 \<Longrightarrow> stops is_digit r \<Longrightarrow> atoi (decimal (nat i) @ r) = i"
  using atoi_decimal [of "nat i" r] by simp

end
