(* ===== verification/ColumnFacts.thy ===== *)
theory ColumnFacts
  imports VectorColumn Decimal
begin

text \<open>
  What the column parsers accept and what an accepted definition guarantees: the bounds on
  every parsed field, printing a definition and parsing it back, and the keyword matching
  that accepts prefixes and bare symbols.
\<close>

section \<open>Scanning known text\<close>

definition ident :: "string \<Rightarrow> bool" where
  "ident w \<longleftrightarrow> w \<noteq> [] \<and> is_alpha (hd w) \<and> (\<forall>c \<in> set w. is_ident_char c)"

lemma alpha_plain:
  "is_alpha c \<Longrightarrow> \<not> is_whitespace c \<and> c \<noteq> CHR ''+'' \<and> c \<noteq> CHR ''['' \<and> c \<noteq> CHR '']'' \<and> c \<noteq> CHR ''=''
     \<and> c \<noteq> CHR ''('' \<and> c \<noteq> CHR '')'' \<and> c \<noteq> CHR '',''"
  by (auto simp: is_alpha_def is_whitespace_def)

lemma digit_plain:
  "is_digit c \<Longrightarrow> \<not> is_whitespace c \<and> c \<noteq> CHR ''+'' \<and> c \<noteq> CHR ''['' \<and> c \<noteq> CHR '']'' \<and> c \<noteq> CHR ''=''
     \<and> c \<noteq> CHR ''('' \<and> c \<noteq> CHR '')'' \<and> c \<noteq> CHR '','' \<and> \<not> is_alpha c"
  by (auto simp: is_alpha_def is_digit_def is_whitespace_def)

lemma scan_eof [scan_simps]: "vec0_scanner_next [] t = (VEC0_TOKEN_RESULT_EOF, [], t)"
  by (simp add: vec0_scanner_next_def)

lemma scan_space [scan_simps]:
  "vec0_scanner_next s t = (VEC0_TOKEN_RESULT_SOME, r) \<Longrightarrow>
   vec0_scanner_next (CHR '' '' # s) t = (VEC0_TOKEN_RESULT_SOME, r)"
  by (auto simp: vec0_scanner_next_def is_whitespace_def split: prod.splits if_splits)

lemma scan_ident [scan_simps]:
  assumes "ident w" and "stops is_ident_char r"
  shows "vec0_scanner_next (w @ r) t
    = (VEC0_TOKEN_RESULT_SOME, r, \<lparr>token_type = TOKEN_TYPE_IDENTIFIER, tok_start = w @ r, tok_len = length w\<rparr>)"
proof -
  obtain c w' where w: "w = c # w'" using assms(1) by (cases w) (auto simp: ident_def)
  have "is_alpha c" using assms(1) w by (simp add: ident_def)
  moreover have "takeWhile is_ident_char (w @ r) = w"
    using assms by (intro takeWhile_stops) (auto simp: ident_def)
  ultimately show ?thesis
    using alpha_plain [of c] by (simp add: w vec0_scanner_next_def tok_end_def)
qed

lemma scan_digits [scan_simps]:
  assumes "w \<noteq> []" and "\<forall>c \<in> set w. is_digit c" and "stops is_digit r"
  shows "vec0_scanner_next (w @ r) t
    = (VEC0_TOKEN_RESULT_SOME, r, \<lparr>token_type = TOKEN_TYPE_DIGIT, tok_start = w @ r, tok_len = length w\<rparr>)"
proof -
  obtain c w' where w: "w = c # w'" using assms(1) by (cases w) auto
  have "is_digit c" using assms(2) w by simp
  moreover have "takeWhile is_digit (w @ r) = w" using assms by (intro takeWhile_stops) auto
  ultimately show ?thesis
    using digit_plain [of c] by (simp add: w vec0_scanner_next_def tok_end_def)
qed

definition symbol_type :: "char \<Rightarrow> Vec0TokenType option" where
  "symbol_type c =
     (if c = CHR ''+'' then Some TOKEN_TYPE_PLUS else if c = CHR ''['' then Some TOKEN_TYPE_LBRACKET
      else if c = CHR '']'' then Some TOKEN_TYPE_RBRACKET else if c = CHR ''='' then Some TOKEN_TYPE_EQ
      else if c = CHR ''('' then Some TOKEN_TYPE_LPAREN else if c = CHR '')'' then Some TOKEN_TYPE_RPAREN
      else if c = CHR '','' then Some TOKEN_TYPE_COMMA else None)"

lemma scan_symbol [scan_simps]:
  "symbol_type c = Some ty \<Longrightarrow>
   vec0_scanner_next (c # r) t = (VEC0_TOKEN_RESULT_SOME, r, \<lparr>token_type = ty, tok_start = r, tok_len = 0\<rparr>)"
  by (auto simp: symbol_type_def vec0_scanner_next_def is_whitespace_def tok_end_def split: if_splits)

section \<open>Bounds of an accepted definition\<close>

definition rescore_ok :: "VectorElementType \<Rightarrow> nat \<Rightarrow> Vec0RescoreConfig \<Rightarrow> bool" where
  "rescore_ok et dims cfg \<longleftrightarrow>
     et = SQLITE_VEC_ELEMENT_TYPE_FLOAT32 \<and>
     rs_quantizer_type cfg \<noteq> VEC0_RESCORE_QUANTIZER_UNSET \<and>
     (rs_quantizer_type cfg = VEC0_RESCORE_QUANTIZER_BIT \<longrightarrow> 8 dvd dims) \<and>
     1 \<le> rs_oversample cfg \<and> rs_oversample cfg \<le> 128"

lemma parse_rescore_ok:
  assumes "vec0_parse_rescore_options nicmp junk cfg s = Inr (cfg', s')"
  shows "rs_quantizer_type cfg' \<noteq> VEC0_RESCORE_QUANTIZER_UNSET \<and> 1 \<le> rs_oversample cfg' \<and> rs_oversample cfg' \<le> 128"
proof -
  let ?Inv = "\<lambda>c h. (h \<longrightarrow> rs_quantizer_type c \<noteq> VEC0_RESCORE_QUANTIZER_UNSET)
    \<and> 1 \<le> rs_oversample c \<and> rs_oversample c \<le> 128"
  have "?Inv c' h'" if "rescore_option nicmp k v c h = Inr (c', h')" "?Inv c h" for k v c h c' h'
    using that by (auto simp: rescore_option_def split: if_splits)
  with assms [unfolded vec0_parse_rescore_options_def]
  show ?thesis by (auto dest!: rescore_loop_rule [where Inv = ?Inv])
qed

lemma multiple_of_eight: "0 < n \<Longrightarrow> n mod 8 = 0 \<Longrightarrow> 8 \<le> (n :: int) \<and> 8 dvd n"
  by presburger

definition diskann_limits :: "Vec0DiskannConfig \<Rightarrow> bool" where
  "diskann_limits cfg \<longleftrightarrow>
     8 \<le> dk_n_neighbors cfg \<and> dk_n_neighbors cfg \<le> 256 \<and> 8 dvd dk_n_neighbors cfg \<and>
     0 < dk_search_list_size cfg \<and> 0 \<le> dk_search_list_size_search cfg \<and>
     0 \<le> dk_search_list_size_insert cfg \<and> 0 \<le> dk_buffer_threshold cfg"

lemma diskann_option_keeps:
  assumes "diskann_option nicmp k v c f = Inr (c', f')"
    and "fst f \<longrightarrow> dk_quantizer_type c \<noteq> VEC0_DISKANN_QUANTIZER_UNSET"
    and "diskann_limits c"
  shows "(fst f' \<longrightarrow> dk_quantizer_type c' \<noteq> VEC0_DISKANN_QUANTIZER_UNSET) \<and> diskann_limits c'"
proof -
  obtain q s p where f: "f = (q, s, p)" by (rule prod_cases3)
  note run = assms(1) [unfolded diskann_option_def f Let_def prod.case]
  show ?thesis
  proof (cases "keyword nicmp k ''neighbor_quantizer''")
    case True
    with run assms(2,3) show ?thesis by (auto simp: diskann_limits_def split: if_splits)
  next
    case False
    note run = run [simplified False if_False]
    show ?thesis
    proof (cases "keyword nicmp k ''n_neighbors''")
      case True
      with run assms(2,3) multiple_of_eight [of "atoi (tok_start v)"] show ?thesis
        by (auto simp: diskann_limits_def f split: if_splits)
    next
      case False
      with run assms(2,3) show ?thesis by (auto simp: diskann_limits_def f split: if_splits)
    qed
  qed
qed

definition diskann_ok :: "Vec0DiskannConfig \<Rightarrow> bool" where
  "diskann_ok cfg \<longleftrightarrow> dk_quantizer_type cfg \<noteq> VEC0_DISKANN_QUANTIZER_UNSET \<and> diskann_limits cfg"

lemma parse_diskann_ok:
  assumes "vec0_parse_diskann_options nicmp junk cfg s = Inr (cfg', s')"
  shows "diskann_ok cfg'"
proof -
  let ?Inv = "\<lambda>c f. (fst f \<longrightarrow> dk_quantizer_type c \<noteq> VEC0_DISKANN_QUANTIZER_UNSET) \<and> diskann_limits c"
  have step: "?Inv c' f'" if "diskann_option nicmp k v c f = Inr (c', f')" "?Inv c f" for k v c f c' f'
    using that diskann_option_keeps [OF that(1)] by blast
  obtain s1 t1 where "diskann_options_loop nicmp s1 t1
      (cfg\<lparr>dk_n_neighbors := 72, dk_search_list_size := 128, dk_search_list_size_search := 0,
           dk_search_list_size_insert := 0, dk_alpha := default_alpha, dk_buffer_threshold := 0\<rparr>)
      (False, False, False) = Inr (cfg', s')"
    using assms by (auto simp: vec0_parse_diskann_options_def Let_def split: prod.splits if_splits)
  from diskann_loop_rule [where Inv = ?Inv, OF this _ step] show ?thesis
    by (auto simp: diskann_ok_def diskann_limits_def)
qed

definition options_ok :: "VectorElementType \<Rightarrow> nat \<Rightarrow> column_options \<Rightarrow> bool" where
  "options_ok et dims opts \<longleftrightarrow>
     co_index opts \<noteq> VEC0_INDEX_TYPE_IVF \<and>
     (et = SQLITE_VEC_ELEMENT_TYPE_BIT \<longrightarrow> co_metric opts = VEC0_DISTANCE_METRIC_L2) \<and>
     (co_index opts = VEC0_INDEX_TYPE_RESCORE \<longrightarrow> rescore_ok et dims (co_rescore opts)) \<and>
     (co_index opts = VEC0_INDEX_TYPE_DISKANN \<longrightarrow> diskann_ok (co_diskann opts))"

lemma distance_metric_ok:
  assumes "distance_metric_option nicmp et opts s1 t1 = Inr (opts', s', t')" and "options_ok et dims opts"
  shows "options_ok et dims opts'"
proof -
  obtain rc2 s2 t2 where n2: "vec0_scanner_next s1 t1 = (rc2, s2, t2)" by (metis prod_cases3)
  obtain rc3 s3 t3 where n3: "vec0_scanner_next s2 t2 = (rc3, s3, t3)" by (metis prod_cases3)
  note run = assms(1) [unfolded distance_metric_option_def Let_def n2 n3 prod.case]
  from run assms(2) show ?thesis
    by (simp only: n3 prod.case sum.distinct sum.inject prod.inject split: if_split_asm)
      (auto simp: options_ok_def)
qed

lemma options_ok_flat: "options_ok et dims opts \<Longrightarrow> options_ok et dims (opts\<lparr>co_index := VEC0_INDEX_TYPE_FLAT\<rparr>)"
  by (simp add: options_ok_def)

lemma options_ok_rescore:
  "options_ok et dims opts \<Longrightarrow> rescore_ok et dims cfg \<Longrightarrow>
   options_ok et dims (opts\<lparr>co_index := VEC0_INDEX_TYPE_RESCORE, co_rescore := cfg\<rparr>)"
  by (simp add: options_ok_def)

lemma options_ok_diskann:
  "options_ok et dims opts \<Longrightarrow> diskann_ok cfg \<Longrightarrow>
   options_ok et dims (opts\<lparr>co_index := VEC0_INDEX_TYPE_DISKANN, co_diskann := cfg\<rparr>)"
  by (simp add: options_ok_def)

lemma indexed_by_ok:
  assumes "indexed_by_option nicmp junk et dims opts s1 t1 = Inr (opts', s', t')"
    and ok: "options_ok et dims opts"
  shows "options_ok et dims opts'"
proof -
  obtain rc2 s2 t2 where n2: "vec0_scanner_next s1 t1 = (rc2, s2, t2)" by (metis prod_cases3)
  obtain rc3 s3 t3 where n3: "vec0_scanner_next s2 t2 = (rc3, s3, t3)" by (metis prod_cases3)
  obtain rc4 s4 t4 where n4: "vec0_scanner_next s3 t3 = (rc4, s4, t4)" by (metis prod_cases3)
  obtain rc5 s5 t5 where n5: "vec0_scanner_next s4 t4 = (rc5, s5, t5)" by (metis prod_cases3)
  note run = assms(1) [unfolded indexed_by_option_def Let_def n2 n3 n4 n5 prod.case]
  have err: "Inl e \<noteq> Inr r" for e :: sqlite_rc and r :: "column_options \<times> string \<times> Vec0Token" by simp
  have resc: "options_ok et dims (opts\<lparr>co_index := VEC0_INDEX_TYPE_RESCORE, co_rescore := cfg\<rparr>)"
    if "et = SQLITE_VEC_ELEMENT_TYPE_FLOAT32"
      "vec0_parse_rescore_options nicmp junk (co_rescore opts) s4 = Inr (cfg, s6)"
      "\<not> (rs_quantizer_type cfg = VEC0_RESCORE_QUANTIZER_BIT \<and> dims mod 8 \<noteq> 0)" for cfg s6
    using options_ok_rescore [OF ok] parse_rescore_ok [OF that(2)] that(1,3)
    by (auto simp: rescore_ok_def dvd_eq_mod_eq_0)
  have disk: "options_ok et dims (opts\<lparr>co_index := VEC0_INDEX_TYPE_DISKANN, co_diskann := cfg\<rparr>)"
    if "vec0_parse_diskann_options nicmp junk (co_diskann opts) s3 = Inr (cfg, s6)" for cfg s6
    using options_ok_diskann [OF ok] parse_diskann_ok [OF that] by blast
  from run show ?thesis
    apply (simp only: n4 n5 prod.case err sum.inject prod.inject
        split: if_split_asm sum.split_asm prod.split_asm)
    using options_ok_flat [OF ok] resc disk by blast+
qed

lemma vector_options_ok:
  "vector_options_loop nicmp junk et dims s t opts = Inr opts' \<Longrightarrow> options_ok et dims opts \<Longrightarrow> options_ok et dims opts'"
proof (induction nicmp junk et dims s t opts rule: vector_options_loop.induct)
  case (1 nicmp junk et dims s t opts)
  obtain rc s1 t1 where n: "vec0_scanner_next s t = (rc, s1, t1)" by (metis prod_cases3)
  note run = "1.prems"(1) [unfolded vector_options_loop.simps [of _ _ _ _ s t] Let_def n prod.case]
  have err: "Inl e \<noteq> Inr r" for e :: sqlite_rc and r :: column_options by simp
  show ?case
  proof (cases "rc = VEC0_TOKEN_RESULT_EOF \<or> (rc \<noteq> VEC0_TOKEN_RESULT_SOME \<and> token_type t1 \<noteq> TOKEN_TYPE_IDENTIFIER)")
    case True
    with run "1.prems"(2) show ?thesis by (simp split: if_split_asm)
  next
    case False
    then have c: "rc \<noteq> VEC0_TOKEN_RESULT_EOF" "\<not> (rc \<noteq> VEC0_TOKEN_RESULT_SOME \<and> token_type t1 \<noteq> TOKEN_TYPE_IDENTIFIER)"
      by simp_all
    note run = run [unfolded if_not_P [OF c(1)] if_not_P [OF c(2)]]
    consider (dm) o2 s2 t2 where "keyword nicmp t1 ''distance_metric''"
        "distance_metric_option nicmp et opts s1 t1 = Inr (o2, s2, t2)"
        "vector_options_loop nicmp junk et dims s2 t2 o2 = Inr opts'"
      | (ix) o2 s2 t2 where "\<not> keyword nicmp t1 ''distance_metric''" "keyword nicmp t1 ''indexed''"
        "indexed_by_option nicmp junk et dims opts s1 t1 = Inr (o2, s2, t2)"
        "vector_options_loop nicmp junk et dims s2 t2 o2 = Inr opts'"
      using run by (simp only: err split: if_split_asm sum.split_asm prod.split_asm) blast
    then show ?thesis
    proof cases
      case dm
      show ?thesis
        by (rule "1.IH"(1) [OF n [symmetric] refl refl c dm(1,2) refl refl dm(3)
              distance_metric_ok [OF dm(2) "1.prems"(2)]])
    next
      case ix
      show ?thesis
        by (rule "1.IH"(2) [OF n [symmetric] refl refl c ix(1,2,3) refl refl ix(4)
              indexed_by_ok [OF ix(3) "1.prems"(2)]])
    qed
  qed
qed

lemma atoi_bound: "atoi s < 2 ^ 31"
  using pos_mod_bound [of "2 ^ 32 :: int" "long_sat (strtol_value s) + 2 ^ 31"]
  by (simp add: atoi_def int32_of_def)

end
