(* ===== verification/ColumnPrint.thy ===== *)
theory ColumnPrint
  imports ColumnFacts Decimal
begin

text \<open>
  Printing a vector column definition and parsing it back, for every kind of index, and what
  the column parsers accept.
\<close>

section \<open>Printed definitions\<close>

lemma scan_decimal [scan_simps]:
  "stops is_digit r \<Longrightarrow> vec0_scanner_next (decimal n @ r) t
    = (VEC0_TOKEN_RESULT_SOME, r, \<lparr>token_type = TOKEN_TYPE_DIGIT, tok_start = decimal n @ r, tok_len = length (decimal n)\<rparr>)"
  using decimal_not_Nil decimal_digits by (rule scan_digits)

lemma stops_append [scan_simps]: "stops P ((c # w) @ r) \<longleftrightarrow> \<not> P c"
  by (simp add: stops_def)

lemma stops_one [scan_simps]: "stops P [c] \<longleftrightarrow> \<not> P c" "stops P []"
  by (simp_all add: stops_def)

lemma scan_symbol_append [scan_simps]: "symbol_type c = Some ty \<Longrightarrow>
   vec0_scanner_next ([c] @ r) t = (VEC0_TOKEN_RESULT_SOME, r, \<lparr>token_type = ty, tok_start = r, tok_len = 0\<rparr>)"
  by (simp add: scan_symbol)

lemma scan_space_append [scan_simps]:
  "vec0_scanner_next s t = (VEC0_TOKEN_RESULT_SOME, r) \<Longrightarrow>
   vec0_scanner_next ('' '' @ s) t = (VEC0_TOKEN_RESULT_SOME, r)"
  by (simp add: scan_space)

lemma symbol_types [scan_simps]:
  "symbol_type CHR ''='' = Some TOKEN_TYPE_EQ" "symbol_type CHR '','' = Some TOKEN_TYPE_COMMA"
  "symbol_type CHR '')'' = Some TOKEN_TYPE_RPAREN" "symbol_type CHR ''('' = Some TOKEN_TYPE_LPAREN"
  "symbol_type CHR ''['' = Some TOKEN_TYPE_LBRACKET" "symbol_type CHR '']'' = Some TOKEN_TYPE_RBRACKET"
  "symbol_type CHR ''+'' = Some TOKEN_TYPE_PLUS"
  by (simp_all add: symbol_type_def)

lemmas char_class = is_ident_char_def is_alpha_def is_digit_def

lemma symbols_stop [scan_simps]:
  "\<not> is_ident_char CHR ''=''" "\<not> is_ident_char CHR '',''" "\<not> is_ident_char CHR '')''"
  "\<not> is_ident_char CHR ''(''" "\<not> is_ident_char CHR ''[''" "\<not> is_ident_char CHR '']''"
  "\<not> is_ident_char CHR '' ''" "\<not> is_digit CHR '',''" "\<not> is_digit CHR '')''" "\<not> is_digit CHR '']''"
  by (simp_all add: char_class)

lemma ident_words [scan_simps]:
  "ident ''quantizer''" "ident ''bit''" "ident ''int8''" "ident ''oversample''"
  "ident ''neighbor_quantizer''" "ident ''binary''" "ident ''n_neighbors''" "ident ''search_list_size''"
  "ident ''buffer_threshold''" "ident ''indexed''" "ident ''by''" "ident ''rescore''" "ident ''diskann''"
  "ident ''flat''" "ident ''distance_metric''" "ident ''l2''" "ident ''l1''" "ident ''cosine''"
  "ident ''float''" "ident ''text''" "ident ''integer''" "ident ''partition''" "ident ''key''"
  by (simp_all add: ident_def char_class)

fun print_element_type :: "VectorElementType \<Rightarrow> string" where
  "print_element_type SQLITE_VEC_ELEMENT_TYPE_FLOAT32 = ''float''"
| "print_element_type SQLITE_VEC_ELEMENT_TYPE_INT8 = ''int8''"
| "print_element_type SQLITE_VEC_ELEMENT_TYPE_BIT = ''bit''"

fun print_metric :: "Vec0DistanceMetrics \<Rightarrow> string" where
  "print_metric VEC0_DISTANCE_METRIC_L2 = ''l2''"
| "print_metric VEC0_DISTANCE_METRIC_L1 = ''l1''"
| "print_metric VEC0_DISTANCE_METRIC_COSINE = ''cosine''"

definition print_rescore_options :: "Vec0RescoreConfig \<Rightarrow> string" where
  "print_rescore_options c =
     ''quantizer'' @ ''='' @
     (if rs_quantizer_type c = VEC0_RESCORE_QUANTIZER_BIT then ''bit'' else ''int8'') @ '','' @
     ''oversample'' @ ''='' @ decimal (nat (rs_oversample c)) @ '')''"

definition print_diskann_options :: "Vec0DiskannConfig \<Rightarrow> string" where
  "print_diskann_options c =
     ''neighbor_quantizer'' @ ''='' @
     (if dk_quantizer_type c = VEC0_DISKANN_QUANTIZER_BINARY then ''binary'' else ''int8'') @ '','' @
     ''n_neighbors'' @ ''='' @ decimal (nat (dk_n_neighbors c)) @ '','' @
     ''search_list_size'' @ ''='' @ decimal (nat (dk_search_list_size c)) @ '','' @
     ''buffer_threshold'' @ ''='' @ decimal (nat (dk_buffer_threshold c)) @ '')''"

definition print_index :: "VectorColumnDefinition \<Rightarrow> string" where
  "print_index c = '' '' @ ''indexed'' @ '' '' @ ''by'' @ '' '' @ (case vc_index_type c of
     VEC0_INDEX_TYPE_RESCORE \<Rightarrow> ''rescore'' @ ''('' @ print_rescore_options (vc_rescore c)
   | VEC0_INDEX_TYPE_DISKANN \<Rightarrow> ''diskann'' @ ''('' @ print_diskann_options (vc_diskann c)
   | _ \<Rightarrow> ''flat'' @ ''('' @ '')'')"

definition print_vector_column :: "VectorColumnDefinition \<Rightarrow> string" where
  "print_vector_column c =
     vc_name c @ '' '' @ print_element_type (vc_element_type c) @ ''['' @ decimal (vc_dimensions c) @ '']'' @
     (if vc_element_type c = SQLITE_VEC_ELEMENT_TYPE_BIT then []
      else '' '' @ ''distance_metric'' @ ''='' @ print_metric (vc_distance_metric c)) @
     print_index c"

definition index_printable :: "VectorColumnDefinition \<Rightarrow> bool" where
  "index_printable c \<longleftrightarrow> (case vc_index_type c of
     VEC0_INDEX_TYPE_FLAT \<Rightarrow> vc_rescore c = zero_rescore \<and> vc_diskann c = zero_diskann
   | VEC0_INDEX_TYPE_RESCORE \<Rightarrow>
       rescore_ok (vc_element_type c) (vc_dimensions c) (vc_rescore c) \<and>
       rs_oversample_search (vc_rescore c) = 0 \<and> vc_diskann c = zero_diskann
   | VEC0_INDEX_TYPE_DISKANN \<Rightarrow>
       diskann_ok (vc_diskann c) \<and> dk_search_list_size (vc_diskann c) < 2 ^ 31 \<and>
       dk_buffer_threshold (vc_diskann c) < 2 ^ 31 \<and> dk_search_list_size_search (vc_diskann c) = 0 \<and>
       dk_search_list_size_insert (vc_diskann c) = 0 \<and> dk_alpha (vc_diskann c) = default_alpha \<and>
       vc_rescore c = zero_rescore
   | VEC0_INDEX_TYPE_IVF \<Rightarrow> False)"

context strnicmp_api begin

lemma nicmp_text: "n = length w \<Longrightarrow> nicmp (w @ r) v n \<longleftrightarrow> map ascii_lower w = map ascii_lower (take n v)"
  by (simp add: nicmp_iff)

lemma rescore_printed:
  assumes "0 < rs_oversample c" "rs_oversample c \<le> 128"
    and q: "rs_quantizer_type c \<noteq> VEC0_RESCORE_QUANTIZER_UNSET"
  shows "vec0_parse_rescore_options nicmp tk cfg (print_rescore_options c @ r)
   = Inr (cfg\<lparr>rs_oversample := rs_oversample c, rs_quantizer_type := rs_quantizer_type c\<rparr>, r)"
  using assms unfolding vec0_parse_rescore_options_def print_rescore_options_def
  by (subst rescore_options_loop.simps, subst rescore_options_loop.simps, cases "rs_quantizer_type c")
    (simp_all add: scan_simps rescore_option_def nicmp_text atoi_decimal_int rescore_done_def ascii_lower_def
      del: append_Cons append.simps)

lemma diskann_pair:
  assumes "ident k" and "vec0_scanner_next (v @ [sep] @ r) \<lparr>token_type = TOKEN_TYPE_EQ, tok_start = v @ [sep] @ r, tok_len = 0\<rparr>
      = (VEC0_TOKEN_RESULT_SOME, [sep] @ r, tv)"
    and "diskann_option nicmp \<lparr>token_type = TOKEN_TYPE_IDENTIFIER, tok_start = k @ ''='' @ v @ [sep] @ r, tok_len = length k\<rparr> tv cfg fl
      = Inr (cfg', fl')"
    and "sep = CHR '')'' \<or> sep = CHR '',''"
  shows "diskann_options_loop nicmp (k @ ''='' @ v @ [sep] @ r) t cfg fl
     = (if sep = CHR '')'' then diskann_done cfg' fl' r
        else diskann_options_loop nicmp r \<lparr>token_type = TOKEN_TYPE_COMMA, tok_start = r, tok_len = 0\<rparr> cfg' fl')"
  using assms by (subst diskann_options_loop.simps) (auto simp: scan_simps simp del: append_Cons append.simps)

lemma diskann_printed:
  assumes "diskann_ok c" and "dk_search_list_size c < 2 ^ 31" and "dk_buffer_threshold c < 2 ^ 31"
  shows "vec0_parse_diskann_options nicmp tk cfg (''('' @ print_diskann_options c @ r)
   = Inr (cfg\<lparr>dk_quantizer_type := dk_quantizer_type c, dk_n_neighbors := dk_n_neighbors c,
       dk_search_list_size := dk_search_list_size c, dk_search_list_size_search := 0,
       dk_search_list_size_insert := 0, dk_alpha := default_alpha, dk_buffer_threshold := dk_buffer_threshold c\<rparr>, r)"
  using assms unfolding vec0_parse_diskann_options_def print_diskann_options_def diskann_ok_def diskann_limits_def dvd_eq_mod_eq_0
  by (cases "dk_quantizer_type c")
   (simp_all add: scan_simps diskann_pair diskann_option_def nicmp_text ascii_lower_def atoi_decimal_int diskann_done_def
      del: append_Cons append.simps)

lemma index_printed:
  assumes "index_printable c"
  shows "\<exists>tk'. indexed_by_option nicmp junk (vc_element_type c) (vc_dimensions c)
     (default_options\<lparr>co_metric := m\<rparr>) ('' '' @ ''by'' @ '' '' @ (case vc_index_type c of
     VEC0_INDEX_TYPE_RESCORE \<Rightarrow> ''rescore'' @ ''('' @ print_rescore_options (vc_rescore c)
   | VEC0_INDEX_TYPE_DISKANN \<Rightarrow> ''diskann'' @ ''('' @ print_diskann_options (vc_diskann c)
   | _ \<Rightarrow> ''flat'' @ ''('' @ '')'')) tk
   = Inr (\<lparr>co_metric = m, co_index = vc_index_type c, co_rescore = vc_rescore c, co_diskann = vc_diskann c\<rparr>, [], tk')"
proof (cases "vc_index_type c")
  case VEC0_INDEX_TYPE_FLAT
  with assms show ?thesis
    by (simp add: indexed_by_option_def index_printable_def scan_simps nicmp_text ascii_lower_def default_options_def
       scan_symbol_append [of _ _ "[]", simplified] del: append_Cons append.simps)
next
  case VEC0_INDEX_TYPE_RESCORE
  with assms show ?thesis
    using rescore_printed [of "vc_rescore c" _ _ "[]"] 
    by (simp add: indexed_by_option_def index_printable_def scan_simps nicmp_text ascii_lower_def default_options_def
       rescore_ok_def dvd_eq_mod_eq_0 zero_rescore_def del: append_Cons append.simps)
next
  case VEC0_INDEX_TYPE_DISKANN
  with assms show ?thesis
    using diskann_printed [of "vc_diskann c" _ _ "[]"] 
    by (simp add: indexed_by_option_def index_printable_def scan_simps nicmp_text ascii_lower_def default_options_def
       zero_diskann_def del: append_Cons append.simps)
next
  case VEC0_INDEX_TYPE_IVF
  with assms show ?thesis by (simp add: index_printable_def)
qed

lemma vector_type_printed:
  "vector_column_type nicmp \<lparr>token_type = ty, tok_start = print_element_type et @ r, tok_len = n\<rparr> = Some et"
  by (cases et) (simp_all add: vector_column_type_def nicmp_iff ascii_lower_def)

lemma metric_printed:
  "et \<noteq> SQLITE_VEC_ELEMENT_TYPE_BIT \<Longrightarrow> stops is_ident_char r \<Longrightarrow>
   \<exists>tk'. distance_metric_option nicmp et opts (''='' @ print_metric m @ r) tk = Inr (opts\<lparr>co_metric := m\<rparr>, r, tk')"
  by (cases m) (simp_all add: distance_metric_option_def scan_simps nicmp_text ascii_lower_def del: append_Cons append.simps)

lemma options_index_printed:
  assumes "index_printable c"
  shows "vector_options_loop nicmp junk (vc_element_type c) (vc_dimensions c) (print_index c) tk
     (default_options\<lparr>co_metric := m\<rparr>)
   = Inr \<lparr>co_metric = m, co_index = vc_index_type c, co_rescore = vc_rescore c, co_diskann = vc_diskann c\<rparr>"
proof -
  define rest where "rest = '' '' @ ''by'' @ '' '' @ (case vc_index_type c of
     VEC0_INDEX_TYPE_RESCORE \<Rightarrow> ''rescore'' @ ''('' @ print_rescore_options (vc_rescore c)
   | VEC0_INDEX_TYPE_DISKANN \<Rightarrow> ''diskann'' @ ''('' @ print_diskann_options (vc_diskann c)
   | _ \<Rightarrow> ''flat'' @ ''('' @ '')'')"
  have p: "print_index c = '' '' @ ''indexed'' @ rest" by (simp add: print_index_def rest_def)
  have st: "stops is_ident_char rest" by (simp add: rest_def stops_def symbols_stop)
  let ?tk = "\<lparr>token_type = TOKEN_TYPE_IDENTIFIER, tok_start = ''indexed'' @ rest, tok_len = length ''indexed''\<rparr>"
  obtain tk' where o: "indexed_by_option nicmp junk (vc_element_type c) (vc_dimensions c)
     (default_options\<lparr>co_metric := m\<rparr>) rest ?tk
   = Inr (\<lparr>co_metric = m, co_index = vc_index_type c, co_rescore = vc_rescore c, co_diskann = vc_diskann c\<rparr>, [], tk')"
    using index_printed [OF assms, of junk m ?tk] unfolding rest_def by blast
  have sc: "vec0_scanner_next (print_index c) tk = (VEC0_TOKEN_RESULT_SOME, rest, ?tk)"
    unfolding p by (intro scan_space_append scan_ident ident_words st)
  have k: "\<not> keyword nicmp ?tk ''distance_metric''" "keyword nicmp ?tk ''indexed''"
    by (simp_all add: nicmp_text ascii_lower_def del: append_Cons append.simps)
  show ?thesis
    by (subst vector_options_loop.simps) (simp only: sc Let_def prod.case k o scan_rc.distinct
       vector_options_loop.simps [of _ _ _ _ "[]"] sum.case scan_eof, simp)
qed

lemma vector_column_printed:
  assumes "ident (vc_name c)" and "0 < vc_dimensions c" and "vc_dimensions c < 2 ^ 31"
    and bit: "vc_element_type c = SQLITE_VEC_ELEMENT_TYPE_BIT \<Longrightarrow> vc_distance_metric c = VEC0_DISTANCE_METRIC_L2"
    and ix: "index_printable c"
  shows "vec0_parse_vector_column nicmp True junk (print_vector_column c) = Inr c"
proof -
  define opts where "opts = (if vc_element_type c = SQLITE_VEC_ELEMENT_TYPE_BIT then []
      else '' '' @ ''distance_metric'' @ ''='' @ print_metric (vc_distance_metric c)) @ print_index c"
  have et: "ident (print_element_type (vc_element_type c))" by (cases "vc_element_type c") (simp_all add: ident_words)
  have loop: "vector_options_loop nicmp junk (vc_element_type c) (vc_dimensions c) opts tk default_options
    = Inr \<lparr>co_metric = vc_distance_metric c, co_index = vc_index_type c, co_rescore = vc_rescore c, co_diskann = vc_diskann c\<rparr>" for tk
  proof (cases "vc_element_type c = SQLITE_VEC_ELEMENT_TYPE_BIT")
    case True
    then show ?thesis
      using options_index_printed [OF ix, of junk tk VEC0_DISTANCE_METRIC_L2] bit
      by (simp add: opts_def default_options_def)
  next
    case False
    have st: "stops is_ident_char (print_index c)" by (simp add: print_index_def stops_def symbols_stop)
    let ?rest = "''='' @ print_metric (vc_distance_metric c) @ print_index c"
    let ?tk = "\<lparr>token_type = TOKEN_TYPE_IDENTIFIER, tok_start = ''distance_metric'' @ ?rest, tok_len = length ''distance_metric''\<rparr>"
    obtain tk' where d: "distance_metric_option nicmp (vc_element_type c) default_options ?rest ?tk
        = Inr (default_options\<lparr>co_metric := vc_distance_metric c\<rparr>, print_index c, tk')"
      using metric_printed [OF False st] by blast
    have sc: "vec0_scanner_next ('' '' @ ''distance_metric'' @ ?rest) tk = (VEC0_TOKEN_RESULT_SOME, ?rest, ?tk)"
      by (intro scan_space_append scan_ident ident_words) (simp add: stops_def symbols_stop)
    have k: "keyword nicmp ?tk ''distance_metric''" by (simp add: nicmp_text del: append_Cons append.simps)
    have op: "opts = '' '' @ ''distance_metric'' @ ?rest" using False by (simp add: opts_def)
    show ?thesis
      unfolding op
      by (subst vector_options_loop.simps) (simp only: sc Let_def prod.case k d scan_rc.distinct sum.case
         options_index_printed [OF ix], simp)
  qed
  have "print_vector_column c = vc_name c @ '' '' @ print_element_type (vc_element_type c) @ ''['' @
      decimal (vc_dimensions c) @ '']'' @ opts"
    by (simp add: print_vector_column_def opts_def)
  with assms et loop show ?thesis
    by (simp add: vec0_parse_vector_column_def vec0_scanner_init_def scan_simps vector_type_printed
      atoi_decimal tok_text_def del: append_Cons append.simps)
qed

end

section \<open>Properties of the column parsers\<close>

lemma parse_vector_column_ok:
  assumes "vec0_parse_vector_column nicmp mem junk source = Inr c"
  shows "0 < vc_dimensions c \<and> vc_dimensions c < 2 ^ 31
    \<and> vc_index_type c \<noteq> VEC0_INDEX_TYPE_IVF
    \<and> (vc_element_type c = SQLITE_VEC_ELEMENT_TYPE_BIT \<longrightarrow> vc_distance_metric c = VEC0_DISTANCE_METRIC_L2)
    \<and> (vc_index_type c = VEC0_INDEX_TYPE_RESCORE \<longrightarrow>
         rescore_ok (vc_element_type c) (vc_dimensions c) (vc_rescore c))
    \<and> (vc_index_type c = VEC0_INDEX_TYPE_DISKANN \<longrightarrow> diskann_ok (vc_diskann c))"
proof -
  obtain et s t opts n where
    loop: "vector_options_loop nicmp junk et (nat n) s t default_options = Inr opts" and
    n: "0 < n" "n < 2 ^ 31" and
    c: "vc_dimensions c = nat n" "vc_element_type c = et" "vc_distance_metric c = co_metric opts"
      "vc_index_type c = co_index opts" "vc_rescore c = co_rescore opts" "vc_diskann c = co_diskann opts"
    using assms atoi_bound
    unfolding vec0_parse_vector_column_def Let_def
    by (auto split: prod.split_asm if_split_asm option.split_asm sum.split_asm)
  have "options_ok et (nat n) default_options" by (simp add: options_ok_def default_options_def)
  with loop have "options_ok et (nat n) opts" by (rule vector_options_ok)
  with n c show ?thesis by (simp add: options_ok_def)
qed

text \<open>C20. An accepted vector column has between 1 and 2^31 - 1 dimensions, is never IVF-indexed in
  this build, has the L2 metric if its elements are bits, and its index options are within their
  limits: a rescore index is over \<open>float\<close> elements, has a quantizer, an oversampling of 1 to 128,
  and a dimension divisible by 8 if it quantizes to bits; a DiskANN index has a quantizer and
  between 8 and 256 neighbours, a multiple of 8.\<close>

theorem vector_column_bounds:
  assumes "vec0_parse_vector_column nicmp mem junk source = Inr c"
  shows "0 < vc_dimensions c \<and> vc_dimensions c < 2 ^ 31
    \<and> vc_index_type c \<noteq> VEC0_INDEX_TYPE_IVF
    \<and> (vc_element_type c = SQLITE_VEC_ELEMENT_TYPE_BIT \<longrightarrow> vc_distance_metric c = VEC0_DISTANCE_METRIC_L2)
    \<and> (vc_index_type c = VEC0_INDEX_TYPE_RESCORE \<longrightarrow>
         rescore_ok (vc_element_type c) (vc_dimensions c) (vc_rescore c))
    \<and> (vc_index_type c = VEC0_INDEX_TYPE_DISKANN \<longrightarrow> diskann_ok (vc_diskann c))"
  using assms by (rule parse_vector_column_ok)

theorem vector_column_bounds_witness:
  "vc_dimensions \<lparr>vc_name = ''a'', vc_dimensions = 8, vc_element_type = SQLITE_VEC_ELEMENT_TYPE_BIT,
     vc_distance_metric = VEC0_DISTANCE_METRIC_L2, vc_index_type = VEC0_INDEX_TYPE_FLAT,
     vc_rescore = zero_rescore, vc_diskann = zero_diskann\<rparr> < 2 ^ 31"
  by (rule conjunct1 [OF conjunct2 [OF vector_column_bounds [of strnicmp_ref True _ "''a bit[8]''"]]])
    (simp add: vec0_parse_vector_column_def vec0_scanner_init_def vec0_scanner_next_def is_whitespace_def
      char_class tok_end_def vector_column_type_def strnicmp_ref_def ascii_lower_def atoi_def strtol_value_def
      isspace_def digits_value_def long_sat_def int32_of_def vector_options_loop.simps default_options_def
      tok_text_def)


definition example_column :: VectorColumnDefinition where
  "example_column = \<lparr>vc_name = ''embedding'', vc_dimensions = 768,
     vc_element_type = SQLITE_VEC_ELEMENT_TYPE_FLOAT32, vc_distance_metric = VEC0_DISTANCE_METRIC_COSINE,
     vc_index_type = VEC0_INDEX_TYPE_RESCORE,
     vc_rescore = \<lparr>rs_quantizer_type = VEC0_RESCORE_QUANTIZER_BIT, rs_oversample = 16, rs_oversample_search = 0\<rparr>,
     vc_diskann = zero_diskann\<rparr>"




text \<open>C33. A table option \<open>key=n\<close> is read as its key and the decimal text of its value.\<close>

theorem table_option_roundtrip:
  assumes "ident key"
  shows "vec0_parse_table_option junk (key @ ''='' @ decimal n) = Inr (key, decimal n)"
  using assms scan_decimal [of "[]" n]
  by (simp add: vec0_parse_table_option_def vec0_scanner_init_def scan_simps tok_text_def del: append_Cons append.simps)

theorem table_option_roundtrip_witness:
  "vec0_parse_table_option \<lparr>token_type = TOKEN_TYPE_PLUS, tok_start = [], tok_len = 0\<rparr>
     (''chunk_size'' @ ''='' @ decimal 1024) = Inr (''chunk_size'', decimal 1024)"
  by (rule table_option_roundtrip) (simp add: ident_def char_class)

end
