(* ===== verification/Vectors.thy ===== *)
theory Vectors
  imports Scanner Floats
begin

text \<open>
  Reading vectors from SQL values: \<open>struct Array\<close>, \<open>fvec_from_value\<close>, \<open>bitvec_from_value\<close>,
  \<open>int8_vec_from_value\<close>, \<open>vector_from_value\<close> and \<open>ensure_vector_match\<close>, and the C library's
  \<open>strtod\<close> and \<open>strtol\<close> they read JSON numbers with.

  A vector is the bytes the code's pointer leads to; a \<open>float\<close> vector is read with \<open>f32_at\<close> and
  written with \<open>f32_bytes\<close>. \<open>mem site n\<close> says whether the allocation of \<open>n\<close> bytes at a place of
  the function succeeds. Error messages are the constructors of \<open>vec_error\<close>.
\<close>

section \<open>Stored floats\<close>

text \<open>The bit pattern of a \<open>float\<close> (the quiet NaN for NaN) and its little-endian bytes.\<close>

definition bits_of_f32 :: "f32 \<Rightarrow> u32" where
  "bits_of_f32 x = (case x of
     FNaN \<Rightarrow> 0x7FC00000
   | FInf s \<Rightarrow> (if s then 0xFF800000 else 0x7F800000)
   | FFin s m e \<Rightarrow>
       (if s then 0x80000000 else 0) +
       (if m < 2 ^ 23 then of_nat m else of_nat (nat (e + 150) * 2 ^ 23 + (m - 2 ^ 23))))"

definition le_of_u32 :: "u32 \<Rightarrow> bytes" where
  "le_of_u32 w = [ucast w, ucast (drop_bit 8 w), ucast (drop_bit 16 w), ucast (drop_bit 24 w)]"

definition f32_bytes :: "f32 list \<Rightarrow> bytes" where
  "f32_bytes xs = concat (map (\<lambda>x. le_of_u32 (bits_of_f32 x)) xs)"

definition f32_list :: "bytes \<Rightarrow> f32 list" where
  "f32_list bs = map (f32_at bs) [0..<length bs div 4]"

section \<open>SQL values\<close>

text \<open>
  What SQLite's accessors return for one argument. The number of bytes is the length of the
  blob or of the text, whichever the type selects.
\<close>

record sqlite3_value =
  value_type :: sqlite_type
  value_blob :: bytes
  value_text :: string
  value_int :: int
  value_int64 :: int
  value_double :: f64
  value_subtype :: nat

definition value_bytes :: "sqlite3_value \<Rightarrow> nat" where
  "value_bytes v = (if value_type v = SQLITE_TEXT then length (value_text v) else length (value_blob v))"

definition sqlite3_malloc :: "(nat \<Rightarrow> int \<Rightarrow> bool) \<Rightarrow> nat \<Rightarrow> int \<Rightarrow> bool" where
  "sqlite3_malloc mem site n \<longleftrightarrow> 0 < n \<and> mem site n"

text \<open>An \<open>int\<close> that becomes a \<open>size_t\<close>.\<close>

definition size_of_int :: "int \<Rightarrow> nat" where
  "size_of_int v = nat (v mod 2 ^ 64)"

datatype vec_error =
    ErrUnset
  | ErrZeroLength
  | ErrBlobLength nat
  | ErrNoMem
  | ErrElement nat bool
  | ErrNoBracket
  | ErrJson
  | ErrInt8Range
  | ErrType sqlite_type
  | ErrBitType
  | ErrInt8Type
  | ErrSubtype nat
  | ErrFirst vec_error
  | ErrSecond vec_error
  | ErrTypeMismatch VectorElementType VectorElementType
  | ErrDimMismatch nat nat

type_synonym 'a vresult = "(sqlite_rc \<times> vec_error) + 'a"

section \<open>\<open>struct Array\<close>\<close>

text \<open>\<open>arr_z\<close> holds the elements appended so far; the bytes after them are not modelled.\<close>

record 'a Array =
  element_size :: nat
  arr_capacity :: nat
  arr_z :: "'a list"

definition array_init :: "(nat \<Rightarrow> int \<Rightarrow> bool) \<Rightarrow> nat \<Rightarrow> nat \<Rightarrow> nat \<Rightarrow> 'a Array result" where
  "array_init mem site elem_size init_capacity =
     (let sz = int32_of (int (elem_size * init_capacity))
      in if \<not> sqlite3_malloc mem site sz then Inl SQLITE_NOMEM
         else Inr \<lparr>element_size = elem_size, arr_capacity = init_capacity, arr_z = []\<rparr>)"

text \<open>\<open>mem\<close> at the site of the growth also gets the new size. The array is kept on failure.\<close>

definition array_append ::
  "(nat \<Rightarrow> int \<Rightarrow> bool) \<Rightarrow> nat \<Rightarrow> 'a Array \<Rightarrow> 'a \<Rightarrow> sqlite_rc option \<times> 'a Array"
where
  "array_append mem site array element =
    (if length (arr_z array) = arr_capacity array then
       let new_capacity = arr_capacity array * 2 + 100
       in if mem site (int (element_size array * new_capacity))
          then (None, array\<lparr>arr_capacity := new_capacity, arr_z := arr_z array @ [element]\<rparr>)
          else (Some SQLITE_NOMEM, array)
     else (None, array\<lparr>arr_z := arr_z array @ [element]\<rparr>))"

definition vector_subtype_name :: "VectorElementType \<Rightarrow> string" where
  "vector_subtype_name subtype = (case subtype of
     SQLITE_VEC_ELEMENT_TYPE_FLOAT32 \<Rightarrow> ''float32''
   | SQLITE_VEC_ELEMENT_TYPE_INT8 \<Rightarrow> ''int8''
   | SQLITE_VEC_ELEMENT_TYPE_BIT \<Rightarrow> ''bit'')"

section \<open>\<open>strtod\<close> and \<open>strtol\<close>\<close>

text \<open>
  The white space \<open>vecJsonIsSpaceX\<close> marks: tab, line feed, carriage return and space.
\<close>

definition vecJsonIsspace :: "char \<Rightarrow> bool" where
  "vecJsonIsspace x \<longleftrightarrow> (of_char x :: nat) \<in> {9, 10, 13, 32}"

definition skip_sign :: "string \<Rightarrow> bool \<times> string" where
  "skip_sign s = (case s of
     c # r \<Rightarrow> (if c = CHR ''-'' then (True, r) else if c = CHR ''+'' then (False, r) else (False, s))
   | [] \<Rightarrow> (False, []))"

text \<open>
  The nearest \<open>double\<close> to \<open>(-1)^s * m * 10^k\<close>, and whether \<open>errno\<close> is \<open>ERANGE\<close> with a result the
  callers test for: a zero that stands for a non-zero value, or an infinity.
\<close>

definition dec_to_f64 :: "bool \<Rightarrow> nat \<Rightarrow> int \<Rightarrow> f64" where
  "dec_to_f64 s m k =
     (if 0 \<le> k then fp_round binary64 s (m * 10 ^ nat k) 0
      else let den = 10 ^ nat (- k); sh = 56 + bit_len den; a = m * 2 ^ sh
           in fp_round binary64 s (2 * (a div den) + (if a mod den = 0 then 0 else 1)) (- int sh - 1))"

definition is_fp_zero :: "fp \<Rightarrow> bool" where
  "is_fp_zero x = (case x of FFin s m e \<Rightarrow> m = 0 | _ \<Rightarrow> False)"

definition hex_value :: "char \<Rightarrow> nat option" where
  "hex_value c = (let n = of_char c :: nat in
     if 48 \<le> n \<and> n \<le> 57 then Some (n - 48)
     else if 97 \<le> n \<and> n \<le> 102 then Some (n - 87)
     else if 65 \<le> n \<and> n \<le> 70 then Some (n - 55) else None)"

text \<open>Digits, an optional point and digits: the digits, how many follow the point, and the rest.\<close>

definition scan_mantissa :: "(char \<Rightarrow> bool) \<Rightarrow> string \<Rightarrow> (string \<times> nat \<times> string) option" where
  "scan_mantissa isd s =
     (let ip = takeWhile isd s; r = dropWhile isd s;
          fp = (case r of c # q \<Rightarrow> if c = CHR ''.'' then takeWhile isd q else [] | [] \<Rightarrow> []);
          r' = (case r of c # q \<Rightarrow> if c = CHR ''.'' then dropWhile isd q else r | [] \<Rightarrow> [])
      in if ip = [] \<and> fp = [] then None else Some (ip @ fp, length fp, r'))"

definition scan_exponent :: "char list \<Rightarrow> string \<Rightarrow> int \<times> string" where
  "scan_exponent marks s = (case s of
     c # q \<Rightarrow>
       (let (neg, r) = skip_sign q; ds = takeWhile is_digit r
        in if c \<in> set marks \<and> ds \<noteq> []
           then ((if neg then - digits_value ds else digits_value ds), dropWhile is_digit r)
           else (0, s))
   | [] \<Rightarrow> (0, []))"

definition starts_with_nocase :: "string \<Rightarrow> string \<Rightarrow> bool" where
  "starts_with_nocase w s \<longleftrightarrow> map ascii_lower (take (length w) s) = map ascii_lower w"

text \<open>After \<open>nan\<close>, an optional parenthesised sequence of letters, digits and underscores.\<close>

definition skip_nan_tag :: "string \<Rightarrow> string" where
  "skip_nan_tag s = (case s of
     c # q \<Rightarrow> (if c = CHR ''('' then
       (case dropWhile is_ident_char q of d # r \<Rightarrow> if d = CHR '')'' then r else s | [] \<Rightarrow> s) else s)
   | [] \<Rightarrow> [])"

text \<open>\<open>strtod\<close>: the value, the suffix at \<open>endptr\<close>, and the \<open>ERANGE\<close> flag.\<close>

definition strtod :: "string \<Rightarrow> f64 \<times> string \<times> bool" where
  "strtod ptr =
    (let (neg, s) = skip_sign (dropWhile isspace ptr)
     in if starts_with_nocase ''infinity'' s then (FInf neg, drop 8 s, False)
        else if starts_with_nocase ''inf'' s then (FInf neg, drop 3 s, False)
        else if starts_with_nocase ''nan'' s then (FNaN, skip_nan_tag (drop 3 s), False)
        else case (if starts_with_nocase ''0x'' s
                   then scan_mantissa (\<lambda>c. hex_value c \<noteq> None) (drop 2 s) else None) of
          Some (ds, n, r) \<Rightarrow>
            (let m = foldl (\<lambda>v c. 16 * v + the (hex_value c)) 0 ds; (e, r') = scan_exponent ''pP'' r;
                 v = fp_round binary64 neg m (e - 4 * int n)
             in (v, r', isinf v \<or> (is_fp_zero v \<and> m \<noteq> 0)))
        | None \<Rightarrow>
            (case scan_mantissa is_digit s of
               None \<Rightarrow> (FFin False 0 (emin binary64), ptr, False)
             | Some (ds, n, r) \<Rightarrow>
                 (let m = nat (digits_value ds); (e, r') = scan_exponent ''eE'' r;
                      v = dec_to_f64 neg m (e - int n)
                  in (v, r', isinf v \<or> (is_fp_zero v \<and> m \<noteq> 0)))))"

text \<open>\<open>strtol(ptr, &endptr, 10)\<close>: the value, the suffix at \<open>endptr\<close>, and the \<open>ERANGE\<close> flag.\<close>

definition strtol :: "string \<Rightarrow> int \<times> string \<times> bool" where
  "strtol ptr =
    (let (neg, s) = skip_sign (dropWhile isspace ptr); ds = takeWhile is_digit s
     in if ds = [] then (0, ptr, False)
        else let v = (if neg then - digits_value ds else digits_value ds)
             in (long_sat v, dropWhile is_digit s, long_sat v \<noteq> v))"

text \<open>Every conversion moves forward, so the loops over a JSON array end.\<close>

lemma skip_sign_le: "skip_sign s = (n, r) \<Longrightarrow> length r \<le> length s"
  by (auto simp: skip_sign_def split: list.splits if_splits)

lemma scan_mantissa_less: "scan_mantissa P s = Some (ds, n, r) \<Longrightarrow> length r < length s"
proof -
  assume a: "scan_mantissa P s = Some (ds, n, r)"
  define ip q where ip: "ip = takeWhile P s" and q: "q = dropWhile P s"
  have len: "length s = length ip + length q" by (metis ip length_append q takeWhile_dropWhile_id)
  note run = a [unfolded scan_mantissa_def Let_def ip [symmetric] q [symmetric]]
  show ?thesis
  proof (cases q)
    case Nil
    with run len show ?thesis by (auto split: if_splits)
  next
    case (Cons c t)
    have "length (dropWhile P t) \<le> length t" by (rule length_dropWhile_le)
    with run len Cons show ?thesis by (auto split: if_splits)
  qed
qed

lemma scan_exponent_le: "scan_exponent ms s = (e, r) \<Longrightarrow> length r \<le> length s"
  using length_dropWhile_le [of is_digit] skip_sign_le
  by (auto simp: scan_exponent_def Let_def split: list.splits if_splits prod.splits)
    (metis le_SucI le_trans)+

lemma skip_nan_tag_le: "length (skip_nan_tag s) \<le> length s"
proof (cases s)
  case (Cons c q)
  show ?thesis
    using length_dropWhile_le [of is_ident_char q]
    by (auto simp: skip_nan_tag_def Cons split: list.splits)
qed (simp add: skip_nan_tag_def)

lemma nocase_nonempty: "starts_with_nocase w s \<Longrightarrow> length w \<le> length s"
  by (metis length_map length_take min.absorb_iff2 min.commute starts_with_nocase_def)

lemma strtod_progress:
  assumes "strtod ptr = (v, endptr, erange)"
  shows "endptr = ptr \<or> length endptr < length ptr"
proof -
  obtain neg s where s: "skip_sign (dropWhile isspace ptr) = (neg, s)" by fastforce
  have le: "length s \<le> length ptr"
    using skip_sign_le [OF s] length_dropWhile_le [of isspace ptr] by linarith
  have inf: "length (drop (length w) s) < length ptr" if "starts_with_nocase w s" "w \<noteq> []" for w
    using nocase_nonempty [OF that(1)] that(2) le by (cases w) auto
  have nan: "starts_with_nocase ''nan'' s \<Longrightarrow> length (skip_nan_tag (drop 3 s)) < length ptr"
    using inf [of "''nan''"] skip_nan_tag_le [of "drop 3 s"] by simp
  have hex: "length r' < length ptr"
    if "scan_mantissa P (drop 2 s) = Some (ds, n, r)" "scan_exponent ms r = (e, r')" for P ds n r ms e r'
    using scan_mantissa_less [OF that(1)] scan_exponent_le [OF that(2)] le by simp
  have dec: "length r' < length ptr"
    if "scan_mantissa P s = Some (ds, n, r)" "scan_exponent ms r = (e, r')" for P ds n r ms e r'
    using scan_mantissa_less [OF that(1)] scan_exponent_le [OF that(2)] le by simp
  note run = assms [unfolded strtod_def s Let_def prod.case]
  show ?thesis
  proof (cases "starts_with_nocase ''infinity'' s \<or> starts_with_nocase ''inf'' s \<or> starts_with_nocase ''nan'' s")
    case True
    with run inf [of "''infinity''"] inf [of "''inf''"] nan show ?thesis by (auto split: if_splits)
  next
    case False
    then have no: "\<not> starts_with_nocase ''infinity'' s" "\<not> starts_with_nocase ''inf'' s"
      "\<not> starts_with_nocase ''nan'' s" by simp_all
    note run = run [unfolded if_not_P [OF no(1)] if_not_P [OF no(2)] if_not_P [OF no(3)]]
    show ?thesis
    proof (cases "if starts_with_nocase ''0x'' s then scan_mantissa (\<lambda>c. hex_value c \<noteq> None) (drop 2 s) else None")
      case (Some x)
      then have "scan_mantissa (\<lambda>c. hex_value c \<noteq> None) (drop 2 s) = Some x" by (auto split: if_splits)
      with run Some hex show ?thesis by (auto split: prod.splits)
    next
      case None
      with run dec show ?thesis by (auto split: prod.splits option.splits)
    qed
  qed
qed

lemma strtol_progress:
  assumes "strtol ptr = (v, endptr, erange)"
  shows "endptr = ptr \<or> length endptr < length ptr"
proof -
  obtain neg s where s: "skip_sign (dropWhile isspace ptr) = (neg, s)" by fastforce
  have le: "length s \<le> length ptr"
    using skip_sign_le [OF s] length_dropWhile_le [of isspace ptr] by linarith
  have "length (takeWhile is_digit s) + length (dropWhile is_digit s) = length s"
    by (metis length_append takeWhile_dropWhile_id)
  then have "takeWhile is_digit s \<noteq> [] \<Longrightarrow> length (dropWhile is_digit s) < length s"
    by (cases "takeWhile is_digit s") auto
  with assms le show ?thesis by (auto simp: strtol_def s Let_def split: if_splits)
qed

section \<open>Reading a vector\<close>

text \<open>
  The white space up to the opening bracket (the loop and the test after it), and the
  separators after an element: whether the closing bracket was seen, and the rest.
\<close>

fun json_open :: "string \<Rightarrow> string option" where
  "json_open [] = None"
| "json_open (c # r) = (if vecJsonIsspace c then json_open r else if c = CHR ''['' then Some r else None)"

fun json_separators :: "string \<Rightarrow> bool \<times> string" where
  "json_separators [] = (False, [])"
| "json_separators (c # r) =
     (if vecJsonIsspace c then json_separators r
      else if c = CHR '','' then json_separators r
      else if c = CHR '']'' then (True, c # r)
      else (False, c # r))"

lemma json_separators_le: "(b, r) = json_separators s \<Longrightarrow> length r \<le> length s"
  by (induction s rule: json_separators.induct) (auto split: if_splits intro: le_SucI)

function fvec_json_loop :: "(nat \<Rightarrow> int \<Rightarrow> bool) \<Rightarrow> f32 Array \<Rightarrow> string \<Rightarrow> f32 Array vresult" where
  "fvec_json_loop mem x ptr =
    (if ptr = [] then Inr x
     else let (result, endptr, erange) = strtod ptr
     in if erange then Inl (SQLITE_ERROR, ErrJson)
     else if endptr = ptr then (if hd ptr \<noteq> CHR '']'' then Inl (SQLITE_ERROR, ErrJson) else Inr x)
     else let res = to_f32 result
     in if isnan res \<or> isinf res then Inl (SQLITE_ERROR, ErrElement (length (arr_z x)) (isnan res))
     else let x' = snd (array_append mem 1 x res); (closed, rest) = json_separators endptr
     in if closed then Inr x' else fvec_json_loop mem x' rest)"
  by pat_completeness auto
termination
proof (relation "measure (\<lambda>(mem, x, ptr). length ptr)", goal_cases)
  case 1
  show ?case by simp
next
  case (2 mem x ptr r result y endptr erange res x' z closed rest)
  then have "length endptr < length ptr" using strtod_progress by metis
  moreover have "length rest \<le> length endptr" using 2 by (auto intro: json_separators_le)
  ultimately show ?case by simp
qed

declare fvec_json_loop.simps [simp del]

definition fvec_from_value ::
  "(nat \<Rightarrow> int \<Rightarrow> bool) \<Rightarrow> sqlite3_value \<Rightarrow> (bytes \<times> nat) vresult"
where
  "fvec_from_value mem v =
    (if value_type v = SQLITE_BLOB then
       (let blob = value_blob v; bytes = length blob; n = bytes div 4
        in if bytes = 0 then Inl (SQLITE_ERROR, ErrZeroLength)
           else if bytes mod 4 \<noteq> 0 then Inl (SQLITE_ERROR, ErrBlobLength bytes)
           else if \<not> sqlite3_malloc mem 0 (int bytes) then Inl (SQLITE_NOMEM, ErrNoMem)
           else case List.find (\<lambda>i. isnan (f32_at blob i) \<or> isinf (f32_at blob i)) [0..<n] of
             Some i \<Rightarrow> Inl (SQLITE_ERROR, ErrElement i (isnan (f32_at blob i)))
           | None \<Rightarrow> Inr (blob, n))
     else if value_type v = SQLITE_TEXT then
       (let source = value_text v; source_len = length source
        in if source_len = 0 then Inl (SQLITE_ERROR, ErrZeroLength)
           else case array_init mem 0 4 ((source_len + 1) div 2) of
             Inl rc \<Rightarrow> Inl (rc, ErrUnset)
           | Inr x \<Rightarrow>
               (case json_open source of
                  None \<Rightarrow> Inl (SQLITE_ERROR, ErrNoBracket)
                | Some ptr \<Rightarrow>
                    (case fvec_json_loop mem x ptr of
                       Inl e \<Rightarrow> Inl e
                     | Inr x' \<Rightarrow>
                         if 0 < length (arr_z x') then Inr (f32_bytes (arr_z x'), length (arr_z x'))
                         else Inl (SQLITE_ERROR, ErrZeroLength))))
     else Inl (SQLITE_ERROR, ErrType (value_type v)))"

definition bitvec_from_value :: "sqlite3_value \<Rightarrow> (bytes \<times> nat) vresult" where
  "bitvec_from_value v =
    (if value_type v = SQLITE_BLOB then
       (let blob = value_blob v; bytes = length blob
        in if bytes = 0 then Inl (SQLITE_ERROR, ErrZeroLength)
           else Inr (blob, size_of_int (int32_of (int bytes * 8))))
     else Inl (SQLITE_ERROR, ErrBitType))"

function int8_json_loop :: "(nat \<Rightarrow> int \<Rightarrow> bool) \<Rightarrow> u8 Array \<Rightarrow> string \<Rightarrow> u8 Array vresult" where
  "int8_json_loop mem x ptr =
    (if ptr = [] then Inr x
     else let (result, endptr, erange) = strtol ptr
     in if erange then Inl (SQLITE_ERROR, ErrJson)
     else if endptr = ptr then (if hd ptr \<noteq> CHR '']'' then Inl (SQLITE_ERROR, ErrJson) else Inr x)
     else if result < - 128 \<or> 127 < result then Inl (SQLITE_ERROR, ErrInt8Range)
     else let x' = snd (array_append mem 1 x (of_int result)); (closed, rest) = json_separators endptr
     in if closed then Inr x' else int8_json_loop mem x' rest)"
  by pat_completeness auto
termination
proof (relation "measure (\<lambda>(mem, x, ptr). length ptr)", goal_cases)
  case 1
  show ?case by simp
next
  case (2 mem x ptr r result y endptr erange x' z closed rest)
  then have "length endptr < length ptr" using strtol_progress by metis
  moreover have "length rest \<le> length endptr" using 2 by (auto intro: json_separators_le)
  ultimately show ?case by simp
qed

declare int8_json_loop.simps [simp del]

definition int8_vec_from_value ::
  "(nat \<Rightarrow> int \<Rightarrow> bool) \<Rightarrow> sqlite3_value \<Rightarrow> (bytes \<times> nat) vresult"
where
  "int8_vec_from_value mem v =
    (if value_type v = SQLITE_BLOB then
       (let blob = value_blob v; bytes = length blob
        in if bytes = 0 then Inl (SQLITE_ERROR, ErrZeroLength) else Inr (blob, bytes))
     else if value_type v = SQLITE_TEXT then
       (let source = value_text v; source_len = length source
        in if source_len = 0 then Inl (SQLITE_ERROR, ErrZeroLength)
           else case array_init mem 0 1 ((source_len + 1) div 2) of
             Inl rc \<Rightarrow> Inl (rc, ErrUnset)
           | Inr x \<Rightarrow>
               (case json_open source of
                  None \<Rightarrow> Inl (SQLITE_ERROR, ErrNoBracket)
                | Some ptr \<Rightarrow>
                    (case int8_json_loop mem x ptr of
                       Inl e \<Rightarrow> Inl e
                     | Inr x' \<Rightarrow>
                         if 0 < length (arr_z x') then Inr (arr_z x', length (arr_z x'))
                         else Inl (SQLITE_ERROR, ErrZeroLength))))
     else Inl (SQLITE_ERROR, ErrInt8Type))"

definition JSON_SUBTYPE :: nat where
  "JSON_SUBTYPE = 74"

definition vector_from_value ::
  "(nat \<Rightarrow> int \<Rightarrow> bool) \<Rightarrow> sqlite3_value \<Rightarrow> (bytes \<times> nat \<times> VectorElementType) vresult"
where
  "vector_from_value mem v =
    (let subtype = value_subtype v
     in if subtype = 0 \<or> subtype = nat (element_type_code SQLITE_VEC_ELEMENT_TYPE_FLOAT32) \<or> subtype = JSON_SUBTYPE
        then (case fvec_from_value mem v of
                Inl e \<Rightarrow> Inl e
              | Inr (vec, dims) \<Rightarrow> Inr (vec, dims, SQLITE_VEC_ELEMENT_TYPE_FLOAT32))
        else if subtype = nat (element_type_code SQLITE_VEC_ELEMENT_TYPE_BIT)
        then (case bitvec_from_value v of
                Inl e \<Rightarrow> Inl e
              | Inr (vec, dims) \<Rightarrow> Inr (vec, dims, SQLITE_VEC_ELEMENT_TYPE_BIT))
        else if subtype = nat (element_type_code SQLITE_VEC_ELEMENT_TYPE_INT8)
        then (case int8_vec_from_value mem v of
                Inl e \<Rightarrow> Inl e
              | Inr (vec, dims) \<Rightarrow> Inr (vec, dims, SQLITE_VEC_ELEMENT_TYPE_INT8))
        else Inl (SQLITE_ERROR, ErrSubtype subtype))"

text \<open>The two arguments are read with separate allocations: \<open>mem\<close> and \<open>mem'\<close>.\<close>

definition ensure_vector_match ::
  "(nat \<Rightarrow> int \<Rightarrow> bool) \<Rightarrow> (nat \<Rightarrow> int \<Rightarrow> bool) \<Rightarrow> sqlite3_value \<Rightarrow> sqlite3_value \<Rightarrow>
   (bytes \<times> bytes \<times> VectorElementType \<times> nat) vresult"
where
  "ensure_vector_match mem mem' aValue bValue =
    (case vector_from_value mem aValue of
       Inl (rc, e) \<Rightarrow> Inl (SQLITE_ERROR, ErrFirst e)
     | Inr (a, aDims, aType) \<Rightarrow>
         (case vector_from_value mem' bValue of
            Inl (rc, e) \<Rightarrow> Inl (SQLITE_ERROR, ErrSecond e)
          | Inr (b, bDims, bType) \<Rightarrow>
              if aType \<noteq> bType then Inl (SQLITE_ERROR, ErrTypeMismatch aType bType)
              else if aDims \<noteq> bDims then Inl (SQLITE_ERROR, ErrDimMismatch aDims bDims)
              else Inr (a, b, aType, aDims)))"

end
