(* ===== verification/FloatFacts.thy ===== *)
theory FloatFacts
  imports Vectors
begin

text \<open>
  Facts about stored floats: every \<open>float\<close> an operation produces is in canonical form, has a bit
  pattern of its own, and is read back from its four bytes as the same value.
\<close>

section \<open>Bit length\<close>

lemma bit_len_upper: "n < 2 ^ bit_len n"
proof (induction n rule: bit_len.induct)
  case (1 n)
  then show ?case by (cases "n = 0") (simp_all add: bit_len.simps [of n])
qed

lemma bit_len_lower: "0 < n \<Longrightarrow> 2 ^ (bit_len n - 1) \<le> n"
proof (induction n rule: bit_len.induct)
  case (1 n)
  show ?case
  proof (cases "n div 2 = 0")
    case True
    with 1 have "n = 1" by auto
    then show ?thesis by (simp add: bit_len.simps)
  next
    case False
    then have "2 ^ (bit_len (n div 2) - 1) \<le> n div 2" "0 < bit_len (n div 2)"
      using 1 by (simp_all add: bit_len.simps [of "n div 2"])
    then show ?thesis
      using 1 by (simp add: bit_len.simps [of n]) (cases "bit_len (n div 2)"; simp)
  qed
qed

lemma bit_len_le_iff: "bit_len n \<le> k \<longleftrightarrow> n < 2 ^ k"
proof
  assume "bit_len n \<le> k"
  then have "(2::nat) ^ bit_len n \<le> 2 ^ k" by (simp add: power_increasing)
  with bit_len_upper [of n] show "n < 2 ^ k" by linarith
next
  assume l: "n < 2 ^ k"
  show "bit_len n \<le> k"
  proof (cases "n = 0")
    case False
    with bit_len_lower [of n] l have "(2::nat) ^ (bit_len n - 1) < 2 ^ k" by linarith
    then have "bit_len n - 1 < k" by (simp add: power_strict_increasing_iff)
    then show ?thesis by linarith
  qed (simp add: bit_len.simps)
qed

section \<open>Canonical floats\<close>

definition is_f32 :: "f32 \<Rightarrow> bool" where
  "is_f32 x \<longleftrightarrow> (case x of
     FFin s m e \<Rightarrow> m < 2 ^ 24 \<and> -149 \<le> e \<and> e \<le> 104 \<and> (m < 2 ^ 23 \<longrightarrow> e = -149)
   | _ \<Rightarrow> True)"

definition is_fin :: "fp \<Rightarrow> bool" where
  "is_fin x \<longleftrightarrow> \<not> isnan x \<and> \<not> isinf x"

lemma mask_lt: "unat (w AND mask n :: 'a::len word) < 2 ^ n"
  by (simp only: take_bit_eq_mask [symmetric] unsigned_take_bit_eq take_bit_nat_less_exp)

lemma f32_of_bits_is_f32: "is_f32 (f32_of_bits w)"
proof -
  obtain fr where fr: "fr = unat (w AND 0x7FFFFF)" by simp
  obtain ex where ex: "ex = unat (drop_bit 23 w AND 255)" by simp
  have "fr < 2 ^ 23" using mask_lt [of w 23] by (simp add: mask_eq_exp_minus_1 fr)
  moreover have "ex < 2 ^ 8" using mask_lt [of "drop_bit 23 w" 8] by (simp add: mask_eq_exp_minus_1 ex)
  ultimately show ?thesis
    unfolding f32_of_bits_def Let_def fr [symmetric] ex [symmetric] by (auto simp: is_f32_def)
qed

lemma rne_bound: "m < 2 ^ (p + k) \<Longrightarrow> rne m k \<le> 2 ^ p"
proof -
  assume "m < 2 ^ (p + k)"
  then have "m div 2 ^ k < 2 ^ p" by (simp add: less_mult_imp_div_less power_add)
  with \<open>m < 2 ^ (p + k)\<close> show ?thesis by (cases "k = 0") (simp_all add: rne_def Let_def)
qed

lemma rne_lower: "2 ^ (p + k) \<le> m \<Longrightarrow> 2 ^ p \<le> rne m k"
proof -
  assume a: "2 ^ (p + k) \<le> m"
  then have "2 ^ p \<le> m div 2 ^ k" by (simp add: less_eq_div_iff_mult_less_eq power_add)
  with a show ?thesis by (auto simp: rne_def Let_def)
qed

lemma fp_round_is_f32: "is_f32 (fp_round binary32 s m e)"
proof (cases "m = 0")
  case False
  define sh where "sh = max (int (bit_len m) - 24) (- 149 - e)"
  show ?thesis
  proof (cases "sh \<le> 0")
    case True
    have l: "m * 2 ^ nat (- sh) < 2 ^ 24"
    proof -
      have "bit_len m + nat (- sh) \<le> 24" using True by (auto simp: sh_def)
      then have "m * 2 ^ nat (- sh) < 2 ^ bit_len m * 2 ^ nat (- sh)" using bit_len_upper [of m] by simp
      also have "\<dots> \<le> 2 ^ 24" using \<open>bit_len m + nat (- sh) \<le> 24\<close> by (metis one_le_numeral power_add power_increasing)
      finally show ?thesis .
    qed
    have n: "m * 2 ^ nat (- sh) < 2 ^ 23 \<longrightarrow> e + sh = - 149"
    proof (rule ccontr, simp only: not_imp, elim conjE)
      assume that: "e + sh \<noteq> - 149" and lt: "m * 2 ^ nat (- sh) < 2 ^ 23"
      have "bit_len m - 1 + nat (- sh) = 23" using that True False bit_len.simps [of m] by (auto simp: sh_def)
      then have "(2::nat) ^ 23 = 2 ^ (bit_len m - 1) * 2 ^ nat (- sh)" by (metis power_add)
      also have "\<dots> \<le> m * 2 ^ nat (- sh)" using bit_len_lower [of m] False by simp
      finally show False using lt by simp
    qed
    have "- 149 \<le> e + sh" by (simp add: sh_def)
    with l n True False show ?thesis
      by (auto simp: fp_round_def binary32_def is_f32_def Let_def sh_def [symmetric] not_less)
  next
    case g: False
    define q where "q = rne m (nat sh)"
    have up: "q \<le> 2 ^ 24"
      unfolding q_def
    proof (rule rne_bound)
      have "bit_len m \<le> 24 + nat sh" using g by (auto simp: sh_def)
      then show "m < 2 ^ (24 + nat sh)" by (simp add: bit_len_le_iff)
    qed
    have lo: "q < 2 ^ 23 \<longrightarrow> e + sh = - 149"
    proof (rule ccontr, simp only: not_imp, elim conjE)
      assume that: "e + sh \<noteq> - 149" and lt: "q < 2 ^ 23"
      have "bit_len m - 1 = 23 + nat sh" using that g by (auto simp: sh_def)
      then have "2 ^ (23 + nat sh) \<le> m" using bit_len_lower [of m] False by simp
      with lt rne_lower [of 23 "nat sh" m] show False by (simp add: q_def)
    qed
    have "- 149 \<le> e + sh" by (simp add: sh_def)
    with up lo g False show ?thesis
      by (auto simp: fp_round_def binary32_def is_f32_def Let_def sh_def [symmetric] q_def [symmetric] not_less)
  qed
qed (simp add: fp_round_def is_f32_def binary32_def)

lemma fp_ops_is_f32:
  "is_f32 (to_f32 x)" "is_f32 (f32_add x y)" "is_f32 (f32_mul x y)" "is_f32 (f32_sub x y)"
  "is_f32 (fp_of_int binary32 i)"
proof -
  have z: "is_f32 (FFin s 0 (emin binary32))" for s by (simp add: is_f32_def binary32_def)
  have add: "is_f32 (f32_add x y)" for x y
    by (cases x; cases y) (auto simp: is_f32_def [of FNaN] is_f32_def [of "FInf _"] Let_def intro: fp_round_is_f32 z)
  show "is_f32 (to_f32 x)" by (cases x) (auto simp: is_f32_def [of FNaN] is_f32_def [of "FInf _"] intro: fp_round_is_f32)
  show "is_f32 (f32_add x y)" "is_f32 (f32_sub x y)" by (simp_all add: add fp_sub_def)
  show "is_f32 (f32_mul x y)"
    by (cases x; cases y) (auto simp: is_f32_def [of FNaN] is_f32_def [of "FInf _"] intro: fp_round_is_f32)
  show "is_f32 (fp_of_int binary32 i)" by (simp add: fp_of_int_def fp_round_is_f32)
qed

lemma to_f64_fin: "is_f32 x \<Longrightarrow> is_fin x \<Longrightarrow> is_fin (to_f64 x)"
proof (cases x)
  case (FFin s m e)
  moreover assume "is_f32 x"
  ultimately have "bit_len m \<le> 24" "- 149 \<le> e" "e \<le> 104" by (simp_all add: is_f32_def bit_len_le_iff)
  then show ?thesis by (simp add: FFin fp_round_def binary64_def Let_def is_fin_def)
qed (auto simp: is_fin_def)

section \<open>The stored pattern\<close>

lemma pattern_fields:
  fixes w :: u32
  assumes "k < 2 ^ 31" and w_def: "w = (if s then 0x80000000 else 0) + of_nat k"
  shows "bit w 31 = s" and "unat (drop_bit 23 w AND 255) = k div 2 ^ 23" and "unat (w AND 0x7FFFFF) = k mod 2 ^ 23"
proof -
  define n where "n = (if s then 2 ^ 31 else 0) + k"
  have "w = of_nat n" by (simp add: w_def n_def)
  moreover have lt: "n < 2 ^ 32" using assms(1) by (simp add: n_def)
  ultimately have u: "unat w = n" by (simp only: unsigned_of_nat) (simp add: take_bit_nat_eq_self)
  have split: "n = k + (if s then 256 else 0) * 2 ^ 23" by (simp add: n_def)
  have small: "k div 2 ^ 23 < 256" using assms(1) by (simp add: less_mult_imp_div_less)
  have "unat (w AND mask 23) = n mod 2 ^ 23"
    by (simp only: take_bit_eq_mask [symmetric] unsigned_take_bit_eq u) (simp only: take_bit_eq_mod)
  also have "\<dots> = k mod 2 ^ 23" by (simp only: split mod_mult_self1)
  finally show "unat (w AND 0x7FFFFF) = k mod 2 ^ 23" by (simp add: mask_eq_exp_minus_1)
  have "unat (drop_bit 23 w AND mask 8) = n div 2 ^ 23 mod 2 ^ 8"
    using lt by (simp only: take_bit_eq_mask [symmetric] unsigned_take_bit_eq unsigned_drop_bit_eq u)
      (simp add: take_bit_eq_mod drop_bit_eq_div)
  also have "n div 2 ^ 23 = (if s then 256 else 0) + k div 2 ^ 23"
    by (simp only: split) (rule div_mult_self1, simp)
  also have "\<dots> mod 2 ^ 8 = k div 2 ^ 23" using small by simp
  finally show "unat (drop_bit 23 w AND 255) = k div 2 ^ 23" by (simp add: mask_eq_exp_minus_1)
  have "bit w 31 = bit (unat w) 31" by (simp add: bit_unsigned_iff)
  also have "\<dots> = odd (n div 2 ^ 31)" by (simp only: bit_iff_odd u)
  also have "n div 2 ^ 31 = (if s then 1 else 0)" using assms(1) by (simp add: n_def div_if)
  also have "odd (if s then 1 else 0 :: nat) = s" by simp
  finally show "bit w 31 = s" .
qed

text \<open>Every canonical float is the value of its own bit pattern.\<close>

lemma f32_of_bits_of_f32: "is_f32 x \<Longrightarrow> f32_of_bits (bits_of_f32 x) = x"
proof (cases x)
  case FNaN
  then show ?thesis by (simp add: bits_of_f32_def f32_of_bits_def)
next
  case (FInf s)
  then show ?thesis
    using pattern_fields [of "255 * 2 ^ 23" "bits_of_f32 x" s]
    by (simp add: bits_of_f32_def f32_of_bits_def Let_def split: if_splits)
next
  case (FFin s m e)
  moreover assume "is_f32 x"
  ultimately have c: "m < 2 ^ 24" "- 149 \<le> e" "e \<le> 104" "m < 2 ^ 23 \<Longrightarrow> e = - 149" by (auto simp: is_f32_def)
  define k where "k = (if m < 2 ^ 23 then m else nat (e + 150) * 2 ^ 23 + (m - 2 ^ 23))"
  have fields: "k < 2 ^ 31 \<and> k div 2 ^ 23 = (if m < 2 ^ 23 then 0 else nat (e + 150))
      \<and> k mod 2 ^ 23 = (if m < 2 ^ 23 then m else m - 2 ^ 23)"
  proof (cases "m < 2 ^ 23")
    case False
    obtain ex where ex: "ex = nat (e + 150)" "ex < 255" using c(2,3) by auto
    obtain r where r: "m = 2 ^ 23 + r" using False by (metis le_Suc_ex not_less)
    then have lt: "r < 2 ^ 23" using c(1) by simp
    have k: "k = ex * 2 ^ 23 + r" using False by (simp add: k_def ex(1) r)
    have "ex * 2 ^ 23 + 2 ^ 23 \<le> 255 * 2 ^ 23"
      using mult_le_mono1 [of "Suc ex" 255 "2 ^ 23"] ex(2) by simp
    moreover have "k div 2 ^ 23 = ex" "k mod 2 ^ 23 = r" using lt by (simp_all add: k)
    ultimately show ?thesis using False lt by (simp add: k r ex(1) [symmetric])
  qed (simp add: k_def)
  have w: "bits_of_f32 x = (if s then 0x80000000 else 0) + of_nat k"
    by (simp add: bits_of_f32_def FFin k_def)
  note p = pattern_fields [OF conjunct1 [OF fields] w]
  show ?thesis
    unfolding f32_of_bits_def Let_def p using fields c
    by (auto simp: FFin)
qed

lemma length_le_of_u32: "length (le_of_u32 w) = 4"
  by (simp add: le_of_u32_def)

lemma f32_bytes_Cons: "f32_bytes (x # xs) = le_of_u32 (bits_of_f32 x) @ f32_bytes xs"
  by (simp add: f32_bytes_def)

lemma u32_of_le_of_u32: "drop (4 * i) bs = le_of_u32 w @ r \<Longrightarrow> u32_of_le bs (4 * i) = w"
proof -
  assume a: "drop (4 * i) bs = le_of_u32 w @ r"
  have n: "bs ! (4 * i + k) = le_of_u32 w ! k" if "k < 4" for k
  proof -
    have "4 * i + k < length bs"
      using arg_cong [OF a, of length] that by (simp add: le_of_u32_def)
    then have "bs ! (4 * i + k) = (le_of_u32 w @ r) ! k" by (simp flip: a)
    then show ?thesis using that by (simp add: nth_append length_le_of_u32)
  qed
  have v: "u32_of_le bs (4 * i) = ucast (le_of_u32 w ! 0) OR push_bit 8 (ucast (le_of_u32 w ! 1))
      OR push_bit 16 (ucast (le_of_u32 w ! 2)) OR push_bit 24 (ucast (le_of_u32 w ! 3))"
    using n [of 0] n [of 1] n [of 2] n [of 3] by (simp add: u32_of_le_def)
  show ?thesis
  proof (rule bit_word_eqI)
    fix k assume "k < LENGTH(32)"
    then have "k < 8 \<or> (8 \<le> k \<and> k < 16) \<or> (16 \<le> k \<and> k < 24) \<or> (24 \<le> k \<and> k < 32)" by auto
    then show "bit (u32_of_le bs (4 * i)) k = bit w k"
      by (elim disjE)
        (auto simp: v le_of_u32_def bit_or_iff bit_push_bit_iff bit_ucast_iff bit_drop_bit_eq)
  qed
qed

lemma f32_bytes_length: "length (f32_bytes xs) = 4 * length xs"
  by (induction xs) (simp_all add: f32_bytes_def le_of_u32_def)

lemma f32_at_bytes: "i < length xs \<Longrightarrow> is_f32 (xs ! i) \<Longrightarrow> f32_at (f32_bytes xs) i = xs ! i"
proof -
  assume i: "i < length xs" and f: "is_f32 (xs ! i)"
  have "drop (4 * i) (f32_bytes xs) = le_of_u32 (bits_of_f32 (xs ! i)) @ f32_bytes (drop (Suc i) xs)"
    using i
  proof (induction xs arbitrary: i)
    case (Cons x xs)
    then show ?case
      by (cases i) (simp_all add: f32_bytes_Cons length_le_of_u32)
  qed simp
  then show ?thesis using f by (simp add: f32_at_def u32_of_le_of_u32 f32_of_bits_of_f32)
qed

lemma f32_list_bytes: "\<forall>x \<in> set xs. is_f32 x \<Longrightarrow> f32_list (f32_bytes xs) = xs"
  by (rule nth_equalityI) (simp_all add: f32_list_def f32_bytes_length f32_at_bytes)

lemma f32_at_is_f32: "is_f32 (f32_at bs i)"
  by (simp add: f32_at_def f32_of_bits_is_f32)

end
