(* ===== verification/Distances.thy ===== *)
theory Distances
  imports FloatFacts
begin

text \<open>
  The distance kernels of the default build (no AVX, no NEON): L2, L1, cosine and hamming, and
  \<open>vec0_distance_full\<close>, which picks one. A \<open>float\<close> vector is read with \<open>f32_at\<close>, an \<open>int8\<close>
  vector with \<open>i8_at\<close>. The accumulators are the code's: \<open>float\<close> for L2 and cosine, \<open>double\<close> for L1,
  a 32-bit \<open>int\<close> for the int8 L1 and the hamming count.
\<close>

section \<open>Words from bytes\<close>

text \<open>A little-endian load of the machine.\<close>

fun le_word :: "bytes \<Rightarrow> 'a::len word" where
  "le_word [] = 0"
| "le_word (b # bs) = ucast b OR push_bit 8 (le_word bs)"

definition i8_at :: "bytes \<Rightarrow> nat \<Rightarrow> int" where
  "i8_at bs i = sint (bs ! i)"

definition u64_at :: "bytes \<Rightarrow> nat \<Rightarrow> u64" where
  "u64_at bs i = le_word (take 8 (drop (8 * i) bs))"

section \<open>L2\<close>

definition l2_sqr_float :: "bytes \<Rightarrow> bytes \<Rightarrow> nat \<Rightarrow> f32" where
  "l2_sqr_float a b qty =
     (let res = fold (\<lambda>i res. let t = f32_sub (f32_at a i) (f32_at b i) in f32_add res (f32_mul t t)) [0..<qty] fp0
      in to_f32 (f64_sqrt (to_f64 res)))"

definition l2_sqr_int8 :: "bytes \<Rightarrow> bytes \<Rightarrow> nat \<Rightarrow> f32" where
  "l2_sqr_int8 a b d =
     (let res = fold (\<lambda>i res. let t = fp_of_int binary32 (i8_at a i - i8_at b i) in f32_add res (f32_mul t t)) [0..<d] fp0
      in to_f32 (f64_sqrt (to_f64 res)))"

definition distance_l2_sqr_float :: "bytes \<Rightarrow> bytes \<Rightarrow> nat \<Rightarrow> f32" where
  "distance_l2_sqr_float a b d = l2_sqr_float a b d"

definition distance_l2_sqr_int8 :: "bytes \<Rightarrow> bytes \<Rightarrow> nat \<Rightarrow> f32" where
  "distance_l2_sqr_int8 a b d = l2_sqr_int8 a b d"

section \<open>L1\<close>

definition l1_int8 :: "bytes \<Rightarrow> bytes \<Rightarrow> nat \<Rightarrow> i32" where
  "l1_int8 a b d = fold (\<lambda>i res. res + of_int \<bar>i8_at a i - i8_at b i\<bar>) [0..<d] 0"

definition distance_l1_int8 :: "bytes \<Rightarrow> bytes \<Rightarrow> nat \<Rightarrow> i32" where
  "distance_l1_int8 a b d = l1_int8 a b d"

definition l1_f32 :: "bytes \<Rightarrow> bytes \<Rightarrow> nat \<Rightarrow> f64" where
  "l1_f32 a b d =
     fold (\<lambda>i res. f64_add res (fp_abs (f64_sub (to_f64 (f32_at a i)) (to_f64 (f32_at b i))))) [0..<d]
       (FFin False 0 (emin binary64))"

definition distance_l1_f32 :: "bytes \<Rightarrow> bytes \<Rightarrow> nat \<Rightarrow> f64" where
  "distance_l1_f32 a b d = l1_f32 a b d"

section \<open>Cosine\<close>

text \<open>\<open>1 - (dot / (sqrt(aMag) * sqrt(bMag)))\<close>: computed in \<open>double\<close>, returned as \<open>float\<close>.\<close>

definition cosine_result :: "f32 \<Rightarrow> f32 \<Rightarrow> f32 \<Rightarrow> f32" where
  "cosine_result dot aMag bMag =
     to_f32 (f64_sub (fp_of_int binary64 1)
       (f64_div (to_f64 dot) (f64_mul (f64_sqrt (to_f64 aMag)) (f64_sqrt (to_f64 bMag)))))"

definition distance_cosine_float :: "bytes \<Rightarrow> bytes \<Rightarrow> nat \<Rightarrow> f32" where
  "distance_cosine_float a b qty =
     (let (dot, aMag, bMag) = fold (\<lambda>i (dot, aMag, bMag).
            (f32_add dot (f32_mul (f32_at a i) (f32_at b i)),
             f32_add aMag (f32_mul (f32_at a i) (f32_at a i)),
             f32_add bMag (f32_mul (f32_at b i) (f32_at b i)))) [0..<qty] (fp0, fp0, fp0)
      in cosine_result dot aMag bMag)"

definition cosine_int8 :: "bytes \<Rightarrow> bytes \<Rightarrow> nat \<Rightarrow> f32" where
  "cosine_int8 a b d =
     (let (dot, aMag, bMag) = fold (\<lambda>i (dot, aMag, bMag).
            (f32_add dot (fp_of_int binary32 (i8_at a i * i8_at b i)),
             f32_add aMag (fp_of_int binary32 (i8_at a i * i8_at a i)),
             f32_add bMag (fp_of_int binary32 (i8_at b i * i8_at b i)))) [0..<d] (fp0, fp0, fp0)
      in cosine_result dot aMag bMag)"

definition distance_cosine_int8 :: "bytes \<Rightarrow> bytes \<Rightarrow> nat \<Rightarrow> f32" where
  "distance_cosine_int8 a b d = cosine_int8 a b d"

section \<open>Hamming\<close>

definition hamdist_table :: "nat list" where
  "hamdist_table = [
    0, 1, 1, 2, 1, 2, 2, 3, 1, 2, 2, 3, 2, 3, 3, 4, 1, 2, 2, 3, 2, 3, 3, 4,
    2, 3, 3, 4, 3, 4, 4, 5, 1, 2, 2, 3, 2, 3, 3, 4, 2, 3, 3, 4, 3, 4, 4, 5,
    2, 3, 3, 4, 3, 4, 4, 5, 3, 4, 4, 5, 4, 5, 5, 6, 1, 2, 2, 3, 2, 3, 3, 4,
    2, 3, 3, 4, 3, 4, 4, 5, 2, 3, 3, 4, 3, 4, 4, 5, 3, 4, 4, 5, 4, 5, 5, 6,
    2, 3, 3, 4, 3, 4, 4, 5, 3, 4, 4, 5, 4, 5, 5, 6, 3, 4, 4, 5, 4, 5, 5, 6,
    4, 5, 5, 6, 5, 6, 6, 7, 1, 2, 2, 3, 2, 3, 3, 4, 2, 3, 3, 4, 3, 4, 4, 5,
    2, 3, 3, 4, 3, 4, 4, 5, 3, 4, 4, 5, 4, 5, 5, 6, 2, 3, 3, 4, 3, 4, 4, 5,
    3, 4, 4, 5, 4, 5, 5, 6, 3, 4, 4, 5, 4, 5, 5, 6, 4, 5, 5, 6, 5, 6, 6, 7,
    2, 3, 3, 4, 3, 4, 4, 5, 3, 4, 4, 5, 4, 5, 5, 6, 3, 4, 4, 5, 4, 5, 5, 6,
    4, 5, 5, 6, 5, 6, 6, 7, 3, 4, 4, 5, 4, 5, 5, 6, 4, 5, 5, 6, 5, 6, 6, 7,
    4, 5, 5, 6, 5, 6, 6, 7, 5, 6, 6, 7, 6, 7, 7, 8]"

definition distance_hamming_u8 :: "bytes \<Rightarrow> bytes \<Rightarrow> nat \<Rightarrow> f32" where
  "distance_hamming_u8 a b n =
     (let same = fold (\<lambda>i same. same + of_nat (hamdist_table ! unat (a ! i XOR b ! i))) [0..<n] (0 :: i32)
      in fp_of_int binary32 (sint same))"

text \<open>\<open>__builtin_popcountl\<close>.\<close>

definition popcount :: "'a::len word \<Rightarrow> nat" where
  "popcount w = length (filter (bit w) [0..<LENGTH('a)])"

definition distance_hamming_u64 :: "bytes \<Rightarrow> bytes \<Rightarrow> nat \<Rightarrow> f32" where
  "distance_hamming_u64 a b n =
     (let same = fold (\<lambda>i same. same + of_nat (popcount (u64_at a i XOR u64_at b i))) [0..<n] (0 :: i32)
      in fp_of_int binary32 (sint same))"

definition distance_hamming :: "bytes \<Rightarrow> bytes \<Rightarrow> nat \<Rightarrow> f32" where
  "distance_hamming a b dimensions =
     (let n_bytes = dimensions div 8
      in if dimensions mod 64 = 0 then distance_hamming_u64 a b (n_bytes div 8)
         else distance_hamming_u8 a b n_bytes)"

section \<open>The distance of a column\<close>

definition vec0_distance_full :: "bytes \<Rightarrow> bytes \<Rightarrow> nat \<Rightarrow> VectorElementType \<Rightarrow> Vec0DistanceMetrics \<Rightarrow> f32" where
  "vec0_distance_full a b dimensions elementType metric =
     (case elementType of
        SQLITE_VEC_ELEMENT_TYPE_FLOAT32 \<Rightarrow>
          (case metric of
             VEC0_DISTANCE_METRIC_L2 \<Rightarrow> distance_l2_sqr_float a b dimensions
           | VEC0_DISTANCE_METRIC_COSINE \<Rightarrow> distance_cosine_float a b dimensions
           | VEC0_DISTANCE_METRIC_L1 \<Rightarrow> to_f32 (distance_l1_f32 a b dimensions))
      | SQLITE_VEC_ELEMENT_TYPE_INT8 \<Rightarrow>
          (case metric of
             VEC0_DISTANCE_METRIC_L2 \<Rightarrow> distance_l2_sqr_int8 a b dimensions
           | VEC0_DISTANCE_METRIC_COSINE \<Rightarrow> distance_cosine_int8 a b dimensions
           | VEC0_DISTANCE_METRIC_L1 \<Rightarrow> fp_of_int binary32 (sint (distance_l1_int8 a b dimensions)))
      | SQLITE_VEC_ELEMENT_TYPE_BIT \<Rightarrow> distance_hamming a b dimensions)"

section \<open>Hamming distance counts the differing bits\<close>

definition bit_at :: "bytes \<Rightarrow> nat \<Rightarrow> bool" where
  "bit_at bs i = bit (bs ! (i div 8)) (i mod 8)"

definition hamming_spec :: "bytes \<Rightarrow> bytes \<Rightarrow> nat \<Rightarrow> nat" where
  "hamming_spec a b d = length (filter (\<lambda>i. bit_at a i \<noteq> bit_at b i) [0..<d])"

fun doubled :: "nat list \<Rightarrow> nat list" where
  "doubled [] = []"
| "doubled (t # ts) = t # Suc t # doubled ts"

lemma nth_doubled: "n < length ts \<Longrightarrow> doubled ts ! (2 * n) = ts ! n \<and> doubled ts ! Suc (2 * n) = Suc (ts ! n)"
  by (induction ts arbitrary: n) (auto simp: less_Suc_eq_0_disj)

lemma hamdist_table_doubled: "hamdist_table = doubled (take 128 hamdist_table)"
  by (simp add: hamdist_table_def)

lemma length_filter_upt_Suc: "length (filter P [0..<Suc n]) = (if P 0 then 1 else 0) + length (filter (\<lambda>i. P (Suc i)) [0..<n])"
  by (simp add: upt_conv_Cons map_Suc_upt [symmetric] filter_map comp_def del: upt_Suc)

lemma table_bits: "n < 256 \<Longrightarrow> hamdist_table ! n = length (filter (\<lambda>i. odd (n div 2 ^ i)) [0..<k])" if "n < 2 ^ k"
  using that
proof (induction k arbitrary: n)
  case 0
  then show ?case by (simp add: hamdist_table_def)
next
  case (Suc k)
  let ?h = "n div 2"
  have "length (take 128 hamdist_table) = 128" by (simp add: hamdist_table_def)
  then have h: "hamdist_table ! n = hamdist_table ! ?h + n mod 2"
    using nth_doubled [of ?h "take 128 hamdist_table"] Suc.prems
    by (cases "even n") (auto simp flip: hamdist_table_doubled elim!: evenE oddE)
  have "?h < 256" "?h < 2 ^ k" using Suc.prems by auto
  with Suc.IH [of ?h] have "hamdist_table ! ?h = length (filter (\<lambda>i. odd (?h div 2 ^ i)) [0..<k])" by simp
  with h show ?case
    by (simp only: length_filter_upt_Suc) (simp add: div_mult2_eq odd_iff_mod_2_eq_one)
qed

lemma hamdist_table_popcount: "hamdist_table ! unat (w :: u8) = popcount w"
proof -
  have "unat w < 256" using unsigned_less [of w] by simp
  then have "hamdist_table ! unat w = length (filter (\<lambda>i. odd (unat w div 2 ^ i)) [0..<8])"
    using table_bits [of "unat w" 8] by simp
  also have "(\<lambda>i. odd (unat w div 2 ^ i)) = bit w"
    by (simp add: fun_eq_iff bit_unsigned_iff flip: bit_iff_odd)
  finally show ?thesis by (simp add: popcount_def)
qed

lemma bit_le_word:
  "bit (le_word bs :: 'a::len word) k \<longleftrightarrow> k < LENGTH('a) \<and> k < 8 * length bs \<and> bit (bs ! (k div 8)) (k mod 8)"
proof (induction bs arbitrary: k)
  case (Cons b bs)
  show ?case
  proof (cases "k < 8")
    case True
    then show ?thesis by (simp add: bit_or_iff bit_push_bit_iff bit_ucast_iff)
  next
    case False
    then have "k div 8 = Suc ((k - 8) div 8)" "k mod 8 = (k - 8) mod 8"
      by (simp_all add: div_if mod_if le_mod_geq)
    moreover have "\<not> bit b k" using False bit_imp_le_length [of b k] by auto
    ultimately show ?thesis
      using False by (auto simp: bit_or_iff bit_push_bit_iff bit_ucast_iff Cons.IH)
  qed
qed simp

lemma fold_of_nat:
  "fold (\<lambda>i s. s + of_nat (f i)) [0..<n] (0 :: 'a::semiring_1) = of_nat (\<Sum>i<n. f i)"
  by (induction n) (simp_all add: add.commute)

lemma sum_blocks:
  assumes "\<And>i. i < n \<Longrightarrow> f i = length (filter (\<lambda>j. D (k * i + j)) [0..<k])"
  shows "(\<Sum>i<n. f i) = length (filter D [0..<k * n])"
  using assms
proof (induction n)
  case (Suc n)
  have "[0..<k * n + k] = [0..<k * n] @ [k * n..<k * n + k]" by (rule upt_add_eq_append) simp
  moreover have "[k * n..<k * n + k] = map (\<lambda>j. k * n + j) [0..<k]"
    by (rule nth_equalityI) simp_all
  ultimately have "[0..<k * Suc n] = [0..<k * n] @ map (\<lambda>j. k * n + j) [0..<k]" by (simp add: add.commute)
  moreover have "f n = length (filter D (map (\<lambda>j. k * n + j) [0..<k]))"
    using Suc.prems [of n] by (simp add: filter_map comp_def)
  moreover have "(\<Sum>i<n. f i) = length (filter D [0..<k * n])" using Suc by simp
  ultimately show ?case by (simp del: upt_Suc mult_Suc_right)
qed simp

lemma popcount_xor: "popcount (v XOR w :: 'a::len word) = length (filter (\<lambda>j. bit v j \<noteq> bit w j) [0..<LENGTH('a)])"
  by (simp add: popcount_def bit_xor_iff cong: filter_cong)

lemma hamming_u8_count:
  "(\<Sum>i<n. hamdist_table ! unat (a ! i XOR b ! i)) = hamming_spec a b (8 * n)"
  unfolding hamming_spec_def
proof (rule sum_blocks)
  fix i
  have "filter (\<lambda>j. bit (a ! i) j \<noteq> bit (b ! i) j) [0..<8]
      = filter (\<lambda>j. bit_at a (8 * i + j) \<noteq> bit_at b (8 * i + j)) [0..<8]"
    by (intro filter_cong) (auto simp: bit_at_def)
  then show "hamdist_table ! unat (a ! i XOR b ! i)
      = length (filter (\<lambda>j. bit_at a (8 * i + j) \<noteq> bit_at b (8 * i + j)) [0..<8])"
    by (simp add: hamdist_table_popcount popcount_xor)
qed

lemma bit_u64_at:
  assumes "8 * i + 8 \<le> length bs" and "j < 64"
  shows "bit (u64_at bs i) j = bit_at bs (64 * i + j)"
proof -
  have d: "j div 8 < 8" using assms(2) by auto
  have "length (take 8 (drop (8 * i) bs)) = 8" using assms(1) by simp
  moreover have "take 8 (drop (8 * i) bs) ! (j div 8) = bs ! (8 * i + j div 8)"
    using assms d by (simp add: nth_take)
  moreover have "64 * i + j = 8 * (8 * i) + j" by simp
  then have "(64 * i + j) div 8 = 8 * i + j div 8" "(64 * i + j) mod 8 = j mod 8"
    by (simp_all only: div_mult_self4 mod_mult_self4)
  ultimately show ?thesis using assms(2) by (simp add: u64_at_def bit_le_word bit_at_def)
qed

lemma hamming_u64_count:
  assumes "8 * n \<le> length a" and "8 * n \<le> length b"
  shows "(\<Sum>i<n. popcount (u64_at a i XOR u64_at b i)) = hamming_spec a b (64 * n)"
  unfolding hamming_spec_def
proof (rule sum_blocks)
  fix i assume "i < n"
  then have "8 * i + 8 \<le> length a" "8 * i + 8 \<le> length b" using assms by auto
  then have "filter (\<lambda>j. bit (u64_at a i) j \<noteq> bit (u64_at b i) j) [0..<64]
      = filter (\<lambda>j. bit_at a (64 * i + j) \<noteq> bit_at b (64 * i + j)) [0..<64]"
    by (intro filter_cong) (simp_all add: bit_u64_at)
  then show "popcount (u64_at a i XOR u64_at b i)
      = length (filter (\<lambda>j. bit_at a (64 * i + j) \<noteq> bit_at b (64 * i + j)) [0..<64])"
    by (simp add: popcount_xor)
qed

lemma hamming_spec_le: "hamming_spec a b d \<le> d"
  by (simp add: hamming_spec_def filter_upt_length_le)

lemma sint_count: "n < 2 ^ 31 \<Longrightarrow> sint (of_nat n :: i32) = int n"
  by (simp add: sint_uint unsigned_of_nat take_bit_nat_eq_self signed_take_bit_int_eq_self take_bit_int_eq_self)

lemma distance_hamming_count:
  assumes "d < 2 ^ 31" and "8 dvd d" and "d div 8 \<le> length a" and "d div 8 \<le> length b"
  shows "distance_hamming a b d = fp_of_int binary32 (int (hamming_spec a b d))"
proof (cases "d mod 64 = 0")
  case True
  then obtain n where n: "d = 64 * n" by auto
  then have "d div 8 = 8 * n" "d div 8 div 8 = n" by simp_all
  then show ?thesis
    using assms True hamming_u64_count [of n a b] hamming_spec_le [of a b d]
    by (simp add: distance_hamming_def distance_hamming_u64_def Let_def fold_of_nat sint_count n del: of_nat_sum)
next
  case False
  obtain n where "d = 8 * n" using assms(2) by (elim dvdE)
  then show ?thesis
    using assms False hamming_u8_count [of a b n] hamming_spec_le [of a b d]
    by (simp add: distance_hamming_def distance_hamming_u8_def Let_def fold_of_nat sint_count del: of_nat_sum)
qed

section \<open>Symmetry and the distance of a vector to itself\<close>

lemma hamming_spec_self: "hamming_spec a a d = 0"
  by (simp add: hamming_spec_def)

lemma hamming_spec_sym: "hamming_spec a b d = hamming_spec b a d"
  unfolding hamming_spec_def by (rule arg_cong [where f = length], rule filter_cong) auto

lemma hamming_spec_triangle: "hamming_spec a c d \<le> hamming_spec a b d + hamming_spec b c d"
  unfolding hamming_spec_def by (induction d) auto

lemma scaled_neg: "scaled (\<not> s) m e b = - scaled s m e b"
  by (simp add: scaled_def)

text \<open>Swapping the operands of a difference changes at most its sign, which squaring forgets.\<close>

lemma fp_round_mag: "fp_abs (fp_round f s m e) = fp_abs (fp_round f (\<not> s) m e)"
  by (simp add: fp_round_def Let_def)

lemma fp_sub_swap: "fp_abs (fp_sub f a b) = fp_abs (fp_sub f b a)"
proof (cases a; cases b)
  fix s m e t n g
  assume ab: "a = FFin s m e" "b = FFin t n g"
  define v where "v = scaled s m e (min e g) + scaled (\<not> t) n g (min e g)"
  have w: "scaled t n g (min g e) + scaled (\<not> s) m e (min g e) = - v"
    by (simp add: v_def scaled_neg min.commute)
  show ?thesis
  proof (cases "v = 0")
    case True
    with w show ?thesis by (simp add: ab fp_sub_def Let_def v_def [symmetric])
  next
    case False
    then have "(- v < 0) = (\<not> v < 0)" "nat \<bar>- v\<bar> = nat \<bar>v\<bar>" by auto
    with False w show ?thesis
      using fp_round_mag [of f "v < 0" "nat \<bar>v\<bar>" "min e g"]
      by (simp add: ab fp_sub_def Let_def v_def [symmetric] min.commute)
  qed
qed (auto simp: fp_sub_def)

lemma fp_square_abs: "fp_mul f x x = fp_mul f (fp_abs x) (fp_abs x)"
  by (cases x) auto

lemma fp_square_sub_swap: "fp_mul f (fp_sub f a b) (fp_sub f a b) = fp_mul f (fp_sub f b a) (fp_sub f b a)"
  by (metis fp_square_abs fp_sub_swap)

lemma fp_of_int_neg_abs: "fp_abs (fp_of_int f (- i)) = fp_abs (fp_of_int f i)"
  by (cases "i = 0"; cases "i < 0") (simp_all add: fp_of_int_def fp_round_mag [of f "True"])

lemma int8_square_swap:
  "fp_mul f (fp_of_int f (x - y)) (fp_of_int f (x - y)) = fp_mul f (fp_of_int f (y - x)) (fp_of_int f (y - x))"
  using fp_of_int_neg_abs [of f "x - y"] by (metis fp_square_abs minus_diff_eq)

lemma differ_commute: "(s = (\<not> t)) = (t = (\<not> s))"
  by auto

lemma fp_mul_commute: "fp_mul f x y = fp_mul f y x"
  by (cases x; cases y) (simp_all add: mult.commute add.commute differ_commute)

lemma cosine_fold_swap:
  assumes "\<And>i. p i = p' i"
  shows "fold (\<lambda>i (d, x, y). (f d (p i), g x (q i), g y (r i))) is (d0, x0, y0) = (d, x, y) \<longleftrightarrow>
         fold (\<lambda>i (d, x, y). (f d (p' i), g x (r i), g y (q i))) is (d0, y0, x0) = (d, y, x)"
  using assms by (induction "is" arbitrary: d0 x0 y0) auto

lemma cosine_result_commute: "cosine_result d x y = cosine_result d y x"
  by (simp add: cosine_result_def fp_mul_commute)

lemma distance_l2_float_sym: "distance_l2_sqr_float a b d = distance_l2_sqr_float b a d"
  by (simp add: distance_l2_sqr_float_def l2_sqr_float_def Let_def fp_square_sub_swap)

lemma distance_l2_int8_sym: "distance_l2_sqr_int8 a b d = distance_l2_sqr_int8 b a d"
  unfolding distance_l2_sqr_int8_def l2_sqr_int8_def Let_def by (subst int8_square_swap) simp

lemma distance_l1_f32_sym: "distance_l1_f32 a b d = distance_l1_f32 b a d"
  unfolding distance_l1_f32_def l1_f32_def by (subst fp_sub_swap) simp

lemma distance_l1_int8_sym: "distance_l1_int8 a b d = distance_l1_int8 b a d"
  unfolding distance_l1_int8_def l1_int8_def by (subst abs_minus_commute) simp

lemma distance_cosine_float_sym: "distance_cosine_float a b d = distance_cosine_float b a d"
  unfolding distance_cosine_float_def Let_def
  using cosine_fold_swap [of "\<lambda>i. f32_mul (f32_at a i) (f32_at b i)" "\<lambda>i. f32_mul (f32_at b i) (f32_at a i)"
      f32_add f32_add "\<lambda>i. f32_mul (f32_at a i) (f32_at a i)" "\<lambda>i. f32_mul (f32_at b i) (f32_at b i)" "[0..<d]" fp0 fp0 fp0]
  by (auto simp: fp_mul_commute cosine_result_commute split: prod.split)

lemma distance_cosine_int8_sym: "distance_cosine_int8 a b d = distance_cosine_int8 b a d"
  unfolding distance_cosine_int8_def cosine_int8_def Let_def
  using cosine_fold_swap [of "\<lambda>i. fp_of_int binary32 (i8_at a i * i8_at b i)" "\<lambda>i. fp_of_int binary32 (i8_at b i * i8_at a i)"
      f32_add f32_add "\<lambda>i. fp_of_int binary32 (i8_at a i * i8_at a i)"
      "\<lambda>i. fp_of_int binary32 (i8_at b i * i8_at b i)" "[0..<d]" fp0 fp0 fp0]
  by (auto simp: mult.commute cosine_result_commute split: prod.split)

lemma distance_hamming_sym: "distance_hamming a b d = distance_hamming b a d"
  unfolding distance_hamming_def distance_hamming_u8_def distance_hamming_u64_def Let_def
  by (simp add: xor.commute)

lemmas distance_sym = distance_l2_float_sym distance_l2_int8_sym distance_l1_f32_sym distance_l1_int8_sym
  distance_cosine_float_sym distance_cosine_int8_sym distance_hamming_sym

lemma fp_sub_self: "is_fin x \<Longrightarrow> fp_sub f x x = FFin False 0 (emin f)"
  by (cases x) (auto simp: is_fin_def fp_sub_def scaled_neg)

lemma fp_zero_simps [fp_simps]:
  "fp_round f s 0 e = FFin s 0 (emin f)"
  "scaled s 0 e b = 0"
  "fp_mul f (FFin False 0 e) (FFin False 0 g) = FFin False 0 (emin f)"
  "fp_add f (FFin False 0 e) (FFin False 0 g) = FFin False 0 (emin f)"
  "fp_sqrt f (FFin False 0 e) = FFin False 0 (emin f)"
  "fp_conv f (FFin False 0 e) = FFin False 0 (emin f)"
  "fp_abs (FFin s 0 e) = FFin False 0 e"
  "fp_of_int f 0 = FFin False 0 (emin f)"
  by (simp_all add: fp_round_def scaled_def fp_of_int_def)

lemma fold_const_zero: "(\<And>i. i \<in> set is \<Longrightarrow> f i z = z) \<Longrightarrow> fold f is z = z"
  by (induction "is") auto

lemma l1_int8_sum: "l1_int8 a b d = of_int (\<Sum>i<d. \<bar>i8_at a i - i8_at b i\<bar>)"
  unfolding l1_int8_def by (induction d) (simp_all add: add.commute)

lemma i8_at_bounds: "- 128 \<le> i8_at bs i \<and> i8_at bs i < 128"
  using sint_range_size [of "bs ! i"] by (simp add: i8_at_def size_word_def)

lemma l1_int8_terms: "(\<Sum>i<d. \<bar>i8_at a i - i8_at b i\<bar>) \<le> 255 * int d"
proof (induction d)
  case (Suc d)
  have "\<bar>i8_at a d - i8_at b d\<bar> \<le> 255"
    using i8_at_bounds [of a d] i8_at_bounds [of b d] by linarith
  with Suc show ?case by simp
qed simp

lemma sint_of_int_small: "0 \<le> v \<Longrightarrow> v < 2 ^ 31 \<Longrightarrow> sint (of_int v :: i32) = v"
  by (simp add: signed_of_int signed_take_bit_int_eq_self)

section \<open>Properties of the kernels\<close>

text \<open>C21. The hamming distance of two bit vectors is the number of positions at which they
  differ, whichever of the two routines (eight bytes at a time, or a table look-up per byte) the
  dimension selects, for vectors shorter than 2^31 bits with a whole number of bytes.\<close>

theorem hamming_counts_differing_bits:
  assumes "d < 2 ^ 31" and "8 dvd d" and "d div 8 \<le> length a" and "d div 8 \<le> length b"
  shows "distance_hamming a b d = fp_of_int binary32 (int (card {i. i < d \<and> bit_at a i \<noteq> bit_at b i}))"
proof -
  have "hamming_spec a b d = card (set (filter (\<lambda>i. bit_at a i \<noteq> bit_at b i) [0..<d]))"
    unfolding hamming_spec_def by (rule distinct_card [symmetric]) simp
  also have "set (filter (\<lambda>i. bit_at a i \<noteq> bit_at b i) [0..<d]) = {i. i < d \<and> bit_at a i \<noteq> bit_at b i}" by auto
  finally show ?thesis using distance_hamming_count [OF assms] by simp
qed

theorem hamming_counts_differing_bits_witness:
  "distance_hamming [255, 1] [0, 0] 16
     = fp_of_int binary32 (int (card {i. i < 16 \<and> bit_at [255, 1] i \<noteq> bit_at [0, 0] i}))"
  by (rule hamming_counts_differing_bits) simp_all

text \<open>C24. Every distance of a column is symmetric, bit for bit and whatever the rounding: swapping
  the two vectors gives the same float for each element type and metric.\<close>

theorem distance_full_symmetric:
  "vec0_distance_full a b dimensions elementType metric = vec0_distance_full b a dimensions elementType metric"
  unfolding vec0_distance_full_def using distance_sym by (metis (no_types, lifting))

text \<open>C25. The distance of a vector to itself is exactly zero, for every element type and every
  metric but cosine, if its floats are finite (which every vector that was accepted as an argument
  has).\<close>

theorem distance_full_self:
  assumes "elementType = SQLITE_VEC_ELEMENT_TYPE_FLOAT32 \<Longrightarrow> \<forall>i < dimensions. is_fin (f32_at a i)"
    and "elementType \<noteq> SQLITE_VEC_ELEMENT_TYPE_BIT \<Longrightarrow> metric \<noteq> VEC0_DISTANCE_METRIC_COSINE"
  shows "vec0_distance_full a a dimensions elementType metric = fp0"
proof (cases elementType)
  case SQLITE_VEC_ELEMENT_TYPE_FLOAT32
  then have fin: "is_fin (f32_at a i)" if "i < dimensions" for i using assms(1) that by simp
  then have fin64: "is_fin (to_f64 (f32_at a i))" if "i < dimensions" for i
    using that to_f64_fin f32_at_is_f32 by blast
  have e: "emin binary32 = - 149" by (simp add: binary32_def)
  have l2: "fold (\<lambda>i res. let t = f32_sub (f32_at a i) (f32_at a i) in f32_add res (f32_mul t t)) [0..<dimensions] fp0 = fp0"
    by (rule fold_const_zero) (simp add: fp_sub_self fin fp_simps e)
  have l1: "l1_f32 a a dimensions = FFin False 0 (emin binary64)"
    unfolding l1_f32_def by (rule fold_const_zero) (simp add: fp_sub_self fin64 fp_simps)
  show ?thesis
    using SQLITE_VEC_ELEMENT_TYPE_FLOAT32 assms(2)
    by (cases metric)
      (simp_all add: vec0_distance_full_def distance_l2_sqr_float_def l2_sqr_float_def l2 distance_l1_f32_def l1
        fp_simps e)
next
  case SQLITE_VEC_ELEMENT_TYPE_INT8
  have e: "emin binary32 = - 149" by (simp add: binary32_def)
  have l2: "fold (\<lambda>i res. let t = fp_of_int binary32 (i8_at a i - i8_at a i) in f32_add res (f32_mul t t)) [0..<dimensions] fp0 = fp0"
    by (rule fold_const_zero) (simp add: fp_simps e)
  show ?thesis
    using SQLITE_VEC_ELEMENT_TYPE_INT8 assms(2) l2
    by (cases metric)
      (simp_all add: vec0_distance_full_def distance_l2_sqr_int8_def l2_sqr_int8_def distance_l1_int8_def
        l1_int8_sum fp_simps e)
next
  case SQLITE_VEC_ELEMENT_TYPE_BIT
  have e: "emin binary32 = - 149" by (simp add: binary32_def)
  have z: "popcount (0 :: 'a::len word) = 0" by (simp add: popcount_def)
  have t: "hamdist_table ! 0 = 0" by (simp add: hamdist_table_def)
  show ?thesis
    using SQLITE_VEC_ELEMENT_TYPE_BIT
    by (simp add: vec0_distance_full_def distance_hamming_def distance_hamming_u64_def distance_hamming_u8_def
      fold_const_zero z t fp_simps e Let_def)
qed

theorem distance_full_self_witness:
  "vec0_distance_full [0, 0, 128, 63] [0, 0, 128, 63] 1 SQLITE_VEC_ELEMENT_TYPE_FLOAT32 VEC0_DISTANCE_METRIC_L2 = fp0"
  by (rule distance_full_self)
    (simp_all add: f32_at_def u32_of_le_def f32_of_bits_def is_fin_def)

text \<open>C26. The int8 L1 distance is the sum of the absolute differences as long as the vectors have at
  most 8421504 dimensions, so its 32-bit accumulator does not overflow there.\<close>

theorem l1_int8_exact:
  assumes "d \<le> 8421504"
  shows "sint (distance_l1_int8 a b d) = (\<Sum>i<d. \<bar>i8_at a i - i8_at b i\<bar>)"
proof -
  have "0 \<le> (\<Sum>i<d. \<bar>i8_at a i - i8_at b i\<bar>)" by (rule sum_nonneg) simp
  then show ?thesis
    using l1_int8_terms [of a b d] assms by (simp add: distance_l1_int8_def l1_int8_sum sint_of_int_small del: of_int_sum)
qed

theorem l1_int8_exact_witness:
  "sint (distance_l1_int8 [127, 128] [128, 127] 2) = (\<Sum>i<2. \<bar>i8_at [127, 128] i - i8_at [128, 127] i\<bar>)"
  by (rule l1_int8_exact) simp

end
