(* ===== verification/Scalars.thy ===== *)
theory Scalars
  imports Distances Decimal
begin

text \<open>
  The SQL functions on vectors: \<open>vec_f32\<close>, \<open>vec_bit\<close>, \<open>vec_int8\<close>, \<open>vec_length\<close>, \<open>vec_type\<close>, the four
  distances, \<open>vec_add\<close>, \<open>vec_sub\<close>, \<open>vec_slice\<close>, \<open>vec_to_json\<close>, \<open>vec_normalize\<close> and the two
  quantizers. Each returns what it sets as the result of the SQL call. Releasing the argument
  vectors has no effect on the result and is not modelled.
\<close>

section \<open>Results\<close>

datatype scalar_error = ErrVec vec_error | ErrMsg string | ErrCodeNoMem

datatype sql_result =
    ResBlob bytes nat
  | ResInt int
  | ResDouble f64
  | ResText string nat
  | ResError scalar_error

definition subtype_of :: "VectorElementType \<Rightarrow> nat" where
  "subtype_of t = nat (element_type_code t)"

section \<open>Constructors\<close>

definition vec_f32 :: "(nat \<Rightarrow> int \<Rightarrow> bool) \<Rightarrow> sqlite3_value \<Rightarrow> sql_result" where
  "vec_f32 mem arg = (case fvec_from_value mem arg of
     Inl (rc, e) \<Rightarrow> ResError (ErrVec e)
   | Inr (vector, dimensions) \<Rightarrow> ResBlob (take (dimensions * 4) vector) (subtype_of SQLITE_VEC_ELEMENT_TYPE_FLOAT32))"

definition vec_bit :: "sqlite3_value \<Rightarrow> sql_result" where
  "vec_bit arg = (case bitvec_from_value arg of
     Inl (rc, e) \<Rightarrow> ResError (ErrVec e)
   | Inr (vector, dimensions) \<Rightarrow> ResBlob (take (dimensions div 8) vector) (subtype_of SQLITE_VEC_ELEMENT_TYPE_BIT))"

definition vec_int8 :: "(nat \<Rightarrow> int \<Rightarrow> bool) \<Rightarrow> sqlite3_value \<Rightarrow> sql_result" where
  "vec_int8 mem arg = (case int8_vec_from_value mem arg of
     Inl (rc, e) \<Rightarrow> ResError (ErrVec e)
   | Inr (vector, dimensions) \<Rightarrow> ResBlob (take dimensions vector) (subtype_of SQLITE_VEC_ELEMENT_TYPE_INT8))"

definition vec_length :: "(nat \<Rightarrow> int \<Rightarrow> bool) \<Rightarrow> sqlite3_value \<Rightarrow> sql_result" where
  "vec_length mem arg = (case vector_from_value mem arg of
     Inl (rc, e) \<Rightarrow> ResError (ErrVec e)
   | Inr (vector, dimensions, elementType) \<Rightarrow> ResInt (int dimensions))"

section \<open>Distances\<close>

definition vec_distance_cosine ::
  "(nat \<Rightarrow> int \<Rightarrow> bool) \<Rightarrow> (nat \<Rightarrow> int \<Rightarrow> bool) \<Rightarrow> sqlite3_value \<Rightarrow> sqlite3_value \<Rightarrow> sql_result"
where
  "vec_distance_cosine mem mem' v w = (case ensure_vector_match mem mem' v w of
     Inl (rc, e) \<Rightarrow> ResError (ErrVec e)
   | Inr (a, b, elementType, dimensions) \<Rightarrow>
       (case elementType of
          SQLITE_VEC_ELEMENT_TYPE_BIT \<Rightarrow>
            ResError (ErrMsg ''Cannot calculate cosine distance between two bitvectors.'')
        | SQLITE_VEC_ELEMENT_TYPE_FLOAT32 \<Rightarrow> ResDouble (to_f64 (distance_cosine_float a b dimensions))
        | SQLITE_VEC_ELEMENT_TYPE_INT8 \<Rightarrow> ResDouble (to_f64 (distance_cosine_int8 a b dimensions))))"

definition vec_distance_l2 ::
  "(nat \<Rightarrow> int \<Rightarrow> bool) \<Rightarrow> (nat \<Rightarrow> int \<Rightarrow> bool) \<Rightarrow> sqlite3_value \<Rightarrow> sqlite3_value \<Rightarrow> sql_result"
where
  "vec_distance_l2 mem mem' v w = (case ensure_vector_match mem mem' v w of
     Inl (rc, e) \<Rightarrow> ResError (ErrVec e)
   | Inr (a, b, elementType, dimensions) \<Rightarrow>
       (case elementType of
          SQLITE_VEC_ELEMENT_TYPE_BIT \<Rightarrow>
            ResError (ErrMsg ''Cannot calculate L2 distance between two bitvectors.'')
        | SQLITE_VEC_ELEMENT_TYPE_FLOAT32 \<Rightarrow> ResDouble (to_f64 (distance_l2_sqr_float a b dimensions))
        | SQLITE_VEC_ELEMENT_TYPE_INT8 \<Rightarrow> ResDouble (to_f64 (distance_l2_sqr_int8 a b dimensions))))"

definition vec_distance_l1 ::
  "(nat \<Rightarrow> int \<Rightarrow> bool) \<Rightarrow> (nat \<Rightarrow> int \<Rightarrow> bool) \<Rightarrow> sqlite3_value \<Rightarrow> sqlite3_value \<Rightarrow> sql_result"
where
  "vec_distance_l1 mem mem' v w = (case ensure_vector_match mem mem' v w of
     Inl (rc, e) \<Rightarrow> ResError (ErrVec e)
   | Inr (a, b, elementType, dimensions) \<Rightarrow>
       (case elementType of
          SQLITE_VEC_ELEMENT_TYPE_BIT \<Rightarrow>
            ResError (ErrMsg ''Cannot calculate L1 distance between two bitvectors.'')
        | SQLITE_VEC_ELEMENT_TYPE_FLOAT32 \<Rightarrow> ResDouble (distance_l1_f32 a b dimensions)
        | SQLITE_VEC_ELEMENT_TYPE_INT8 \<Rightarrow> ResInt (sint (distance_l1_int8 a b dimensions))))"

definition vec_distance_hamming ::
  "(nat \<Rightarrow> int \<Rightarrow> bool) \<Rightarrow> (nat \<Rightarrow> int \<Rightarrow> bool) \<Rightarrow> sqlite3_value \<Rightarrow> sqlite3_value \<Rightarrow> sql_result"
where
  "vec_distance_hamming mem mem' v w = (case ensure_vector_match mem mem' v w of
     Inl (rc, e) \<Rightarrow> ResError (ErrVec e)
   | Inr (a, b, elementType, dimensions) \<Rightarrow>
       (case elementType of
          SQLITE_VEC_ELEMENT_TYPE_BIT \<Rightarrow> ResDouble (to_f64 (distance_hamming a b dimensions))
        | SQLITE_VEC_ELEMENT_TYPE_FLOAT32 \<Rightarrow>
            ResError (ErrMsg ''Cannot calculate hamming distance between two float32 vectors.'')
        | SQLITE_VEC_ELEMENT_TYPE_INT8 \<Rightarrow>
            ResError (ErrMsg ''Cannot calculate hamming distance between two int8 vectors.'')))"

definition vec_type_name :: "VectorElementType \<Rightarrow> string" where
  "vec_type_name elementType = (case elementType of
     SQLITE_VEC_ELEMENT_TYPE_FLOAT32 \<Rightarrow> ''float32''
   | SQLITE_VEC_ELEMENT_TYPE_INT8 \<Rightarrow> ''int8''
   | SQLITE_VEC_ELEMENT_TYPE_BIT \<Rightarrow> ''bit'')"

definition vec_type :: "(nat \<Rightarrow> int \<Rightarrow> bool) \<Rightarrow> sqlite3_value \<Rightarrow> sql_result" where
  "vec_type mem arg = (case vector_from_value mem arg of
     Inl (rc, e) \<Rightarrow> ResError (ErrVec e)
   | Inr (vector, dimensions, elementType) \<Rightarrow> ResText (vec_type_name elementType) 0)"

section \<open>Quantizers\<close>

text \<open>The loop that sets bit \<open>i\<close> of the zeroed output when the test of element \<open>i\<close> holds.\<close>

definition quantize_bits :: "(nat \<Rightarrow> bool) \<Rightarrow> nat \<Rightarrow> bytes" where
  "quantize_bits res dimensions =
     fold (\<lambda>i out. out[i div 8 := out ! (i div 8) OR push_bit (i mod 8) (of_bool (res i))])
       [0..<dimensions] (replicate (dimensions div 8) 0)"

definition vec_quantize_binary :: "(nat \<Rightarrow> int \<Rightarrow> bool) \<Rightarrow> sqlite3_value \<Rightarrow> sql_result" where
  "vec_quantize_binary mem arg = (case vector_from_value mem arg of
     Inl (rc, e) \<Rightarrow> ResError (ErrVec e)
   | Inr (vector, dimensions, elementType) \<Rightarrow>
       if dimensions = 0 then ResError (ErrMsg ''Zero length vectors are not supported.'')
       else if dimensions mod 8 \<noteq> 0
       then ResError (ErrMsg ''Binary quantization requires vectors with a length divisible by 8'')
       else if \<not> sqlite3_malloc mem 2 (int32_of (int (dimensions div 8))) then ResError ErrCodeNoMem
       else (case elementType of
          SQLITE_VEC_ELEMENT_TYPE_FLOAT32 \<Rightarrow>
            ResBlob (quantize_bits (\<lambda>i. fp_lt fp0 (f32_at vector i)) dimensions)
              (subtype_of SQLITE_VEC_ELEMENT_TYPE_BIT)
        | SQLITE_VEC_ELEMENT_TYPE_INT8 \<Rightarrow>
            ResBlob (quantize_bits (\<lambda>i. 0 < i8_at vector i) dimensions)
              (subtype_of SQLITE_VEC_ELEMENT_TYPE_BIT)
        | SQLITE_VEC_ELEMENT_TYPE_BIT \<Rightarrow>
            ResError (ErrMsg ''Can only binary quantize float or int8 vectors'')))"

text \<open>
  One element of the int8 quantization: scaled in \<open>double\<close> with a \<open>float\<close> step, clamped, and
  truncated. \<open>!(val <= 127.0)\<close> also holds of NaN.
\<close>

definition int8_step :: f32 where
  "int8_step = to_f32 (f64_div (f64_sub (fp_of_int binary64 1) (fp_of_int binary64 (- 1))) (fp_of_int binary64 255))"

definition quantize_int8_unit :: "f32 \<Rightarrow> int" where
  "quantize_int8_unit x =
     (let val = f64_sub (f64_div (f64_sub (to_f64 x) (fp_of_int binary64 (- 1))) (to_f64 int8_step))
                  (fp_of_int binary64 128);
          val = (if \<not> fp_le val (fp_of_int binary64 127) then fp_of_int binary64 127 else val);
          val = (if \<not> fp_le (fp_of_int binary64 (- 128)) val then fp_of_int binary64 (- 128) else val)
      in fp_trunc val)"

text \<open>\<open>nicmp\<close> on four bytes stands for \<open>sqlite3_stricmp\<close> with a text of four bytes.\<close>

definition vec_quantize_int8 ::
  "(string \<Rightarrow> string \<Rightarrow> nat \<Rightarrow> bool) \<Rightarrow> (nat \<Rightarrow> int \<Rightarrow> bool) \<Rightarrow> sqlite3_value \<Rightarrow> sqlite3_value \<Rightarrow> sql_result"
where
  "vec_quantize_int8 nicmp mem arg mode = (case fvec_from_value mem arg of
     Inl (rc, e) \<Rightarrow> ResError (ErrVec e)
   | Inr (srcVector, dimensions) \<Rightarrow>
       if \<not> sqlite3_malloc mem 2 (int32_of (int dimensions)) then ResError ErrCodeNoMem
       else if value_type mode \<noteq> SQLITE_TEXT \<or> value_bytes mode \<noteq> 4 \<or> \<not> nicmp (value_text mode) ''unit'' 4
       then ResError (ErrMsg ''2nd argument to vec_quantize_int8() must be 'unit'.'')
       else ResBlob (map (\<lambda>i. of_int (quantize_int8_unit (f32_at srcVector i))) [0..<dimensions])
              (subtype_of SQLITE_VEC_ELEMENT_TYPE_INT8))"

section \<open>Arithmetic\<close>

definition vec_add ::
  "(nat \<Rightarrow> int \<Rightarrow> bool) \<Rightarrow> (nat \<Rightarrow> int \<Rightarrow> bool) \<Rightarrow> sqlite3_value \<Rightarrow> sqlite3_value \<Rightarrow> sql_result"
where
  "vec_add mem mem' v w = (case ensure_vector_match mem mem' v w of
     Inl (rc, e) \<Rightarrow> ResError (ErrVec e)
   | Inr (a, b, elementType, dimensions) \<Rightarrow>
       (case elementType of
          SQLITE_VEC_ELEMENT_TYPE_BIT \<Rightarrow> ResError (ErrMsg ''Cannot add two bitvectors together.'')
        | SQLITE_VEC_ELEMENT_TYPE_FLOAT32 \<Rightarrow>
            if \<not> sqlite3_malloc mem 2 (int32_of (int (dimensions * 4))) then ResError ErrCodeNoMem
            else ResBlob (f32_bytes (map (\<lambda>i. f32_add (f32_at a i) (f32_at b i)) [0..<dimensions]))
                   (subtype_of SQLITE_VEC_ELEMENT_TYPE_FLOAT32)
        | SQLITE_VEC_ELEMENT_TYPE_INT8 \<Rightarrow>
            if \<not> sqlite3_malloc mem 2 (int32_of (int dimensions)) then ResError ErrCodeNoMem
            else ResBlob (map (\<lambda>i. of_int (i8_at a i + i8_at b i)) [0..<dimensions])
                   (subtype_of SQLITE_VEC_ELEMENT_TYPE_INT8)))"

definition vec_sub ::
  "(nat \<Rightarrow> int \<Rightarrow> bool) \<Rightarrow> (nat \<Rightarrow> int \<Rightarrow> bool) \<Rightarrow> sqlite3_value \<Rightarrow> sqlite3_value \<Rightarrow> sql_result"
where
  "vec_sub mem mem' v w = (case ensure_vector_match mem mem' v w of
     Inl (rc, e) \<Rightarrow> ResError (ErrVec e)
   | Inr (a, b, elementType, dimensions) \<Rightarrow>
       (case elementType of
          SQLITE_VEC_ELEMENT_TYPE_BIT \<Rightarrow> ResError (ErrMsg ''Cannot subtract two bitvectors together.'')
        | SQLITE_VEC_ELEMENT_TYPE_FLOAT32 \<Rightarrow>
            if \<not> sqlite3_malloc mem 2 (int32_of (int (dimensions * 4))) then ResError ErrCodeNoMem
            else ResBlob (f32_bytes (map (\<lambda>i. f32_sub (f32_at a i) (f32_at b i)) [0..<dimensions]))
                   (subtype_of SQLITE_VEC_ELEMENT_TYPE_FLOAT32)
        | SQLITE_VEC_ELEMENT_TYPE_INT8 \<Rightarrow>
            if \<not> sqlite3_malloc mem 2 (int32_of (int dimensions)) then ResError ErrCodeNoMem
            else ResBlob (map (\<lambda>i. of_int (i8_at a i - i8_at b i)) [0..<dimensions])
                   (subtype_of SQLITE_VEC_ELEMENT_TYPE_INT8)))"

definition vec_slice ::
  "(nat \<Rightarrow> int \<Rightarrow> bool) \<Rightarrow> sqlite3_value \<Rightarrow> sqlite3_value \<Rightarrow> sqlite3_value \<Rightarrow> sql_result"
where
  "vec_slice mem arg startv endv = (case vector_from_value mem arg of
     Inl (rc, e) \<Rightarrow> ResError (ErrVec e)
   | Inr (vector, dimensions, elementType) \<Rightarrow>
       let start = value_int startv; end = value_int endv
       in if start < 0 then ResError (ErrMsg ''slice 'start' index must be a postive number.'')
       else if end < 0 then ResError (ErrMsg ''slice 'end' index must be a postive number.'')
       else if dimensions < nat start
       then ResError (ErrMsg ''slice 'start' index is greater than the number of dimensions'')
       else if dimensions < nat end
       then ResError (ErrMsg ''slice 'end' index is greater than the number of dimensions'')
       else if end < start then ResError (ErrMsg ''slice 'start' index is greater than 'end' index'')
       else if start = end
       then ResError (ErrMsg ''slice 'start' index is equal to the 'end' index, vectors must have non-zero length'')
       else let n = nat (end - start); s = nat start
       in (case elementType of
          SQLITE_VEC_ELEMENT_TYPE_FLOAT32 \<Rightarrow>
            if \<not> sqlite3_malloc mem 2 (int32_of (int (n * 4))) then ResError ErrCodeNoMem
            else ResBlob (f32_bytes (map (\<lambda>i. f32_at vector (s + i)) [0..<n]))
                   (subtype_of SQLITE_VEC_ELEMENT_TYPE_FLOAT32)
        | SQLITE_VEC_ELEMENT_TYPE_INT8 \<Rightarrow>
            if \<not> sqlite3_malloc mem 2 (int32_of (int n)) then ResError ErrCodeNoMem
            else ResBlob (map (\<lambda>i. vector ! (s + i)) [0..<n]) (subtype_of SQLITE_VEC_ELEMENT_TYPE_INT8)
        | SQLITE_VEC_ELEMENT_TYPE_BIT \<Rightarrow>
            if start mod 8 \<noteq> 0 then ResError (ErrMsg ''start index must be divisible by 8.'')
            else if end mod 8 \<noteq> 0 then ResError (ErrMsg ''end index must be divisible by 8.'')
            else if \<not> sqlite3_malloc mem 2 (int32_of (int (n div 8))) then ResError ErrCodeNoMem
            else ResBlob (map (\<lambda>i. vector ! (s div 8 + i)) [0..<n div 8])
                   (subtype_of SQLITE_VEC_ELEMENT_TYPE_BIT)))"

section \<open>JSON\<close>

text \<open>
  \<open>%d\<close> prints the decimal digits after a minus sign; \<open>fmt\<close> is SQLite's \<open>%f\<close>, and \<open>mem\<close> at site 2 says
  whether the string builder had the memory it needed.
\<close>

definition print_int :: "int \<Rightarrow> string" where
  "print_int i = (if i < 0 then CHR ''-'' # decimal (nat (- i)) else decimal (nat i))"

definition bit_lsb :: "bytes \<Rightarrow> nat \<Rightarrow> int" where
  "bit_lsb vector i = uint (drop_bit (i mod 8) (vector ! (i div 8)) AND 1)"

definition json_element :: "(f64 \<Rightarrow> string) \<Rightarrow> VectorElementType \<Rightarrow> bytes \<Rightarrow> nat \<Rightarrow> string" where
  "json_element fmt elementType vector i = (case elementType of
     SQLITE_VEC_ELEMENT_TYPE_FLOAT32 \<Rightarrow>
       (let value = f32_at vector i in if isnan value then ''null'' else fmt (to_f64 value))
   | SQLITE_VEC_ELEMENT_TYPE_INT8 \<Rightarrow> print_int (i8_at vector i)
   | SQLITE_VEC_ELEMENT_TYPE_BIT \<Rightarrow> print_int (bit_lsb vector i))"

definition json_text :: "(f64 \<Rightarrow> string) \<Rightarrow> VectorElementType \<Rightarrow> bytes \<Rightarrow> nat \<Rightarrow> string" where
  "json_text fmt elementType vector dimensions =
     fold (\<lambda>i str. (if i \<noteq> 0 then str @ '','' else str) @ json_element fmt elementType vector i)
       [0..<dimensions] ''['' @ '']''"

definition vec_to_json :: "(f64 \<Rightarrow> string) \<Rightarrow> (nat \<Rightarrow> int \<Rightarrow> bool) \<Rightarrow> sqlite3_value \<Rightarrow> sql_result" where
  "vec_to_json fmt mem arg = (case vector_from_value mem arg of
     Inl (rc, e) \<Rightarrow> ResError (ErrVec e)
   | Inr (vector, dimensions, elementType) \<Rightarrow>
       let str = json_text fmt elementType vector dimensions
       in if mem 2 (int (length str)) then ResText str JSON_SUBTYPE else ResError ErrCodeNoMem)"

section \<open>Normalization\<close>

definition vec_norm :: "bytes \<Rightarrow> nat \<Rightarrow> f32" where
  "vec_norm v dimensions =
     (let norm = fold (\<lambda>i norm. f32_add norm (f32_mul (f32_at v i) (f32_at v i))) [0..<dimensions] fp0
      in to_f32 (f64_sqrt (to_f64 norm)))"

definition vec_normalize :: "(nat \<Rightarrow> int \<Rightarrow> bool) \<Rightarrow> sqlite3_value \<Rightarrow> sql_result" where
  "vec_normalize mem arg = (case vector_from_value mem arg of
     Inl (rc, e) \<Rightarrow> ResError (ErrVec e)
   | Inr (v, dimensions, elementType) \<Rightarrow>
       if elementType \<noteq> SQLITE_VEC_ELEMENT_TYPE_FLOAT32
       then ResError (ErrMsg ''only float32 vectors are supported when normalizing'')
       else if \<not> sqlite3_malloc mem 2 (int32_of (int (dimensions * 4))) then ResError ErrCodeNoMem
       else let norm = vec_norm v dimensions
            in ResBlob (f32_bytes (map (\<lambda>i. fp_div binary32 (f32_at v i) norm) [0..<dimensions]))
                 (subtype_of SQLITE_VEC_ELEMENT_TYPE_FLOAT32))"

section \<open>\<open>vec_each\<close>\<close>

record vec_each_cursor =
  each_iRowid :: int
  each_type :: VectorElementType
  each_vector :: "bytes option"
  each_dimensions :: nat

text \<open>A constraint as \<open>xBestIndex\<close> gets it: its column, whether it is an equality, whether it is usable.\<close>

type_synonym each_constraint = "nat \<times> bool \<times> bool"

text \<open>The indexes of the constraints passed on as argument 1 and omitted, or \<open>SQLITE_CONSTRAINT\<close>.\<close>

definition vec_eachBestIndex :: "each_constraint list \<Rightarrow> nat list result" where
  "vec_eachBestIndex cons =
     (let used = filter (\<lambda>i. case cons ! i of (col, eq, usable) \<Rightarrow> col = 1 \<and> eq \<and> usable) [0..<length cons]
      in if used = [] then Inl SQLITE_CONSTRAINT else Inr used)"

definition vec_eachOpen :: "VectorElementType \<Rightarrow> vec_each_cursor" where
  "vec_eachOpen zero_type =
     \<lparr>each_iRowid = 0, each_type = zero_type, each_vector = None, each_dimensions = 0\<rparr>"

definition vec_eachFilter ::
  "(nat \<Rightarrow> int \<Rightarrow> bool) \<Rightarrow> vec_each_cursor \<Rightarrow> sqlite3_value \<Rightarrow> sqlite_rc option \<times> vec_each_cursor"
where
  "vec_eachFilter mem pCur arg =
     (let pCur = pCur\<lparr>each_vector := None\<rparr>
      in case vector_from_value mem arg of
           Inl e \<Rightarrow> (Some SQLITE_ERROR, pCur)
         | Inr (vector, dimensions, elementType) \<Rightarrow>
             (None, \<lparr>each_iRowid = 0, each_type = elementType, each_vector = Some vector,
                     each_dimensions = dimensions\<rparr>))"

definition vec_eachRowid :: "vec_each_cursor \<Rightarrow> int" where
  "vec_eachRowid pCur = each_iRowid pCur"

definition vec_eachEof :: "vec_each_cursor \<Rightarrow> bool" where
  "vec_eachEof pCur \<longleftrightarrow> int (each_dimensions pCur) \<le> each_iRowid pCur"

definition vec_eachNext :: "vec_each_cursor \<Rightarrow> vec_each_cursor" where
  "vec_eachNext pCur = pCur\<lparr>each_iRowid := each_iRowid pCur + 1\<rparr>"

definition vec_eachColumn :: "vec_each_cursor \<Rightarrow> sql_result" where
  "vec_eachColumn pCur =
     (let vector = the (each_vector pCur); i = nat (each_iRowid pCur)
      in case each_type pCur of
           SQLITE_VEC_ELEMENT_TYPE_FLOAT32 \<Rightarrow> ResDouble (to_f64 (f32_at vector i))
         | SQLITE_VEC_ELEMENT_TYPE_BIT \<Rightarrow>
             ResInt (if 0 < (vector ! (i div 8) AND drop_bit (i mod 8) 128) then 1 else 0)
         | SQLITE_VEC_ELEMENT_TYPE_INT8 \<Rightarrow> ResInt (i8_at vector i))"

text \<open>Reading the table: the values of column \<open>value\<close> from the cursor on.\<close>

function vec_each_rows :: "vec_each_cursor \<Rightarrow> sql_result list" where
  "vec_each_rows pCur =
     (if vec_eachEof pCur then [] else vec_eachColumn pCur # vec_each_rows (vec_eachNext pCur))"
  by auto
termination
  by (relation "measure (\<lambda>c. nat (int (each_dimensions c) - each_iRowid c))")
    (auto simp: vec_eachEof_def vec_eachNext_def)

declare vec_each_rows.simps [simp del]

end
