(* ===== verification/ScalarFacts.thy ===== *)
theory ScalarFacts
  imports Scalars
begin

text \<open>
  What the SQL functions on vectors guarantee: no accepted \<open>float\<close> vector holds a NaN or an infinity,
  JSON round trips, the bits of a quantized vector, the rows of \<open>vec_each\<close>, slices, and the vectors
  that cannot be normalized.
\<close>

section \<open>Accepted vectors\<close>

lemma array_append_set: "set (arr_z (snd (array_append mem site x e))) \<subseteq> insert e (set (arr_z x))"
  by (auto simp: array_append_def Let_def)

lemma fvec_loop_finite:
  assumes "fvec_json_loop mem x ptr = Inr x'" and "\<forall>y \<in> set (arr_z x). is_f32 y \<and> is_fin y"
  shows "\<forall>y \<in> set (arr_z x'). is_f32 y \<and> is_fin y"
  using assms
proof (induction mem x ptr rule: fvec_json_loop.induct)
  case (1 mem x ptr)
  obtain v e er where s: "strtod ptr = (v, e, er)" by (rule prod_cases3)
  define x2 where "x2 = snd (array_append mem 1 x (to_f32 v))"
  obtain cl rest where j: "json_separators e = (cl, rest)" by fastforce
  note run = "1.prems"(1) [unfolded fvec_json_loop.simps [of mem x ptr] s Let_def prod.case x2_def [symmetric] j]
  show ?case
  proof (cases "ptr = [] \<or> er \<or> e = ptr \<or> isnan (to_f32 v) \<or> isinf (to_f32 v)")
    case True
    with run "1.prems"(2) show ?thesis by (auto split: if_splits)
  next
    case False
    then have "is_fin (to_f32 v)" by (simp add: is_fin_def)
    then have ok: "\<forall>y \<in> set (arr_z x2). is_f32 y \<and> is_fin y"
      using "1.prems"(2) array_append_set [of mem 1 x "to_f32 v"] fp_ops_is_f32 by (fastforce simp: x2_def)
    show ?thesis
    proof (cases cl)
      case True
      with run False ok show ?thesis by simp
    next
      case not_closed: False
      have "fvec_json_loop mem x2 rest = Inr x'" using run False not_closed by simp
      with "1.IH" [OF _ s [symmetric] refl refl _ _ refl _ x2_def j [symmetric] refl] False not_closed ok
      show ?thesis by simp
    qed
  qed
qed

lemma fvec_accepted:
  assumes "fvec_from_value mem v = Inr (vec, n)"
  shows "0 < n \<and> length vec = 4 * n \<and> (\<forall>i < n. is_fin (f32_at vec i))"
proof (cases "value_type v = SQLITE_BLOB")
  case True
  with assms have "length (value_blob v) mod 4 = 0" "vec = value_blob v" "value_blob v \<noteq> []" "n = length (value_blob v) div 4"
    and "List.find (\<lambda>i. isnan (f32_at (value_blob v) i) \<or> isinf (f32_at (value_blob v) i)) [0..<n] = None"
    by (auto simp: fvec_from_value_def Let_def split: if_splits option.splits)
  moreover from calculation(1) have "length (value_blob v) = 4 * (length (value_blob v) div 4)"
    by (metis add.right_neutral mult_div_mod_eq)
  moreover have "0 < length (value_blob v)" using calculation(3) by simp
  ultimately have "0 < n" "length vec = 4 * n"
    and "\<forall>i \<in> set [0..<n]. \<not> (isnan (f32_at vec i) \<or> isinf (f32_at vec i))"
    by (linarith, simp, simp add: find_None_iff)
  then show ?thesis by (simp add: is_fin_def)
next
  case False
  then have "value_type v = SQLITE_TEXT" using assms by (auto simp: fvec_from_value_def split: if_splits)
  with assms obtain x ptr x' where
    x: "array_init mem 0 4 ((length (value_text v) + 1) div 2) = Inr x" and
    loop: "fvec_json_loop mem x ptr = Inr x'" and
    res: "vec = f32_bytes (arr_z x')" "n = length (arr_z x')" "0 < n"
    by (auto simp: fvec_from_value_def Let_def split: if_splits option.splits sum.splits)
  have "arr_z x = []" using x by (auto simp: array_init_def Let_def split: if_splits)
  then have "\<forall>y \<in> set (arr_z x'). is_f32 y \<and> is_fin y" using fvec_loop_finite [OF loop] by simp
  with res show ?thesis by (simp add: f32_bytes_length f32_at_bytes)
qed

section \<open>int8 JSON\<close>

lemma strtol_digits:
  assumes "n < 2 ^ 63" and "stops is_digit r"
  shows "strtol (decimal n @ r) = (int n, r, False)"
proof -
  obtain c ds where d: "decimal n = c # ds" using decimal_not_Nil by (cases "decimal n") auto
  then have c: "is_digit c" using decimal_digits [of n] by simp
  have t: "takeWhile is_digit (decimal n @ r) = decimal n"
    using decimal_digits assms(2) by (rule takeWhile_stops)
  have "dropWhile is_digit (decimal n @ r) = r"
    using t by (metis append_eq_conv_conj dropWhile_eq_drop)
  with t show ?thesis
    using digit_not_sign [OF c] assms(1) decimal_value [of n]
    by (simp add: strtol_def skip_sign_def d long_sat_def)
qed

lemma strtol_print_int:
  assumes "- (2 ^ 63) < i" and "i < 2 ^ 63" and "stops is_digit r"
  shows "strtol (print_int i @ r) = (i, r, False)"
proof (cases "i < 0")
  case True
  define n where "n = nat (- i)"
  have n: "n < 2 ^ 63" using assms(1) True by (simp add: n_def)
  have t: "takeWhile is_digit (decimal n @ r) = decimal n"
    using decimal_digits assms(3) by (rule takeWhile_stops)
  have d: "dropWhile is_digit (decimal n @ r) = r"
    using t by (metis append_eq_conv_conj dropWhile_eq_drop)
  have p: "print_int i @ r = CHR ''-'' # (decimal n @ r)" using True by (simp add: print_int_def n_def)
  have "int n = - i" using True by (simp add: n_def)
  with n show ?thesis
    unfolding p using decimal_value [of n] decimal_not_Nil [of n]
    by (simp add: strtol_def skip_sign_def isspace_def t d long_sat_def)
next
  case False
  then show ?thesis using strtol_digits [of "nat i" r] assms by (simp add: print_int_def)
qed

text \<open>The text of a list of numbers, and reading it back into an array with room for them.\<close>

fun json_body :: "int list \<Rightarrow> string" where
  "json_body [] = []"
| "json_body [v] = print_int v"
| "json_body (v # vs) = print_int v @ CHR '','' # json_body vs"

lemma decimal_head: obtains c ds where "decimal n = c # ds" and "is_digit c"
proof (cases "decimal n")
  case Nil
  then show ?thesis by (simp add: decimal_not_Nil)
next
  case (Cons c ds)
  then show ?thesis using decimal_digits [of n] that by simp
qed

lemma print_int_head: "\<exists>c r. print_int v = c # r \<and> \<not> vecJsonIsspace c \<and> c \<noteq> CHR '','' \<and> c \<noteq> CHR '']''"
proof -
  have dig: "is_digit c \<Longrightarrow> \<not> vecJsonIsspace c \<and> c \<noteq> CHR '','' \<and> c \<noteq> CHR '']''" for c
    by (auto simp: is_digit_def vecJsonIsspace_def)
  have minus: "\<not> vecJsonIsspace CHR ''-''" by (simp add: vecJsonIsspace_def)
  obtain c ds where c: "decimal (nat v) = c # ds" "is_digit c" by (rule decimal_head)
  show ?thesis
  proof (cases "v < 0")
    case True
    with minus show ?thesis by (simp add: print_int_def)
  next
    case False
    with c dig [OF c(2)] show ?thesis by (simp add: print_int_def)
  qed
qed

lemma json_body_head:
  "vs \<noteq> [] \<Longrightarrow> \<exists>c r. json_body vs = c # r \<and> \<not> vecJsonIsspace c \<and> c \<noteq> CHR '','' \<and> c \<noteq> CHR '']''"
proof (cases vs)
  case (Cons v ws)
  then show ?thesis using print_int_head [of v] by (cases ws) auto
qed simp

lemma json_body_length: "vs \<noteq> [] \<Longrightarrow> 2 * length vs \<le> length (json_body vs) + 1"
proof (induction vs rule: json_body.induct)
  case (2 v)
  then show ?case using print_int_head [of v] by auto
next
  case (3 v w ws)
  then show ?case using print_int_head [of v] by auto
qed simp

lemma int8_loop_body:
  assumes "vs \<noteq> []" and "\<forall>v \<in> set vs. - 128 \<le> v \<and> v < 128"
    and "length (arr_z x) + length vs \<le> arr_capacity x"
  shows "int8_json_loop mem x (json_body vs @ CHR '']'' # junk) = Inr (x\<lparr>arr_z := arr_z x @ map of_int vs\<rparr>)"
  using assms
proof (induction vs arbitrary: x rule: json_body.induct)
  case (2 v)
  have t: "strtol (print_int v @ CHR '']'' # junk) = (v, CHR '']'' # junk, False)"
    using 2 by (intro strtol_print_int) (auto simp: stops_def is_digit_def)
  have j: "json_separators (CHR '']'' # junk) = (True, CHR '']'' # junk)" by (simp add: vecJsonIsspace_def)
  have "CHR '']'' # junk \<noteq> print_int v @ CHR '']'' # junk" using print_int_head [of v] by auto
  with 2 show ?case
    by (subst int8_json_loop.simps) (simp add: t j Let_def array_append_def del: json_separators.simps)
next
  case (3 v w ws)
  let ?r = "json_body (w # ws) @ CHR '']'' # junk"
  have t: "strtol (print_int v @ CHR '','' # ?r) = (v, CHR '','' # ?r, False)"
    using 3 by (intro strtol_print_int) (auto simp: stops_def is_digit_def)
  have "json_separators ?r = (False, ?r)" using json_body_head [of "w # ws"] by auto
  then have j: "json_separators (CHR '','' # ?r) = (False, ?r)" by (simp add: vecJsonIsspace_def)
  have n: "CHR '','' # ?r \<noteq> print_int v @ CHR '','' # ?r" using print_int_head [of v] by auto
  define x' where "x' = x\<lparr>arr_z := arr_z x @ [of_int v]\<rparr>"
  have ap: "snd (array_append mem 1 x (of_int v)) = x'" using 3 by (simp add: array_append_def x'_def)
  have ne: "print_int v @ CHR '','' # ?r \<noteq> []" by simp
  have b: "json_body (v # w # ws) @ CHR '']'' # junk = print_int v @ CHR '','' # ?r" by simp
  have "int8_json_loop mem x (json_body (v # w # ws) @ CHR '']'' # junk) = int8_json_loop mem x' ?r"
    unfolding b by (subst int8_json_loop.simps)
      (use 3 ne n in \<open>simp add: t j Let_def ap [simplified] del: json_separators.simps json_body.simps\<close>)
  also have "\<dots> = Inr (x'\<lparr>arr_z := arr_z x' @ map of_int (w # ws)\<rparr>)"
    using 3 by (intro "3.IH") (simp_all add: x'_def)
  finally show ?case by (simp add: x'_def)
qed simp

lemma json_text_int8:
  "json_text fmt SQLITE_VEC_ELEMENT_TYPE_INT8 bs n = CHR ''['' # json_body (map (i8_at bs) [0..<n]) @ '']''"
proof -
  have snoc: "json_body (vs @ [v]) = json_body vs @ (if vs = [] then [] else '','') @ print_int v" for vs v
    by (induction vs rule: json_body.induct) auto
  have "fold (\<lambda>i str. (if i \<noteq> 0 then str @ '','' else str) @ json_element fmt SQLITE_VEC_ELEMENT_TYPE_INT8 bs i) [0..<n] ''[''
      = CHR ''['' # json_body (map (i8_at bs) [0..<n])"
    by (induction n) (simp_all add: snoc json_element_def)
  then show ?thesis by (simp add: json_text_def)
qed

section \<open>Quantized bits\<close>

lemma quantize_bits_loop:
  fixes out :: bytes
  assumes "n \<le> 8 * len"
    and out_def: "out = fold (\<lambda>i out. out[i div 8 := out ! (i div 8) OR push_bit (i mod 8) (of_bool (res i))])
    [0..<n] (replicate len (0 :: u8))"
  shows "length out = len \<and> (\<forall>j < 8 * len. bit_at out j = (j < n \<and> res j))"
  unfolding out_def using assms(1)
proof (induction n)
  case 0
  show ?case by (auto simp: bit_at_def)
next
  case (Suc n)
  define o' where "o' = fold (\<lambda>i out. out[i div 8 := out ! (i div 8) OR push_bit (i mod 8) (of_bool (res i))])
    [0..<n] (replicate len (0 :: u8))"
  have IH: "length o' = len" "\<forall>j < 8 * len. bit_at o' j = (j < n \<and> res j)" using Suc by (simp_all add: o'_def)
  have n: "n div 8 < len" using Suc.prems by auto
  have "bit_at (o'[n div 8 := o' ! (n div 8) OR push_bit (n mod 8) (of_bool (res n))]) j = (j < Suc n \<and> res j)"
    if j: "j < 8 * len" for j
  proof (cases "j div 8 = n div 8")
    case True
    then have "j = n \<longleftrightarrow> j mod 8 = n mod 8" by (metis div_mult_mod_eq)
    moreover have "bit (push_bit (n mod 8) (of_bool (res n)) :: u8) (j mod 8) = (j mod 8 = n mod 8 \<and> res n)"
      by (auto simp: bit_push_bit_iff bit_1_iff)
    ultimately show ?thesis
      using True IH n j by (auto simp: bit_at_def bit_or_iff less_Suc_eq)
  next
    case False
    then have "j \<noteq> n" by auto
    with False IH j show ?thesis by (auto simp: bit_at_def less_Suc_eq)
  qed
  with IH show ?case by (simp add: o'_def)
qed

lemma quantize_bits_spec:
  "8 dvd d \<Longrightarrow> length (quantize_bits res d) = d div 8 \<and> (\<forall>i < d. bit_at (quantize_bits res d) i = res i)"
  using quantize_bits_loop [of d "d div 8" _ res] by (simp add: quantize_bits_def)

section \<open>Truncation\<close>

lemma fp_trunc_real: "real_of_int (fp_trunc (FFin s m e)) = (if s then - of_int \<lfloor>real m * 2 powi e\<rfloor> else of_int \<lfloor>real m * 2 powi e\<rfloor>)"
proof (cases "0 \<le> e")
  case True
  then have "real m * 2 powi e = of_int (int m * 2 ^ nat e)" by (simp add: power_int_def)
  then have "\<lfloor>real m * 2 powi e\<rfloor> = int m * 2 ^ nat e" by (metis floor_of_int)
  with True show ?thesis by simp
next
  case False
  then have "real m * 2 powi e = real m / real (2 ^ nat (- e))" by (simp add: power_int_def field_simps)
  then have "\<lfloor>real m * 2 powi e\<rfloor> = int (m div 2 ^ nat (- e))" by (metis floor_divide_of_nat_eq)
  with False show ?thesis by simp
qed

lemma fp_trunc_bounds:
  assumes "fp_le (FFin True a 0) x" and "fp_le x (FFin False b 0)"
  shows "- int a \<le> fp_trunc x \<and> fp_trunc x \<le> int b"
proof (cases x)
  case FNaN
  with assms show ?thesis by simp
next
  case (FInf s)
  with assms show ?thesis by (cases s) simp_all
next
  case (FFin s m e)
  have v: "- real a \<le> fin_val s m e" "fin_val s m e \<le> real b"
    using assms unfolding FFin by (simp_all only: fp_le_fin) (simp_all add: fin_val_def)
  have p: "0 \<le> real m * 2 powi e" by simp
  show ?thesis
  proof (cases s)
    case True
    then have "real m * 2 powi e \<le> real a" using v(1) by (simp add: fin_val_def)
    then have "\<lfloor>real m * 2 powi e\<rfloor> \<le> int a" by linarith
    moreover have "0 \<le> \<lfloor>real m * 2 powi e\<rfloor>" using p by simp
    moreover have "fp_trunc x = - \<lfloor>real m * 2 powi e\<rfloor>" using fp_trunc_real [of s m e] True FFin by simp
    ultimately show ?thesis by linarith
  next
    case False
    then have "real m * 2 powi e \<le> real b" using v(2) by (simp add: fin_val_def)
    then have "\<lfloor>real m * 2 powi e\<rfloor> \<le> int b" by linarith
    moreover have "0 \<le> \<lfloor>real m * 2 powi e\<rfloor>" using p by simp
    moreover have "fp_trunc x = \<lfloor>real m * 2 powi e\<rfloor>" using fp_trunc_real [of s m e] False FFin by simp
    ultimately show ?thesis by linarith
  qed
qed

section \<open>Rows of \<open>vec_each\<close>\<close>

lemma vec_each_rows_from:
  "k \<le> each_dimensions c \<Longrightarrow> each_iRowid c = int k \<Longrightarrow>
   vec_each_rows c = map (\<lambda>i. vec_eachColumn (c\<lparr>each_iRowid := int i\<rparr>)) [k..<each_dimensions c]"
proof (induction "each_dimensions c - k" arbitrary: c k)
  case 0
  then show ?case by (subst vec_each_rows.simps) (simp add: vec_eachEof_def)
next
  case (Suc n)
  then have "k < each_dimensions c" by simp
  have "vec_each_rows (vec_eachNext c)
      = map (\<lambda>i. vec_eachColumn ((vec_eachNext c)\<lparr>each_iRowid := int i\<rparr>)) [Suc k..<each_dimensions (vec_eachNext c)]"
    using Suc by (intro Suc.hyps(1)) (simp_all add: vec_eachNext_def)
  moreover have same: "c\<lparr>each_iRowid := int k\<rparr> = c" using Suc.prems(2) by (cases c) simp
  ultimately show ?case
    using \<open>k < each_dimensions c\<close> Suc.prems
    by (subst vec_each_rows.simps) (simp add: vec_eachEof_def vec_eachNext_def upt_conv_Cons same)
qed

lemma msb_mask: "k < 8 \<Longrightarrow> (0 < (w AND drop_bit k 128)) = bit (w :: u8) (7 - k)"
proof -
  assume k: "k < 8"
  have "drop_bit k (128 :: u8) = 2 ^ (7 - k)"
  proof -
    have "k = 0 \<or> k = 1 \<or> k = 2 \<or> k = 3 \<or> k = 4 \<or> k = 5 \<or> k = 6 \<or> k = 7" using k by linarith
    then show ?thesis by (elim disjE) (simp_all add: drop_bit_eq_div)
  qed
  then show ?thesis by (simp add: word_gt_0 and_exp_eq_0_iff_not_bit)
qed

lemma word_of_i8: "(of_int (i8_at bs i) :: u8) = bs ! i"
  by (simp add: i8_at_def)

section \<open>Properties of the SQL functions\<close>

abbreviation text_value :: "string \<Rightarrow> nat \<Rightarrow> sqlite3_value" where
  "text_value s st \<equiv> \<lparr>value_type = SQLITE_TEXT, value_blob = [], value_text = s, value_int = 0,
     value_int64 = 0, value_double = fp0, value_subtype = st\<rparr>"

abbreviation blob_value :: "bytes \<Rightarrow> nat \<Rightarrow> sqlite3_value" where
  "blob_value b st \<equiv> \<lparr>value_type = SQLITE_BLOB, value_blob = b, value_text = [], value_int = 0,
     value_int64 = 0, value_double = fp0, value_subtype = st\<rparr>"

text \<open>C22. A \<open>float\<close> vector that is accepted, as a blob or as JSON, has at least one element, four
  bytes for each of them, and no NaN or infinity.\<close>

theorem float_vectors_finite:
  assumes "fvec_from_value mem v = Inr (vec, n)"
  shows "0 < n \<and> length vec = 4 * n \<and> (\<forall>i < n. is_fin (f32_at vec i))"
  using assms by (rule fvec_accepted)

theorem float_vectors_finite_witness:
  "length [0, 0, 128, 63 :: u8] = 4 * 1 \<and> is_fin (f32_at [0, 0, 128, 63] 0)"
  using float_vectors_finite [of "\<lambda>_ _. True" "blob_value [0, 0, 128, 63] 0" "[0, 0, 128, 63]" 1]
  by (simp add: fvec_from_value_def sqlite3_malloc_def f32_at_def u32_of_le_def f32_of_bits_def)

text \<open>C23. The JSON text of an int8 vector reads back as the same bytes, and needs no memory beyond the
  initial array: the reader's buffer of half the text's length is never outgrown.\<close>

theorem int8_json_roundtrip:
  assumes "bs \<noteq> []" and "\<And>n. 0 < n \<Longrightarrow> mem 0 n"
    and "value_type v = SQLITE_TEXT"
    and "value_text v = json_text fmt SQLITE_VEC_ELEMENT_TYPE_INT8 bs (length bs)"
    and "length (value_text v) < 2 ^ 31"
  shows "int8_vec_from_value mem v = Inr (bs, length bs)"
proof -
  let ?vs = "map (i8_at bs) [0..<length bs]"
  let ?cap = "(length (value_text v) + 1) div 2"
  have t: "value_text v = CHR ''['' # json_body ?vs @ '']''" using assms(4) by (simp add: json_text_int8)
  have ne: "?vs \<noteq> []" using assms(1) by simp
  have cap: "length bs \<le> ?cap" using json_body_length [OF ne] by (simp add: t)
  have pos: "0 < ?cap" by (simp add: t)
  have "int32_of (int ?cap) = int ?cap" using assms(5) by (simp add: int32_of_def)
  then have init: "array_init mem 0 1 ?cap = Inr \<lparr>element_size = 1, arr_capacity = ?cap, arr_z = [] :: bytes\<rparr>"
    using pos assms(2) by (simp add: array_init_def sqlite3_malloc_def)
  have op: "json_open (value_text v) = Some (json_body ?vs @ '']'')" by (simp add: t vecJsonIsspace_def)
  have "int8_json_loop mem \<lparr>element_size = 1, arr_capacity = ?cap, arr_z = []\<rparr> (json_body ?vs @ CHR '']'' # [])
      = Inr (\<lparr>element_size = 1, arr_capacity = ?cap, arr_z = []\<rparr>\<lparr>arr_z := [] @ map of_int ?vs\<rparr>)"
    using int8_loop_body [OF ne, of "\<lparr>element_size = 1, arr_capacity = ?cap, arr_z = []\<rparr>" mem "[]"] cap
      i8_at_bounds by simp
  moreover have "map of_int ?vs = bs" by (rule nth_equalityI) (simp_all add: word_of_i8)
  ultimately show ?thesis
    using assms(1,3) init op t by (simp add: int8_vec_from_value_def Let_def del: json_open.simps)
qed

theorem int8_json_roundtrip_witness:
  "int8_vec_from_value (\<lambda>_ _. True)
     (text_value (json_text (\<lambda>_. []) SQLITE_VEC_ELEMENT_TYPE_INT8 [1, 255] 2) 225) = Inr ([1, 255], length [1, 255 :: u8])"
proof -
  have "[0..<2] = [0, 1 :: nat]" by (simp add: numeral_2_eq_2)
  then show ?thesis
    by (intro int8_json_roundtrip [where fmt = "\<lambda>_. []"])
      (simp_all add: json_text_int8 i8_at_def print_int_def decimal.simps)
qed




text \<open>C30. Reading \<open>vec_each\<close> to its end gives one row per element, in order; but the rows of a bit vector
  are its bits most significant first in every byte, while \<open>vec_to_json\<close> and the quantizer number the
  bits least significant first: row \<open>i\<close> is bit \<open>7 - i mod 8\<close> of byte \<open>i div 8\<close>.\<close>

theorem vec_each_bit_rows:
  assumes "vector_from_value mem arg = Inr (vector, d, SQLITE_VEC_ELEMENT_TYPE_BIT)"
  shows "vec_each_rows (snd (vec_eachFilter mem cur arg))
         = map (\<lambda>i. ResInt (of_bool (bit_at vector (8 * (i div 8) + (7 - i mod 8))))) [0..<d]
       \<and> (\<forall>i. json_element fmt SQLITE_VEC_ELEMENT_TYPE_BIT vector i = print_int (of_bool (bit_at vector i)))"
proof -
  define c where "c = \<lparr>each_iRowid = 0, each_type = SQLITE_VEC_ELEMENT_TYPE_BIT, each_vector = Some vector, each_dimensions = d\<rparr>"
  have pos: "bit (vector ! (i div 8)) (7 - i mod 8) = bit_at vector (8 * (i div 8) + (7 - i mod 8))" for i
  proof -
    have "7 - i mod 8 < 8" by simp
    then have "(8 * (i div 8) + (7 - i mod 8)) div 8 = i div 8" "(8 * (i div 8) + (7 - i mod 8)) mod 8 = 7 - i mod 8"
      by (simp_all only: div_mult_self4 mod_mult_self4) simp_all
    then show ?thesis by (simp only: bit_at_def)
  qed
  have "vec_eachColumn (c\<lparr>each_iRowid := int i\<rparr>) = ResInt (of_bool (bit_at vector (8 * (i div 8) + (7 - i mod 8))))" for i
    unfolding pos [symmetric] by (simp add: vec_eachColumn_def c_def Let_def msb_mask)
  then have "vec_each_rows (snd (vec_eachFilter mem cur arg))
       = map (\<lambda>i. ResInt (of_bool (bit_at vector (8 * (i div 8) + (7 - i mod 8))))) [0..<d]"
    using vec_each_rows_from [of 0 c] assms by (simp add: vec_eachFilter_def Let_def c_def)
  moreover have "uint (drop_bit (i mod 8) w AND 1) = of_bool (bit w (i mod 8))" for w :: u8 and i
    by (simp add: and_one_eq bit_iff_odd_drop_bit mod_2_eq_odd)
  then have "json_element fmt SQLITE_VEC_ELEMENT_TYPE_BIT vector i = print_int (of_bool (bit_at vector i))" for i
    by (simp add: json_element_def bit_lsb_def bit_at_def)
  ultimately show ?thesis by blast
qed

theorem vec_each_bit_rows_witness:
  "vec_each_rows (snd (vec_eachFilter (\<lambda>_ _. True) (vec_eachOpen SQLITE_VEC_ELEMENT_TYPE_BIT) (blob_value [1] 224)))
     = map (\<lambda>i. ResInt (of_bool (bit_at [1] (8 * (i div 8) + (7 - i mod 8))))) [0..<8]
   \<and> (\<forall>i. json_element (\<lambda>_. []) SQLITE_VEC_ELEMENT_TYPE_BIT [1] i = print_int (of_bool (bit_at [1] i)))"
  by (rule vec_each_bit_rows)
    (simp add: vector_from_value_def bitvec_from_value_def JSON_SUBTYPE_def int32_of_def size_of_int_def)

text \<open>C29. A slice of a \<open>float\<close> vector is its elements from \<open>start\<close> up to but not including \<open>end\<close>; it
  only exists for \<open>0 \<le> start < end \<le> dimensions\<close>.\<close>

theorem slice_elements:
  assumes "vector_from_value mem arg = Inr (vector, d, SQLITE_VEC_ELEMENT_TYPE_FLOAT32)"
    and "vec_slice mem arg startv endv = ResBlob out st"
  shows "0 \<le> value_int startv \<and> value_int startv < value_int endv \<and> value_int endv \<le> int d
    \<and> f32_list out = map (f32_at vector) [nat (value_int startv)..<nat (value_int endv)]"
proof -
  let ?s = "nat (value_int startv)" and ?e = "nat (value_int endv)"
  have c: "0 \<le> value_int startv" "value_int startv < value_int endv" "value_int endv \<le> int d"
    and out: "out = f32_bytes (map (\<lambda>i. f32_at vector (?s + i)) [0..<nat (value_int endv - value_int startv)])"
    using assms by (auto simp: vec_slice_def Let_def split: if_splits)
  have "f32_list out = map (\<lambda>i. f32_at vector (?s + i)) [0..<nat (value_int endv - value_int startv)]"
    unfolding out by (rule f32_list_bytes) (auto simp: f32_at_is_f32)
  also have "\<dots> = map (f32_at vector) [?s..<?e]"
    using c by (intro nth_equalityI) (auto simp: nat_diff_distrib)
  finally show ?thesis using c by simp
qed

theorem slice_elements_witness:
  "f32_list (f32_bytes [FFin False 8388608 (- 23)]) = map (f32_at (f32_bytes [fp0, FFin False 8388608 (- 23)])) [1..<2]"
proof -
  let ?v = "f32_bytes [fp0, FFin False 8388608 (- 23)]"
  let ?arg = "blob_value ?v 0"
  have f: "f32_at ?v 0 = fp0" "f32_at ?v 1 = FFin False 8388608 (- 23)"
    by (simp_all add: f32_at_bytes is_f32_def)
  have two: "[0..<2] = [0, 1 :: nat]" by (simp add: numeral_2_eq_2)
  have len: "length ?v = 8" "?v \<noteq> []" by (simp_all add: f32_bytes_length flip: length_0_conv)
  have v: "vector_from_value (\<lambda>_ _. True) ?arg = Inr (?v, 2, SQLITE_VEC_ELEMENT_TYPE_FLOAT32)"
    using len f by (simp add: vector_from_value_def fvec_from_value_def sqlite3_malloc_def two Let_def)
  let ?i = "\<lambda>k. (text_value [] 0)\<lparr>value_int := k\<rparr>"
  have "vec_slice (\<lambda>_ _. True) ?arg (?i 1) (?i 2) = ResBlob (f32_bytes [FFin False 8388608 (- 23)]) 223"
    unfolding vec_slice_def v using f by (simp add: sqlite3_malloc_def int32_of_def subtype_of_def)
  from slice_elements [OF v this] show ?thesis by simp
qed

text \<open>C31. Normalizing a vector of zeros does not fail: it gives a blob of NaNs, which every function that
  reads \<open>float\<close> vectors then rejects at element 0.\<close>

theorem normalize_zero_vector:
  assumes "vector_from_value mem arg = Inr (vector, d, SQLITE_VEC_ELEMENT_TYPE_FLOAT32)" and "0 < d"
    and "\<And>i. i < d \<Longrightarrow> f32_at vector i = fp0"
    and "vec_normalize mem arg = ResBlob out st"
    and "value_type v = SQLITE_BLOB" and "value_blob v = out" and "mem' 0 (int (4 * d))"
  shows "fvec_from_value mem' v = Inl (SQLITE_ERROR, ErrElement 0 True)"
proof -
  have e: "emin binary32 = - 149" by (simp add: binary32_def)
  have "fold (\<lambda>i norm. f32_add norm (f32_mul (f32_at vector i) (f32_at vector i))) [0..<d] fp0 = fp0"
    by (rule fold_const_zero) (simp add: assms(3) fp_simps e)
  then have norm: "vec_norm vector d = fp0" by (simp add: vec_norm_def fp_simps e)
  have "out = f32_bytes (map (\<lambda>i. fp_div binary32 (f32_at vector i) fp0) [0..<d])"
    using assms(1,4) by (auto simp: vec_normalize_def norm Let_def split: if_splits)
  also have "map (\<lambda>i. fp_div binary32 (f32_at vector i) fp0) [0..<d] = replicate d FNaN"
    by (rule nth_equalityI) (simp_all add: assms(3))
  finally have out: "out = f32_bytes (replicate d FNaN)" .
  have nan: "f32_at out i = FNaN" if "i < d" for i
    using that by (simp add: out f32_at_bytes is_f32_def)
  have "[0..<d] = 0 # [1..<d]" using assms(2) by (simp add: upt_conv_Cons)
  then have "List.find (\<lambda>i. isnan (f32_at out i) \<or> isinf (f32_at out i)) [0..<d] = Some 0"
    using nan [of 0] assms(2) by simp
  moreover have "out \<noteq> []" using assms(2) by (simp add: out f32_bytes_length flip: length_0_conv)
  ultimately show ?thesis
    using nan [of 0] assms(2,5,6,7)
    by (simp add: fvec_from_value_def f32_bytes_length out sqlite3_malloc_def Let_def)
qed

theorem normalize_zero_vector_witness:
  "fvec_from_value (\<lambda>_ _. True) (blob_value (f32_bytes [FNaN]) 0) = Inl (SQLITE_ERROR, ErrElement 0 True)"
proof (rule normalize_zero_vector [of "\<lambda>_ _. True" "blob_value [0, 0, 0, 0] 0"])
  have z: "f32_at [0, 0, 0, 0] 0 = fp0" by (simp add: f32_at_def u32_of_le_def f32_of_bits_def)
  then show v: "vector_from_value (\<lambda>_ _. True) (blob_value [0, 0, 0, 0] 0) = Inr ([0, 0, 0, 0], 1, SQLITE_VEC_ELEMENT_TYPE_FLOAT32)"
    by (simp add: vector_from_value_def fvec_from_value_def sqlite3_malloc_def)
  show "f32_at [0, 0, 0, 0] i = fp0" if "i < 1" for i using that z by simp
  have e: "emin binary32 = - 149" by (simp add: binary32_def)
  have "vec_norm [0, 0, 0, 0] 1 = fp0" by (simp add: vec_norm_def z fp_simps e)
  then show "vec_normalize (\<lambda>_ _. True) (blob_value [0, 0, 0, 0] 0) = ResBlob (f32_bytes [FNaN]) 223"
    by (simp add: vec_normalize_def v z sqlite3_malloc_def int32_of_def subtype_of_def)
qed simp_all

end
