(* ===== verification/Tables.thy ===== *)
theory Tables
  imports Distances
begin

text \<open>
  The store the code keeps its state in: shadow tables and the blobs in their rows. A table is the
  list of its rows in rowid order, which is the order SQLite scans it in; the SQL statements of the
  code select, insert, update and delete rows by rowid. A blob is read and written in place with
  \<open>sqlite3_blob_read\<close> and \<open>sqlite3_blob_write\<close>, which refuse to go past its end and never resize it.
\<close>

section \<open>Results\<close>

definition rbind :: "'a result \<Rightarrow> ('a \<Rightarrow> 'b result) \<Rightarrow> 'b result" where
  "rbind r f = (case r of Inl e \<Rightarrow> Inl e | Inr x \<Rightarrow> f x)"

lemma rbind_simps [simp]: "rbind (Inl e) f = Inl e" "rbind (Inr x) f = f x"
  by (simp_all add: rbind_def)

lemma rbind_Inr: "rbind r f = Inr y \<longleftrightarrow> (\<exists>x. r = Inr x \<and> f x = Inr y)"
  by (cases r) simp_all

lemma case_Inr:
  "(case r of Inl _ \<Rightarrow> Inl e | Inr x \<Rightarrow> f x) = Inr y \<longleftrightarrow> (\<exists>x. r = Inr x \<and> f x = Inr y)"
  "(case v of None \<Rightarrow> Inl e | Some x \<Rightarrow> g x) = Inr y \<longleftrightarrow> (\<exists>x. v = Some x \<and> g x = Inr y)"
  "(if b then Inl e else z) = Inr y \<longleftrightarrow> \<not> b \<and> z = Inr y"
  by (auto split: sum.splits option.splits if_splits)

text \<open>A loop whose body can fail and threads a state.\<close>

primrec fold_result :: "('a \<Rightarrow> 's \<Rightarrow> 's result) \<Rightarrow> 'a list \<Rightarrow> 's \<Rightarrow> 's result" where
  "fold_result f [] s = Inr s"
| "fold_result f (x # xs) s = rbind (f x s) (fold_result f xs)"

lemma fold_result_append: "fold_result f (xs @ ys) s = rbind (fold_result f xs s) (fold_result f ys)"
proof (induction xs arbitrary: s)
  case (Cons x xs)
  then show ?case by (cases "f x s") simp_all
qed simp

lemma fold_result_inv:
  assumes "fold_result f xs s = Inr s'" and "P s"
    and "\<And>x s s'. x \<in> set xs \<Longrightarrow> f x s = Inr s' \<Longrightarrow> P s \<Longrightarrow> P s'"
  shows "P s'"
  using assms by (induction xs arbitrary: s) (auto simp: rbind_Inr)

lemma fold_result_total:
  assumes "P s" and "\<And>x s. x \<in> set xs \<Longrightarrow> P s \<Longrightarrow> \<exists>s'. f x s = Inr s' \<and> P s'"
  shows "\<exists>s'. fold_result f xs s = Inr s' \<and> P s'"
  using assms by (induction xs arbitrary: s) (auto simp: rbind_Inr, metis rbind_simps(2))

text \<open>
  A loop whose active steps each change one component of the state, all different: every active
  component is related to its old value by its step, and the others keep theirs.
\<close>

lemma fold_result_components:
  assumes "fold_result f xs s = Inr s'" and "distinct (map k (filter act xs))"
    and "\<And>x s s'. x \<in> set xs \<Longrightarrow> f x s = Inr s' \<Longrightarrow>
      (\<forall>j. \<not> (act x \<and> j = k x) \<longrightarrow> g s' j = g s j) \<and> (act x \<longrightarrow> R x (g s (k x)) (g s' (k x)))"
  shows "(\<forall>x \<in> set xs. act x \<longrightarrow> R x (g s (k x)) (g s' (k x))) \<and>
    (\<forall>j. j \<notin> k ` {x \<in> set xs. act x} \<longrightarrow> g s' j = g s j)"
  using assms
proof (induction xs arbitrary: s)
  case (Cons x xs)
  then obtain s1 where s1: "f x s = Inr s1" "fold_result f xs s1 = Inr s'" by (auto simp: rbind_Inr)
  have d: "distinct (map k (filter act xs))" using Cons.prems(2) by (auto split: if_splits)
  have IH: "(\<forall>x \<in> set xs. act x \<longrightarrow> R x (g s1 (k x)) (g s' (k x))) \<and>
    (\<forall>j. j \<notin> k ` {x \<in> set xs. act x} \<longrightarrow> g s' j = g s1 j)"
    by (rule Cons.IH [OF s1(2) d]) (rule Cons.prems(3), simp_all)
  have step: "(\<forall>j. \<not> (act x \<and> j = k x) \<longrightarrow> g s1 j = g s j) \<and> (act x \<longrightarrow> R x (g s (k x)) (g s1 (k x)))"
    using Cons.prems(3) [of x s s1] s1(1) by simp
  have fresh: "k x \<notin> k ` {y \<in> set xs. act y}" if "act x"
    using Cons.prems(2) that by (auto simp: image_iff)
  have "R y (g s (k y)) (g s' (k y))" if "y \<in> set (x # xs)" "act y" for y
  proof (cases "y = x")
    case True
    then show ?thesis using step IH fresh that by simp
  next
    case False
    then have "y \<in> set xs" using that by simp
    then have "k y \<in> k ` {y \<in> set xs. act y}" using that by blast
    then have "\<not> (act x \<and> k y = k x)" using fresh by auto
    then show ?thesis using step IH \<open>y \<in> set xs\<close> that by metis
  qed
  moreover have "g s' j = g s j" if "j \<notin> k ` {y \<in> set (x # xs). act y}" for j
  proof -
    have "j \<notin> k ` {y \<in> set xs. act y}" "\<not> (act x \<and> j = k x)" using that by auto
    then show ?thesis using step IH by simp
  qed
  ultimately show ?case by blast
qed simp

text \<open>
  \<open>F site i\<close> is the code with which the SQLite calls at that place of the source fail, if they do;
  \<open>i\<close> is the column where the place is in a loop over columns.
\<close>

type_synonym faults = "string \<Rightarrow> nat \<Rightarrow> sqlite_rc option"

definition attempt :: "faults \<Rightarrow> string \<Rightarrow> nat \<Rightarrow> 'a result \<Rightarrow> 'a result" where
  "attempt F site i k = (case F site i of Some rc \<Rightarrow> Inl rc | None \<Rightarrow> k)"

lemma attempt_Inr [simp]: "attempt F site i k = Inr x \<longleftrightarrow> F site i = None \<and> k = Inr x"
  by (simp add: attempt_def split: option.split)

definition no_faults :: faults where
  "no_faults site i = None"

lemma attempt_no_faults [simp]: "attempt no_faults site i k = k"
  by (simp add: attempt_def no_faults_def)

section \<open>Tables\<close>

type_synonym 'r table = "(int \<times> 'r) list"

definition tbl_get :: "'r table \<Rightarrow> int \<Rightarrow> 'r option" where
  "tbl_get t k = map_of t k"

fun tbl_put :: "'r table \<Rightarrow> int \<Rightarrow> 'r \<Rightarrow> 'r table" where
  "tbl_put [] k r = [(k, r)]"
| "tbl_put ((k', r') # t) k r =
     (if k < k' then (k, r) # (k', r') # t
      else if k = k' then (k, r) # t
      else (k', r') # tbl_put t k r)"

definition tbl_del :: "'r table \<Rightarrow> int \<Rightarrow> 'r table" where
  "tbl_del t k = filter (\<lambda>(k', r). k' \<noteq> k) t"

text \<open>\<open>INSERT\<close> of a row with a given rowid: a constraint error if there is one already.\<close>

definition tbl_insert :: "'r table \<Rightarrow> int \<Rightarrow> 'r \<Rightarrow> 'r table result" where
  "tbl_insert t k r = (if tbl_get t k = None then Inr (tbl_put t k r) else Inl SQLITE_CONSTRAINT)"

definition tbl_ok :: "'r table \<Rightarrow> bool" where
  "tbl_ok t \<longleftrightarrow> sorted_wrt (<) (map fst t)"

text \<open>What the operations on rows rely on: the laws of a map, and that the rows stay in order.\<close>

locale row_store =
  fixes get :: "'t \<Rightarrow> int \<Rightarrow> 'r option"
    and put :: "'t \<Rightarrow> int \<Rightarrow> 'r \<Rightarrow> 't"
    and del :: "'t \<Rightarrow> int \<Rightarrow> 't"
    and ok :: "'t \<Rightarrow> bool"
  assumes get_put: "ok t \<Longrightarrow> get (put t k r) k' = (if k' = k then Some r else get t k')"
    and get_del: "get (del t k) k' = (if k' = k then None else get t k')"
    and ok_put: "ok t \<Longrightarrow> ok (put t k r)"
    and ok_del: "ok t \<Longrightarrow> ok (del t k)"
begin

lemma get_put_same: "ok t \<Longrightarrow> get (put t k r) k = Some r"
  by (simp add: get_put)

lemma get_put_other: "ok t \<Longrightarrow> k' \<noteq> k \<Longrightarrow> get (put t k r) k' = get t k'"
  by (simp add: get_put)

lemma get_put_put: "ok t \<Longrightarrow> get (put (put t k r) k r') k' = get (put t k r') k'"
  by (simp add: get_put ok_put)

lemma get_del_put: "ok t \<Longrightarrow> get t k = None \<Longrightarrow> get (del (put t k r) k) k' = get t k'"
  by (simp add: get_put get_del)

end

lemma tbl_put_keys: "set (map fst (tbl_put t k r)) = insert k (set (map fst t))"
  by (induction t k r rule: tbl_put.induct) auto

lemma tbl_ok_put: "tbl_ok t \<Longrightarrow> tbl_ok (tbl_put t k r)"
proof (induction t k r rule: tbl_put.induct)
  case (2 k' r' t k r)
  have "\<forall>x \<in> set (map fst (tbl_put t k r)). k' < x" if "k' < k"
    using 2 that by (simp only: tbl_put_keys) (auto simp: tbl_ok_def)
  with 2 show ?case by (auto simp: tbl_ok_def)
qed (simp add: tbl_ok_def)

lemma tbl_get_put: "tbl_ok t \<Longrightarrow> tbl_get (tbl_put t k r) k' = (if k' = k then Some r else tbl_get t k')"
proof (induction t k r rule: tbl_put.induct)
  case (2 k1 r1 t k r)
  then have "tbl_ok t" by (simp add: tbl_ok_def)
  with 2 show ?case by (auto simp: tbl_get_def tbl_ok_def)
qed (simp add: tbl_get_def)

text \<open>Reading a row that was just written, which does not need the order.\<close>

lemma tbl_get_put_any: "tbl_get (tbl_put t k r) k' = (if k' = k then Some r else tbl_get t k')"
  by (induction t k r rule: tbl_put.induct) (auto simp: tbl_get_def)

lemma tbl_get_del: "tbl_get (tbl_del t k) k' = (if k' = k then None else tbl_get t k')"
  by (induction t) (auto simp: tbl_get_def tbl_del_def)

lemma tbl_ok_del: "tbl_ok t \<Longrightarrow> tbl_ok (tbl_del t k)"
  by (induction t) (auto simp: tbl_ok_def tbl_del_def)

interpretation tb: row_store tbl_get tbl_put tbl_del tbl_ok
  by unfold_locales (simp_all add: tbl_get_put tbl_get_del tbl_ok_put tbl_ok_del)

lemma tbl_ok_Nil [simp]: "tbl_ok []"
  by (simp add: tbl_ok_def)

lemma tbl_ok_distinct: "tbl_ok t \<Longrightarrow> distinct (map fst t)"
  by (simp add: tbl_ok_def strict_sorted_iff)

lemma tbl_get_iff: "tbl_ok t \<Longrightarrow> tbl_get t k = Some r \<longleftrightarrow> (k, r) \<in> set t"
  by (simp add: tbl_get_def tbl_ok_distinct)

section \<open>Blobs\<close>

definition blob_read :: "bytes \<Rightarrow> nat \<Rightarrow> nat \<Rightarrow> bytes option" where
  "blob_read blob n offset = (if offset + n \<le> length blob then Some (take n (drop offset blob)) else None)"

definition blob_write :: "bytes \<Rightarrow> bytes \<Rightarrow> nat \<Rightarrow> bytes option" where
  "blob_write blob data offset =
     (if offset + length data \<le> length blob
      then Some (take offset blob @ data @ drop (offset + length data) blob) else None)"

lemma blob_write_length: "blob_write b d o' = Some b' \<Longrightarrow> length b' = length b"
  by (auto simp: blob_write_def split: if_splits)

lemma blob_read_write_same: "blob_write b d o' = Some b' \<Longrightarrow> blob_read b' (length d) o' = Some d"
  by (auto simp: blob_write_def blob_read_def split: if_splits)

lemma blob_write_nth:
  "blob_write b d o' = Some b' \<Longrightarrow> i < length b \<Longrightarrow>
   b' ! i = (if o' \<le> i \<and> i < o' + length d then d ! (i - o') else b ! i)"
  by (auto simp: blob_write_def nth_append split: if_splits)

lemma blob_read_write_other:
  assumes "blob_write b d o' = Some b'" and "o2 + n \<le> o' \<or> o' + length d \<le> o2"
  shows "blob_read b' n o2 = blob_read b n o2"
proof (cases "o2 + n \<le> length b")
  case True
  have "take n (drop o2 b') = take n (drop o2 b)"
    using True assms blob_write_length [OF assms(1)]
    by (intro nth_equalityI) (auto simp: blob_write_nth [OF assms(1)])
  then show ?thesis by (simp add: blob_read_def blob_write_length [OF assms(1)])
qed (simp add: blob_read_def blob_write_length [OF assms(1)])

text \<open>Slots of \<open>n\<close> bytes: what was written to one is read back, and the others keep their contents.\<close>

lemma slots_disjoint: "i \<noteq> j \<Longrightarrow> i * n + n \<le> j * n \<or> j * n + n \<le> i * (n :: nat)"
  by (cases "i < j") (metis Suc_leI add.commute mult_Suc mult_le_mono1, metis Suc_leI add.commute linorder_neqE_nat mult_Suc mult_le_mono1)

lemma blob_slot:
  assumes "blob_write b d (i * n) = Some b'" and "length d = n"
  shows "blob_read b' n (j * n) = (if j = i then Some d else blob_read b n (j * n))"
  using assms blob_read_write_same [OF assms(1)] slots_disjoint [of j i n]
    blob_read_write_other [OF assms(1), of "j * n" n] by auto

section \<open>Integers in blobs\<close>

definition le_bytes :: "nat \<Rightarrow> 'a::len word \<Rightarrow> bytes" where
  "le_bytes n w = map (\<lambda>i. ucast (drop_bit (8 * i) w)) [0..<n]"

lemma length_le_bytes [simp]: "length (le_bytes n w) = n"
  by (simp add: le_bytes_def)

lemma le_word_le_bytes: "LENGTH('a) \<le> 8 * n \<Longrightarrow> le_word (le_bytes n w) = (w :: 'a::len word)"
proof (rule bit_word_eqI)
  fix k assume l: "LENGTH('a) \<le> 8 * n" and k: "k < LENGTH('a)"
  then have "k div 8 < n" by auto
  then have "bit (le_bytes n w ! (k div 8)) (k mod 8) = bit w (8 * (k div 8) + k mod 8)"
    by (simp add: le_bytes_def bit_ucast_iff bit_drop_bit_eq)
  with l k show "bit (le_word (le_bytes n w) :: 'a word) k = bit w k" by (simp add: bit_le_word)
qed

definition i64_bytes :: "int \<Rightarrow> bytes" where
  "i64_bytes v = le_bytes 8 (of_int v :: i64)"

definition i64_of_bytes :: "bytes \<Rightarrow> int" where
  "i64_of_bytes bs = sint (le_word bs :: i64)"

definition i64_at :: "bytes \<Rightarrow> nat \<Rightarrow> int" where
  "i64_at bs i = i64_of_bytes (take 8 (drop (8 * i) bs))"

definition is_i64 :: "int \<Rightarrow> bool" where
  "is_i64 v \<longleftrightarrow> - (2 ^ 63) \<le> v \<and> v < 2 ^ 63"

lemma i64_of_bytes_bytes: "is_i64 v \<Longrightarrow> i64_of_bytes (i64_bytes v) = v"
  by (simp add: i64_of_bytes_def i64_bytes_def le_word_le_bytes is_i64_def signed_of_int signed_take_bit_int_eq_self)

lemma i64_of_bytes_range: "is_i64 (i64_of_bytes bs)"
  using sint_range_size [of "le_word bs :: i64"] by (simp add: is_i64_def i64_of_bytes_def size_word_def)

lemma length_i64_bytes [simp]: "length (i64_bytes v) = 8"
  by (simp add: i64_bytes_def)

lemma i64_at_write:
  assumes "blob_write b (i64_bytes v) (i * 8) = Some b'" and "is_i64 v" and "8 * j + 8 \<le> length b"
  shows "i64_at b' j = (if j = i then v else i64_at b j)"
proof -
  have "blob_read b' 8 (j * 8) = (if j = i then Some (i64_bytes v) else blob_read b 8 (j * 8))"
    using blob_slot [OF assms(1)] by simp
  then show ?thesis
    using assms(3) blob_write_length [OF assms(1)] i64_of_bytes_bytes [OF assms(2)]
    by (auto simp: i64_at_def blob_read_def mult.commute split: if_splits)
qed

end
