(* ===== verification/Vtab.thy ===== *)
theory Vtab
  imports Tables VectorColumn Scalars
begin

text \<open>
  The definition of a vec0 table (\<open>struct vec0_vtab\<close>) and the functions that map the columns of the
  virtual table to the vector, partition, auxiliary and metadata columns.
\<close>

section \<open>The table definition\<close>

datatype vec0_user_column_kind =
    SQLITE_VEC0_USER_COLUMN_KIND_VECTOR
  | SQLITE_VEC0_USER_COLUMN_KIND_PARTITION
  | SQLITE_VEC0_USER_COLUMN_KIND_AUXILIARY
  | SQLITE_VEC0_USER_COLUMN_KIND_METADATA

text \<open>
  \<open>user_columns\<close> is \<open>user_column_kinds\<close> with \<open>user_column_idxs\<close>. The counters \<open>numVectorColumns\<close>,
  \<open>numPartitionColumns\<close>, \<open>numAuxiliaryColumns\<close> and \<open>numMetadataColumns\<close> are the lengths of the lists.
  The names of the shadow tables and the cached statements only address the tables, which are a
  part of the state of their own.
\<close>

record vec0_vtab =
  pkIsText :: bool
  hasCommandColumn :: bool
  user_columns :: "(vec0_user_column_kind \<times> nat) list"
  vector_columns :: "VectorColumnDefinition list"
  partition_columns :: "(string \<times> sqlite_type) list"
  auxiliary_columns :: "(string \<times> sqlite_type) list"
  metadata_columns :: "(string \<times> vec0_metadata_column_kind) list"
  chunk_size :: nat

definition vec0_num_defined_user_columns :: "vec0_vtab \<Rightarrow> nat" where
  "vec0_num_defined_user_columns p =
     length (vector_columns p) + length (partition_columns p) +
     length (auxiliary_columns p) + length (metadata_columns p)"

definition vec0_column_command_idx :: "vec0_vtab \<Rightarrow> nat" where
  "vec0_column_command_idx p = 1 + vec0_num_defined_user_columns p"

definition vec0_column_distance_idx :: "vec0_vtab \<Rightarrow> nat" where
  "vec0_column_distance_idx p =
     1 + vec0_num_defined_user_columns p + (if hasCommandColumn p then 1 else 0)"

definition vec0_column_k_idx :: "vec0_vtab \<Rightarrow> nat" where
  "vec0_column_k_idx p = 1 + vec0_num_defined_user_columns p + (if hasCommandColumn p then 2 else 1)"

definition vec0_column_idx_is_vector :: "vec0_vtab \<Rightarrow> int \<Rightarrow> bool" where
  "vec0_column_idx_is_vector p column_idx \<longleftrightarrow>
     1 \<le> column_idx \<and> column_idx \<le> 1 + int (vec0_num_defined_user_columns p) - 1 \<and>
     fst (user_columns p ! nat (column_idx - 1)) = SQLITE_VEC0_USER_COLUMN_KIND_VECTOR"

definition vec0_column_idx_to_vector_idx :: "vec0_vtab \<Rightarrow> int \<Rightarrow> nat" where
  "vec0_column_idx_to_vector_idx p column_idx = snd (user_columns p ! nat (column_idx - 1))"

definition vec0_column_idx_is_partition :: "vec0_vtab \<Rightarrow> int \<Rightarrow> bool" where
  "vec0_column_idx_is_partition p column_idx \<longleftrightarrow>
     1 \<le> column_idx \<and> column_idx \<le> 1 + int (vec0_num_defined_user_columns p) - 1 \<and>
     fst (user_columns p ! nat (column_idx - 1)) = SQLITE_VEC0_USER_COLUMN_KIND_PARTITION"

definition vec0_column_idx_to_partition_idx :: "vec0_vtab \<Rightarrow> int \<Rightarrow> nat" where
  "vec0_column_idx_to_partition_idx p column_idx = snd (user_columns p ! nat (column_idx - 1))"

definition vec0_column_idx_is_auxiliary :: "vec0_vtab \<Rightarrow> int \<Rightarrow> bool" where
  "vec0_column_idx_is_auxiliary p column_idx \<longleftrightarrow>
     1 \<le> column_idx \<and> column_idx \<le> 1 + int (vec0_num_defined_user_columns p) - 1 \<and>
     fst (user_columns p ! nat (column_idx - 1)) = SQLITE_VEC0_USER_COLUMN_KIND_AUXILIARY"

definition vec0_column_idx_to_auxiliary_idx :: "vec0_vtab \<Rightarrow> int \<Rightarrow> nat" where
  "vec0_column_idx_to_auxiliary_idx p column_idx = snd (user_columns p ! nat (column_idx - 1))"

definition vec0_column_idx_is_metadata :: "vec0_vtab \<Rightarrow> int \<Rightarrow> bool" where
  "vec0_column_idx_is_metadata p column_idx \<longleftrightarrow>
     1 \<le> column_idx \<and> column_idx \<le> 1 + int (vec0_num_defined_user_columns p) - 1 \<and>
     fst (user_columns p ! nat (column_idx - 1)) = SQLITE_VEC0_USER_COLUMN_KIND_METADATA"

definition vec0_column_idx_to_metadata_idx :: "vec0_vtab \<Rightarrow> int \<Rightarrow> nat" where
  "vec0_column_idx_to_metadata_idx p column_idx = snd (user_columns p ! nat (column_idx - 1))"

text \<open>\<open>vec0_all_columns_diskann\<close>: the table keeps no chunks when every vector column has a graph.\<close>

definition vec0_all_columns_diskann :: "vec0_vtab \<Rightarrow> bool" where
  "vec0_all_columns_diskann p \<longleftrightarrow>
     (\<forall>c \<in> set (vector_columns p). vc_index_type c = VEC0_INDEX_TYPE_DISKANN) \<and> 0 < length (vector_columns p)"

text \<open>The tables \<open>vec0_init\<close> builds: every user column is numbered within its kind.\<close>

definition kind_count :: "vec0_vtab \<Rightarrow> vec0_user_column_kind \<Rightarrow> nat" where
  "kind_count p kind = (case kind of
     SQLITE_VEC0_USER_COLUMN_KIND_VECTOR \<Rightarrow> length (vector_columns p)
   | SQLITE_VEC0_USER_COLUMN_KIND_PARTITION \<Rightarrow> length (partition_columns p)
   | SQLITE_VEC0_USER_COLUMN_KIND_AUXILIARY \<Rightarrow> length (auxiliary_columns p)
   | SQLITE_VEC0_USER_COLUMN_KIND_METADATA \<Rightarrow> length (metadata_columns p))"

definition vtab_ok :: "vec0_vtab \<Rightarrow> bool" where
  "vtab_ok p \<longleftrightarrow>
     length (user_columns p) = vec0_num_defined_user_columns p \<and>
     distinct (user_columns p) \<and>
     (\<forall>(kind, i) \<in> set (user_columns p). i < kind_count p kind) \<and>
     0 < chunk_size p \<and> 8 dvd chunk_size p \<and> chunk_size p \<le> 4096"

lemma vtab_kind_columns:
  assumes "vtab_ok p" and "i < kind_count p kind"
  shows "(kind, i) \<in> set (user_columns p)"
proof -
  define all where "all = (\<Union>k \<in> UNIV. {k} \<times> {..<kind_count p k})"
  have U: "(UNIV :: vec0_user_column_kind set) =
      {SQLITE_VEC0_USER_COLUMN_KIND_VECTOR, SQLITE_VEC0_USER_COLUMN_KIND_PARTITION,
       SQLITE_VEC0_USER_COLUMN_KIND_AUXILIARY, SQLITE_VEC0_USER_COLUMN_KIND_METADATA}"
    using vec0_user_column_kind.exhaust by blast
  have fin: "finite all" by (simp add: all_def U)
  have "card all = (\<Sum>k \<in> UNIV. kind_count p k)"
    unfolding all_def by (subst card_UN_disjoint) (auto simp: U)
  also have "\<dots> = vec0_num_defined_user_columns p"
    by (simp add: U kind_count_def vec0_num_defined_user_columns_def)
  finally have "card all = card (set (user_columns p))"
    using assms(1) distinct_card [of "user_columns p"] by (simp add: vtab_ok_def)
  moreover have "set (user_columns p) \<subseteq> all" using assms(1) by (auto simp: vtab_ok_def all_def)
  ultimately have "set (user_columns p) = all" using fin by (metis card_subset_eq)
  with assms(2) show ?thesis by (auto simp: all_def)
qed

lemma vtab_column_at:
  assumes "vtab_ok p" and "i < kind_count p kind"
  obtains j where "j < vec0_num_defined_user_columns p" and "user_columns p ! j = (kind, i)"
  using vtab_kind_columns [OF assms] assms(1) by (metis in_set_conv_nth vtab_ok_def)

end
