(* ===== verification/Shadow.thy ===== *)
theory Shadow
  imports Vtab
begin

text \<open>
  The shadow tables of a vec0 table and the lookups in them: the position of a row, the row of a
  text id, the latest chunk of a partition, a row's vector, partition and auxiliary values.
  DiskANN's graphs are kept by functions of their own; a state of type \<open>'g\<close> and the record
  \<open>diskann_api\<close> stand for them.
\<close>

section \<open>The state\<close>

record vec0_chunk =
  ck_size :: nat
  ck_validity :: bytes
  ck_rowids :: bytes
  ck_partition :: "sqlite3_value list"

text \<open>A row of \<open>_rowids\<close>; \<open>rr_pos\<close> is \<open>None\<close> while its position columns are NULL.\<close>

record rowids_row =
  rr_id :: "sqlite3_value option"
  rr_pos :: "(int \<times> int) option"

text \<open>
  The tables by name; \<open>seq_chunks\<close> and \<open>seq_rowids\<close> are the largest rowids the two AUTOINCREMENT
  tables ever had.
\<close>

record 'g vec0_db =
  t_chunks :: "vec0_chunk table"
  seq_chunks :: int
  t_rowids :: "rowids_row table"
  seq_rowids :: int
  t_vectors :: "nat \<Rightarrow> bytes table"
  t_metadata :: "nat \<Rightarrow> bytes table"
  t_metatext :: "nat \<Rightarrow> string table"
  t_aux :: "sqlite3_value list table"
  t_rescore_chunks :: "nat \<Rightarrow> bytes table"
  t_rescore_vectors :: "nat \<Rightarrow> bytes table"
  t_diskann :: 'g

record 'g diskann_api =
  api_insert :: "nat \<Rightarrow> int \<Rightarrow> bytes \<Rightarrow> 'g \<Rightarrow> 'g result"
  api_delete :: "nat \<Rightarrow> int \<Rightarrow> 'g \<Rightarrow> 'g result"
  api_vector_read :: "nat \<Rightarrow> int \<Rightarrow> 'g \<Rightarrow> bytes result"

text \<open>
  SQL's \<open>=\<close> on the values partition keys and text ids can have: integers and texts compare by
  value, and NULL equals nothing, not even NULL.
\<close>

definition sql_eq :: "sqlite3_value \<Rightarrow> sqlite3_value \<Rightarrow> bool" where
  "sql_eq a b \<longleftrightarrow>
     (value_type a = SQLITE_INTEGER \<and> value_type b = SQLITE_INTEGER \<and> value_int64 a = value_int64 b) \<or>
     (value_type a = SQLITE_TEXT \<and> value_type b = SQLITE_TEXT \<and> value_text a = value_text b)"

section \<open>Positions and ids\<close>

text \<open>
  \<open>id\<close>, \<open>chunk_id\<close> and \<open>chunk_offset\<close> of a row; reading a NULL column as an integer gives 0.
\<close>

definition vec0_get_chunk_position ::
  "faults \<Rightarrow> 'g vec0_db \<Rightarrow> int \<Rightarrow> (sqlite3_value option \<times> int \<times> int) result"
where
  "vec0_get_chunk_position F db rowid =
     attempt F ''get chunk position'' 0
       (case tbl_get (t_rowids db) rowid of
          None \<Rightarrow> Inl SQLITE_EMPTY
        | Some r \<Rightarrow> (case rr_pos r of
            None \<Rightarrow> Inr (rr_id r, 0, 0)
          | Some (chunk_id, chunk_offset) \<Rightarrow> Inr (rr_id r, chunk_id, chunk_offset)))"

definition vec0_get_id_value_from_rowid :: "faults \<Rightarrow> 'g vec0_db \<Rightarrow> int \<Rightarrow> sqlite3_value option result" where
  "vec0_get_id_value_from_rowid F db rowid =
     rbind (vec0_get_chunk_position F db rowid) (\<lambda>(id, _, _). Inr id)"

definition vec0_rowid_from_id :: "faults \<Rightarrow> 'g vec0_db \<Rightarrow> sqlite3_value \<Rightarrow> int result" where
  "vec0_rowid_from_id F db valueId =
     attempt F ''rowid from id'' 0
       (case filter (\<lambda>(rowid, r). case rr_id r of Some v \<Rightarrow> sql_eq v valueId | None \<Rightarrow> False) (t_rowids db) of
          [] \<Rightarrow> Inl SQLITE_EMPTY
        | [(rowid, r)] \<Rightarrow> Inr rowid
        | _ \<Rightarrow> Inl SQLITE_ROW)"

text \<open>The result of the \<open>rowid\<close> or id column: the rowid itself, or the text id.\<close>

definition vec0_result_id :: "vec0_vtab \<Rightarrow> faults \<Rightarrow> 'g vec0_db \<Rightarrow> int \<Rightarrow> (int + sqlite3_value option) result" where
  "vec0_result_id p F db rowid =
     (if \<not> pkIsText p then Inr (Inl rowid)
      else rbind (vec0_get_id_value_from_rowid F db rowid) (\<lambda>v. Inr (Inr v)))"

section \<open>Values of a row\<close>

definition vec0_get_vector_data ::
  "vec0_vtab \<Rightarrow> faults \<Rightarrow> 'g diskann_api \<Rightarrow> 'g vec0_db \<Rightarrow> int \<Rightarrow> nat \<Rightarrow> bytes result"
where
  "vec0_get_vector_data p F api db rowid i =
    (let column = vector_columns p ! i; size = vector_column_byte_size column
     in if vc_index_type column = VEC0_INDEX_TYPE_DISKANN then
          (case api_vector_read api i rowid (t_diskann db) of
             Inl rc \<Rightarrow> Inl SQLITE_ERROR
           | Inr vec \<Rightarrow> Inr vec)
        else if vc_index_type column = VEC0_INDEX_TYPE_RESCORE then
          attempt F ''read rescore vector'' i
            (case tbl_get (t_rescore_vectors db i) rowid of
               None \<Rightarrow> Inl SQLITE_ERROR
             | Some blob \<Rightarrow>
                 (case blob_read blob size 0 of None \<Rightarrow> Inl SQLITE_ERROR | Some buf \<Rightarrow> Inr buf))
        else
          rbind (vec0_get_chunk_position F db rowid) (\<lambda>(_, chunk_id, chunk_offset).
          attempt F ''read vector'' i
            (case tbl_get (t_vectors db i) chunk_id of
               None \<Rightarrow> Inl SQLITE_ERROR
             | Some blob \<Rightarrow>
                 (case blob_read blob size (nat chunk_offset * size) of
                    None \<Rightarrow> Inl SQLITE_ERROR
                  | Some buf \<Rightarrow> Inr buf))))"

definition vec0_get_partition_value_for_rowid ::
  "faults \<Rightarrow> 'g vec0_db \<Rightarrow> int \<Rightarrow> nat \<Rightarrow> sqlite3_value result"
where
  "vec0_get_partition_value_for_rowid F db rowid partition_idx =
     rbind (vec0_get_chunk_position F db rowid) (\<lambda>(_, chunk_id, chunk_offset).
       attempt F ''read partition'' 0
         (case tbl_get (t_chunks db) chunk_id of
            None \<Rightarrow> Inl SQLITE_ERROR
          | Some chunk \<Rightarrow> Inr (ck_partition chunk ! partition_idx)))"

definition vec0_get_auxiliary_value_for_rowid ::
  "faults \<Rightarrow> 'g vec0_db \<Rightarrow> int \<Rightarrow> nat \<Rightarrow> sqlite3_value result"
where
  "vec0_get_auxiliary_value_for_rowid F db rowid auxiliary_idx =
     attempt F ''read auxiliary'' 0
       (case tbl_get (t_aux db) rowid of
          None \<Rightarrow> Inl SQLITE_ERROR
        | Some vals \<Rightarrow> Inr (vals ! auxiliary_idx))"

section \<open>Chunks\<close>

text \<open>\<open>SELECT max(rowid) FROM _chunks WHERE partition00 = ? AND ...\<close>: the last matching row.\<close>

definition partition_matches :: "sqlite3_value list \<Rightarrow> vec0_chunk \<Rightarrow> bool" where
  "partition_matches partitionKeyValues chunk \<longleftrightarrow> list_all2 sql_eq (ck_partition chunk) partitionKeyValues"

definition vec0_get_latest_chunk_rowid ::
  "faults \<Rightarrow> 'g vec0_db \<Rightarrow> sqlite3_value list \<Rightarrow> int result"
where
  "vec0_get_latest_chunk_rowid F db partitionKeyValues =
     attempt F ''latest chunk'' 0
       (case rev (filter (\<lambda>(rowid, chunk). partition_matches partitionKeyValues chunk) (t_chunks db)) of
          [] \<Rightarrow> Inl SQLITE_EMPTY
        | (rowid, chunk) # _ \<Rightarrow> Inr rowid)"

section \<open>\<open>_rowids\<close>\<close>

definition vec0_rowids_insert_rowid :: "faults \<Rightarrow> 'g vec0_db \<Rightarrow> int \<Rightarrow> 'g vec0_db result" where
  "vec0_rowids_insert_rowid F db rowid =
     attempt F ''insert rowid'' 0
       (case tbl_insert (t_rowids db) rowid \<lparr>rr_id = None, rr_pos = None\<rparr> of
          Inl _ \<Rightarrow> Inl SQLITE_ERROR
        | Inr t \<Rightarrow> Inr (db\<lparr>t_rowids := t, seq_rowids := max (seq_rowids db) rowid\<rparr>))"

text \<open>
  \<open>INSERT INTO _rowids(id) VALUES (?)\<close>: the id must not be taken when the primary key is a text, and
  the rowid is the next one, unless the largest one is in use already.
\<close>

definition vec0_rowids_insert_id ::
  "vec0_vtab \<Rightarrow> faults \<Rightarrow> 'g vec0_db \<Rightarrow> sqlite3_value option \<Rightarrow> ('g vec0_db \<times> int) result"
where
  "vec0_rowids_insert_id p F db idValue =
     attempt F ''insert id'' 0
       (if pkIsText p \<and> (idValue = None \<or>
              (\<exists>(rowid, r) \<in> set (t_rowids db). case rr_id r of Some v \<Rightarrow> sql_eq v (the idValue) | None \<Rightarrow> False))
        then Inl SQLITE_ERROR
        else if seq_rowids db \<ge> 2 ^ 63 - 1 then Inl SQLITE_ERROR
        else let rowid = max 0 (seq_rowids db) + 1
             in Inr (db\<lparr>t_rowids := tbl_put (t_rowids db) rowid \<lparr>rr_id = idValue, rr_pos = None\<rparr>,
                        seq_rowids := rowid\<rparr>, rowid))"

definition vec0_rowids_update_position ::
  "faults \<Rightarrow> 'g vec0_db \<Rightarrow> int \<Rightarrow> int \<Rightarrow> int \<Rightarrow> 'g vec0_db result"
where
  "vec0_rowids_update_position F db rowid chunk_rowid chunk_offset =
     attempt F ''update position'' 0
       (Inr (case tbl_get (t_rowids db) rowid of
          None \<Rightarrow> db
        | Some r \<Rightarrow> db\<lparr>t_rowids := tbl_put (t_rowids db) rowid (r\<lparr>rr_pos := Some (chunk_rowid, chunk_offset)\<rparr>)\<rparr>))"

fun vec0_metadata_chunk_size :: "vec0_metadata_column_kind \<Rightarrow> nat \<Rightarrow> nat" where
  "vec0_metadata_chunk_size VEC0_METADATA_COLUMN_KIND_BOOLEAN csize = csize div 8"
| "vec0_metadata_chunk_size VEC0_METADATA_COLUMN_KIND_INTEGER csize = csize * 8"
| "vec0_metadata_chunk_size VEC0_METADATA_COLUMN_KIND_FLOAT csize = csize * 8"
| "vec0_metadata_chunk_size VEC0_METADATA_COLUMN_KIND_TEXT csize = csize * 16"

end
