(* ===== verification/Rescore.thy ===== *)
theory Rescore
  imports Shadow
begin

text \<open>
  The rescore index (\<open>sqlite-vec-rescore.c\<close>): the quantizers, the two shadow tables it keeps for a
  column (quantized vectors in chunks, full vectors by rowid), and its command.
\<close>

section \<open>Quantization\<close>

definition rescore_quantized_byte_size :: "VectorColumnDefinition \<Rightarrow> nat" where
  "rescore_quantized_byte_size col = (case rs_quantizer_type (vc_rescore col) of
     VEC0_RESCORE_QUANTIZER_BIT \<Rightarrow> vc_dimensions col div 8
   | VEC0_RESCORE_QUANTIZER_INT8 \<Rightarrow> vc_dimensions col
   | VEC0_RESCORE_QUANTIZER_UNSET \<Rightarrow> 0)"

text \<open>The same loop as \<open>vec_quantize_binary\<close>, but an element that is zero sets its bit.\<close>

definition rescore_quantize_float_to_bit :: "bytes \<Rightarrow> nat \<Rightarrow> bytes" where
  "rescore_quantize_float_to_bit src dimensions =
     fold (\<lambda>i dst. if fp_le fp0 (f32_at src i)
                   then dst[i div 8 := dst ! (i div 8) OR push_bit (i mod 8) 1] else dst)
       [0..<dimensions] (replicate (dimensions div 8) 0)"

definition rescore_int8_step :: f32 where
  "rescore_int8_step = fp_div binary32 (fp_of_int binary32 2) (fp_of_int binary32 255)"

definition rescore_quantize_int8 :: "f32 \<Rightarrow> int" where
  "rescore_quantize_int8 x =
     (let v = f32_sub (fp_div binary32 (f32_sub x (fp_of_int binary32 (- 1))) rescore_int8_step)
                (fp_of_int binary32 128);
          v = (if \<not> fp_le v (fp_of_int binary32 127) then fp_of_int binary32 127 else v);
          v = (if \<not> fp_le (fp_of_int binary32 (- 128)) v then fp_of_int binary32 (- 128) else v)
      in fp_trunc v)"

definition rescore_quantize_float_to_int8 :: "bytes \<Rightarrow> nat \<Rightarrow> bytes" where
  "rescore_quantize_float_to_int8 src dimensions =
     map (\<lambda>i. of_int (rescore_quantize_int8 (f32_at src i))) [0..<dimensions]"

text \<open>The buffer the callers fill; it is not written when the column has no quantizer.\<close>

definition rescore_quantize :: "VectorColumnDefinition \<Rightarrow> bytes \<Rightarrow> bytes" where
  "rescore_quantize col vec = (case rs_quantizer_type (vc_rescore col) of
     VEC0_RESCORE_QUANTIZER_BIT \<Rightarrow> rescore_quantize_float_to_bit vec (vc_dimensions col)
   | VEC0_RESCORE_QUANTIZER_INT8 \<Rightarrow> rescore_quantize_float_to_int8 vec (vc_dimensions col)
   | VEC0_RESCORE_QUANTIZER_UNSET \<Rightarrow> [])"

section \<open>Rows and chunks\<close>

text \<open>The loops over the vector columns that have this index.\<close>

definition is_rescore :: "vec0_vtab \<Rightarrow> nat \<Rightarrow> bool" where
  "is_rescore p i \<longleftrightarrow> vc_index_type (vector_columns p ! i) = VEC0_INDEX_TYPE_RESCORE"

definition rescore_new_chunk :: "vec0_vtab \<Rightarrow> faults \<Rightarrow> int \<Rightarrow> 'g vec0_db \<Rightarrow> 'g vec0_db result" where
  "rescore_new_chunk p F chunk_rowid db =
     fold_result (\<lambda>i db.
       if \<not> is_rescore p i then Inr db
       else attempt F ''new rescore chunk'' i
         (rbind (tbl_insert (t_rescore_chunks db i) chunk_rowid
                   (replicate (chunk_size p * rescore_quantized_byte_size (vector_columns p ! i)) 0))
            (\<lambda>t. Inr (db\<lparr>t_rescore_chunks := (t_rescore_chunks db)(i := t)\<rparr>))))
       [0..<length (vector_columns p)] db"

text \<open>Writing to a chunk's blob in place: opening it fails if the row is missing.\<close>

definition chunk_blob_write :: "bytes table \<Rightarrow> int \<Rightarrow> bytes \<Rightarrow> nat \<Rightarrow> bytes table result" where
  "chunk_blob_write t chunk_rowid data offset = (case tbl_get t chunk_rowid of
     None \<Rightarrow> Inl SQLITE_ERROR
   | Some blob \<Rightarrow>
       (case blob_write blob data offset of
          None \<Rightarrow> Inl SQLITE_ERROR
        | Some blob' \<Rightarrow> Inr (tbl_put t chunk_rowid blob')))"

definition rescore_on_insert ::
  "vec0_vtab \<Rightarrow> faults \<Rightarrow> int \<Rightarrow> int \<Rightarrow> int \<Rightarrow> bytes list \<Rightarrow> 'g vec0_db \<Rightarrow> 'g vec0_db result"
where
  "rescore_on_insert p F chunk_rowid chunk_offset rowid vectorDatas db =
     fold_result (\<lambda>i db.
       if \<not> is_rescore p i then Inr db
       else let col = vector_columns p ! i; qsize = rescore_quantized_byte_size col;
                fsize = vector_column_byte_size col
       in attempt F ''insert rescore chunk'' i
         (rbind (chunk_blob_write (t_rescore_chunks db i) chunk_rowid
                   (rescore_quantize col (vectorDatas ! i)) (nat chunk_offset * qsize))
            (\<lambda>t. attempt F ''insert rescore vector'' i
               (case tbl_insert (t_rescore_vectors db i) rowid (take fsize (vectorDatas ! i)) of
                  Inl _ \<Rightarrow> Inl SQLITE_ERROR
                | Inr tv \<Rightarrow>
                    Inr (db\<lparr>t_rescore_chunks := (t_rescore_chunks db)(i := t),
                            t_rescore_vectors := (t_rescore_vectors db)(i := tv)\<rparr>)))))
       [0..<length (vector_columns p)] db"

definition rescore_on_delete ::
  "vec0_vtab \<Rightarrow> faults \<Rightarrow> int \<Rightarrow> int \<Rightarrow> int \<Rightarrow> 'g vec0_db \<Rightarrow> 'g vec0_db result"
where
  "rescore_on_delete p F chunk_id chunk_offset rowid db =
     fold_result (\<lambda>i db.
       if \<not> is_rescore p i then Inr db
       else let qsize = rescore_quantized_byte_size (vector_columns p ! i)
       in attempt F ''clear rescore chunk'' i
         (rbind (chunk_blob_write (t_rescore_chunks db i) chunk_id (replicate qsize 0) (nat chunk_offset * qsize))
            (\<lambda>t. attempt F ''delete rescore vector'' i
               (Inr (db\<lparr>t_rescore_chunks := (t_rescore_chunks db)(i := t),
                        t_rescore_vectors := (t_rescore_vectors db)(i := tbl_del (t_rescore_vectors db i) rowid)\<rparr>)))))
       [0..<length (vector_columns p)] db"

definition rescore_delete_chunk :: "vec0_vtab \<Rightarrow> faults \<Rightarrow> int \<Rightarrow> 'g vec0_db \<Rightarrow> 'g vec0_db result" where
  "rescore_delete_chunk p F chunk_id db =
     fold_result (\<lambda>i db.
       if \<not> is_rescore p i then Inr db
       else attempt F ''delete rescore chunk'' i
         (Inr (db\<lparr>t_rescore_chunks := (t_rescore_chunks db)(i := tbl_del (t_rescore_chunks db i) chunk_id)\<rparr>)))
       [0..<length (vector_columns p)] db"

section \<open>The command\<close>

text \<open>
  \<open>oversample=<n>\<close> sets \<open>oversample_search\<close> of every column that has this index.
\<close>

definition rescore_handle_command :: "vec0_vtab \<Rightarrow> string \<Rightarrow> vec0_vtab result" where
  "rescore_handle_command p command =
     (if take 11 command = ''oversample='' then
        let val = atoi (drop 11 command)
        in if val < 1 then Inl SQLITE_ERROR
           else Inr (p\<lparr>vector_columns :=
                  map (\<lambda>c. if vc_index_type c = VEC0_INDEX_TYPE_RESCORE
                           then c\<lparr>vc_rescore := (vc_rescore c)\<lparr>rs_oversample_search := val\<rparr>\<rparr> else c)
                    (vector_columns p)\<rparr>)
      else Inl SQLITE_EMPTY)"

end
