(* ===== verification/Metadata.thy ===== *)
theory Metadata
  imports Rescore
begin

text \<open>
  The values of metadata columns in their chunks: one bit for a boolean, eight bytes for an integer
  or a float, and for a text a 16-byte view (its length and its first twelve bytes), with texts
  longer than that in a table of their own. Writing, clearing and reading one row's value.
\<close>

section \<open>Doubles in blobs\<close>

definition bits_of_f64 :: "f64 \<Rightarrow> u64" where
  "bits_of_f64 x = (case x of
     FNaN \<Rightarrow> 0x7FF8000000000000
   | FInf s \<Rightarrow> (if s then 0xFFF0000000000000 else 0x7FF0000000000000)
   | FFin s m e \<Rightarrow>
       (if s then 0x8000000000000000 else 0) +
       (if m < 2 ^ 52 then of_nat m else of_nat (nat (e + 1075) * 2 ^ 52 + (m - 2 ^ 52))))"

definition f64_of_bits :: "u64 \<Rightarrow> f64" where
  "f64_of_bits w =
     (let s = bit w 63; ex = unat (drop_bit 52 w AND 2047); fr = unat (w AND 0xFFFFFFFFFFFFF)
      in if ex = 2047 then (if fr = 0 then FInf s else FNaN)
         else if ex = 0 then FFin s fr (-1074)
         else FFin s (fr + 2 ^ 52) (int ex - 1075))"

definition f64_bytes :: "f64 \<Rightarrow> bytes" where
  "f64_bytes x = le_bytes 8 (bits_of_f64 x)"

definition f64_of_bytes :: "bytes \<Rightarrow> f64" where
  "f64_of_bytes bs = f64_of_bits (le_word bs)"

section \<open>Text views\<close>

definition char_bytes :: "string \<Rightarrow> bytes" where
  "char_bytes s = map of_char s"

definition bytes_char :: "bytes \<Rightarrow> string" where
  "bytes_char bs = map (\<lambda>b. char_of (unat b)) bs"

definition i32_bytes :: "int \<Rightarrow> bytes" where
  "i32_bytes v = le_bytes 4 (of_int v :: i32)"

definition i32_of_bytes :: "bytes \<Rightarrow> int" where
  "i32_of_bytes bs = sint (le_word bs :: i32)"

definition VEC0_METADATA_TEXT_VIEW_BUFFER_LENGTH :: nat where
  "VEC0_METADATA_TEXT_VIEW_BUFFER_LENGTH = 16"

definition VEC0_METADATA_TEXT_VIEW_DATA_LENGTH :: nat where
  "VEC0_METADATA_TEXT_VIEW_DATA_LENGTH = 12"

text \<open>The view of a text: its length, and as much of it as fits, over zeros.\<close>

definition text_view :: "string \<Rightarrow> bytes" where
  "text_view s = (let d = take 12 (char_bytes s) in i32_bytes (int (length s)) @ d @ replicate (12 - length d) 0)"

section \<open>Writing\<close>

text \<open>A write that fails leaves the blob as it is; the code does not look at its result.\<close>

definition write_or_keep :: "bytes \<Rightarrow> bytes \<Rightarrow> nat \<Rightarrow> bytes" where
  "write_or_keep blob data offset = (case blob_write blob data offset of None \<Rightarrow> blob | Some b \<Rightarrow> b)"

definition metadata_type_ok :: "vec0_metadata_column_kind \<Rightarrow> sqlite3_value \<Rightarrow> bool" where
  "metadata_type_ok kind v = (case kind of
     VEC0_METADATA_COLUMN_KIND_BOOLEAN \<Rightarrow>
       \<not> (value_type v \<noteq> SQLITE_INTEGER \<or> (value_int v \<noteq> 0 \<and> value_int v \<noteq> 1))
   | VEC0_METADATA_COLUMN_KIND_INTEGER \<Rightarrow> value_type v = SQLITE_INTEGER
   | VEC0_METADATA_COLUMN_KIND_FLOAT \<Rightarrow> value_type v = SQLITE_FLOAT
   | VEC0_METADATA_COLUMN_KIND_TEXT \<Rightarrow> value_type v = SQLITE_TEXT)"

text \<open>The table of long texts after a text is written over a value whose length was \<open>prev_n\<close>.\<close>

definition metatext_after_write ::
  "faults \<Rightarrow> nat \<Rightarrow> bool \<Rightarrow> int \<Rightarrow> int \<Rightarrow> string \<Rightarrow> string table \<Rightarrow> string table result"
where
  "metatext_after_write F i isupdate prev_n rowid s t =
     (if 12 < length s then
        (if isupdate \<and> 12 < prev_n
         then attempt F ''update long text'' i
           (Inr (case tbl_get t rowid of None \<Rightarrow> t | Some _ \<Rightarrow> tbl_put t rowid s))
         else attempt F ''insert long text'' i
           (case tbl_insert t rowid s of Inl _ \<Rightarrow> Inl SQLITE_ERROR | Inr t' \<Rightarrow> Inr t'))
      else if 12 < prev_n then attempt F ''delete long text'' i (Inr (tbl_del t rowid))
      else Inr t)"

definition vec0_write_metadata_value ::
  "vec0_vtab \<Rightarrow> faults \<Rightarrow> nat \<Rightarrow> int \<Rightarrow> int \<Rightarrow> int \<Rightarrow> sqlite3_value \<Rightarrow> bool \<Rightarrow> 'g vec0_db \<Rightarrow> 'g vec0_db result"
where
  "vec0_write_metadata_value p F i rowid chunk_id chunk_offset v isupdate db =
    (let kind = snd (metadata_columns p ! i); off = nat chunk_offset;
         store = (\<lambda>blob. db\<lparr>t_metadata := (t_metadata db)(i := tbl_put (t_metadata db i) chunk_id blob)\<rparr>)
     in if \<not> metadata_type_ok kind v then Inl SQLITE_ERROR
        else attempt F ''open metadata'' i
          (case tbl_get (t_metadata db i) chunk_id of
             None \<Rightarrow> Inl SQLITE_ERROR
           | Some blob \<Rightarrow>
              (case kind of
                 VEC0_METADATA_COLUMN_KIND_BOOLEAN \<Rightarrow>
                   (case blob_read blob 1 (off div 8) of
                      None \<Rightarrow> Inl SQLITE_ERROR
                    | Some block \<Rightarrow>
                        let block' = (if value_int v \<noteq> 0 then set_bit (off mod 8) (block ! 0)
                                      else unset_bit (off mod 8) (block ! 0))
                        in Inr (store (write_or_keep blob [block'] (off div 8))))
               | VEC0_METADATA_COLUMN_KIND_INTEGER \<Rightarrow>
                   Inr (store (write_or_keep blob (i64_bytes (value_int64 v)) (off * 8)))
               | VEC0_METADATA_COLUMN_KIND_FLOAT \<Rightarrow>
                   Inr (store (write_or_keep blob (f64_bytes (value_double v)) (off * 8)))
               | VEC0_METADATA_COLUMN_KIND_TEXT \<Rightarrow>
                   (case blob_read blob 4 (off * 16) of
                      None \<Rightarrow> Inl SQLITE_ERROR
                    | Some prev \<Rightarrow>
                        rbind (metatext_after_write F i isupdate (i32_of_bytes prev) rowid (value_text v)
                                 (t_metatext db i))
                          (\<lambda>t. Inr ((store (write_or_keep blob (text_view (value_text v)) (off * 16)))
                                      \<lparr>t_metatext := (t_metatext db)(i := t)\<rparr>))))))"

section \<open>Clearing\<close>

definition vec0Update_Delete_ClearMetadata ::
  "vec0_vtab \<Rightarrow> faults \<Rightarrow> nat \<Rightarrow> int \<Rightarrow> int \<Rightarrow> int \<Rightarrow> 'g vec0_db \<Rightarrow> 'g vec0_db result"
where
  "vec0Update_Delete_ClearMetadata p F i rowid chunk_id chunk_offset db =
    (let kind = snd (metadata_columns p ! i); off = nat chunk_offset;
         store = (\<lambda>blob. db\<lparr>t_metadata := (t_metadata db)(i := tbl_put (t_metadata db i) chunk_id blob)\<rparr>);
         write = (\<lambda>blob data offset. case blob_write blob data offset of
                    None \<Rightarrow> Inl SQLITE_ERROR | Some b \<Rightarrow> Inr (store b))
     in attempt F ''clear metadata'' i
          (case tbl_get (t_metadata db i) chunk_id of
             None \<Rightarrow> Inl SQLITE_ERROR
           | Some blob \<Rightarrow>
              (case kind of
                 VEC0_METADATA_COLUMN_KIND_BOOLEAN \<Rightarrow>
                   (case blob_read blob 1 (off div 8) of
                      None \<Rightarrow> Inl SQLITE_ERROR
                    | Some block \<Rightarrow> write blob [unset_bit (off mod 8) (block ! 0)] (off div 8))
               | VEC0_METADATA_COLUMN_KIND_INTEGER \<Rightarrow> write blob (i64_bytes 0) (off * 8)
               | VEC0_METADATA_COLUMN_KIND_FLOAT \<Rightarrow> write blob (f64_bytes (FFin False 0 (-1074))) (off * 8)
               | VEC0_METADATA_COLUMN_KIND_TEXT \<Rightarrow>
                   (case blob_read blob 4 (off * 16) of
                      None \<Rightarrow> Inl SQLITE_ERROR
                    | Some n \<Rightarrow>
                        rbind (write blob (replicate 16 0) (off * 16)) (\<lambda>db'.
                          if 12 < i32_of_bytes n
                          then attempt F ''delete long text'' i
                            (Inr (db'\<lparr>t_metatext := (t_metatext db')(i := tbl_del (t_metatext db' i) rowid)\<rparr>))
                          else Inr db')))))"

section \<open>Reading\<close>

datatype metadata_value = MBool int | MInt int | MFloat f64 | MText string

definition vec0_result_metadata_value_for_rowid ::
  "vec0_vtab \<Rightarrow> faults \<Rightarrow> 'g vec0_db \<Rightarrow> int \<Rightarrow> nat \<Rightarrow> metadata_value result"
where
  "vec0_result_metadata_value_for_rowid p F db rowid i =
     rbind (vec0_get_chunk_position F db rowid) (\<lambda>(_, chunk_id, chunk_offset).
       let off = nat chunk_offset
       in attempt F ''read metadata'' i
         (case tbl_get (t_metadata db i) chunk_id of
            None \<Rightarrow> Inl SQLITE_ERROR
          | Some blob \<Rightarrow>
             (case snd (metadata_columns p ! i) of
                VEC0_METADATA_COLUMN_KIND_BOOLEAN \<Rightarrow>
                  (case blob_read blob 1 (off div 8) of
                     None \<Rightarrow> Inl SQLITE_ERROR
                   | Some block \<Rightarrow> Inr (MBool (uint (drop_bit (off mod 8) (block ! 0) AND 1))))
              | VEC0_METADATA_COLUMN_KIND_INTEGER \<Rightarrow>
                  (case blob_read blob 8 (off * 8) of
                     None \<Rightarrow> Inl SQLITE_ERROR | Some value \<Rightarrow> Inr (MInt (i64_of_bytes value)))
              | VEC0_METADATA_COLUMN_KIND_FLOAT \<Rightarrow>
                  (case blob_read blob 8 (off * 8) of
                     None \<Rightarrow> Inl SQLITE_ERROR | Some value \<Rightarrow> Inr (MFloat (f64_of_bytes value)))
              | VEC0_METADATA_COLUMN_KIND_TEXT \<Rightarrow>
                  (case blob_read blob 16 (off * 16) of
                     None \<Rightarrow> Inl SQLITE_ERROR
                   | Some view \<Rightarrow>
                       let len = i32_of_bytes (take 4 view)
                       in if len \<le> 12 then Inr (MText (bytes_char (take (nat len) (drop 4 view))))
                          else attempt F ''read long text'' i
                            (case tbl_get (t_metatext db i) rowid of
                               None \<Rightarrow> Inl SQLITE_ERROR | Some s \<Rightarrow> Inr (MText s))))))"

end
