(* ===== verification/Update.thy ===== *)
theory Update
  imports Metadata
begin

text \<open>
  Changing a vec0 table: new chunks, inserting a row at the next free position, deleting a row and
  the chunk it leaves empty, updating a row, and \<open>vec0Update\<close>, which dispatches them. On an error
  SQLite rolls the statement's changes back, so an operation returns the new state or the code.
\<close>

section \<open>New chunks\<close>

definition vec0_new_chunk ::
  "vec0_vtab \<Rightarrow> faults \<Rightarrow> sqlite3_value list \<Rightarrow> 'g vec0_db \<Rightarrow> ('g vec0_db \<times> int) result"
where
  "vec0_new_chunk p F partitionKeyValues db =
    (let rowid = seq_chunks db + 1;
         chunk = \<lparr>ck_size = chunk_size p, ck_validity = replicate (chunk_size p div 8) 0,
                  ck_rowids = replicate (chunk_size p * 8) 0, ck_partition = partitionKeyValues\<rparr>
     in attempt F ''insert chunk'' 0
       (if seq_chunks db \<ge> 2 ^ 63 - 1 then Inl SQLITE_ERROR
        else
          rbind (fold_result (\<lambda>i db.
             if fst (user_columns p ! i) \<noteq> SQLITE_VEC0_USER_COLUMN_KIND_VECTOR then Inr db
             else let idx = snd (user_columns p ! i)
             in if vc_index_type (vector_columns p ! idx) \<noteq> VEC0_INDEX_TYPE_FLAT then Inr db
                else attempt F ''insert vector chunk'' i
                  (rbind (tbl_insert (t_vectors db idx) rowid
                            (replicate (chunk_size p * vector_column_byte_size (vector_columns p ! idx)) 0))
                     (\<lambda>t. Inr (db\<lparr>t_vectors := (t_vectors db)(idx := t)\<rparr>))))
             [0..<vec0_num_defined_user_columns p]
             (db\<lparr>t_chunks := tbl_put (t_chunks db) rowid chunk, seq_chunks := rowid\<rparr>))
          (\<lambda>db. rbind (rescore_new_chunk p F rowid db)
          (\<lambda>db. rbind (fold_result (\<lambda>i db.
             if fst (user_columns p ! i) \<noteq> SQLITE_VEC0_USER_COLUMN_KIND_METADATA then Inr db
             else let idx = snd (user_columns p ! i)
             in attempt F ''insert metadata chunk'' i
                  (rbind (tbl_insert (t_metadata db idx) rowid
                            (replicate (vec0_metadata_chunk_size (snd (metadata_columns p ! idx)) (chunk_size p)) 0))
                     (\<lambda>t. Inr (db\<lparr>t_metadata := (t_metadata db)(idx := t)\<rparr>))))
             [0..<vec0_num_defined_user_columns p] db)
          (\<lambda>db. Inr (db, rowid))))))"

section \<open>Inserting a row\<close>

definition vec0Update_InsertRowidStep ::
  "vec0_vtab \<Rightarrow> faults \<Rightarrow> sqlite3_value \<Rightarrow> 'g vec0_db \<Rightarrow> ('g vec0_db \<times> int) result"
where
  "vec0Update_InsertRowidStep p F idValue db =
     (if pkIsText p then
        (if value_type idValue \<noteq> SQLITE_TEXT then Inl SQLITE_ERROR
         else vec0_rowids_insert_id p F db (Some idValue))
      else if value_type idValue = SQLITE_INTEGER then
        rbind (vec0_rowids_insert_rowid F db (value_int64 idValue)) (\<lambda>db. Inr (db, value_int64 idValue))
      else if value_type idValue \<noteq> SQLITE_NULL then Inl SQLITE_ERROR
      else vec0_rowids_insert_id p F db None)"

text \<open>The first zero bit of a validity bitmap, byte by byte; full bytes are skipped.\<close>

fun first_free :: "nat \<Rightarrow> bytes \<Rightarrow> nat option" where
  "first_free i [] = None"
| "first_free i (b # bs) =
     (if b = 255 then first_free (Suc i) bs
      else case List.find (\<lambda>j. drop_bit j b AND 1 = 0) [0..<8] of
             Some j \<Rightarrow> Some (i * 8 + j)
           | None \<Rightarrow> first_free (Suc i) bs)"

text \<open>
  The chunk and offset for a new row, and the chunk's validity bitmap. When a new chunk's bitmap had
  the wrong size the code would return success without a bitmap; the model's empty list is that.
\<close>

definition insert_into_new_chunk ::
  "vec0_vtab \<Rightarrow> faults \<Rightarrow> sqlite3_value list \<Rightarrow> 'g vec0_db \<Rightarrow> ('g vec0_db \<times> int \<times> int \<times> bytes) result"
where
  "insert_into_new_chunk p F partitionKeyValues db =
     (case vec0_new_chunk p F partitionKeyValues db of
        Inl _ \<Rightarrow> Inl SQLITE_ERROR
      | Inr (db, chunk_rowid) \<Rightarrow>
          attempt F ''open new validity'' 0
            (case tbl_get (t_chunks db) chunk_rowid of
               None \<Rightarrow> Inl SQLITE_ERROR
             | Some chunk \<Rightarrow>
                 if length (ck_validity chunk) \<noteq> chunk_size p div 8 then Inr (db, chunk_rowid, 0, [])
                 else Inr (db, chunk_rowid, 0, ck_validity chunk)))"

definition vec0Update_InsertNextAvailableStep ::
  "vec0_vtab \<Rightarrow> faults \<Rightarrow> sqlite3_value list \<Rightarrow> 'g vec0_db \<Rightarrow> ('g vec0_db \<times> int \<times> int \<times> bytes) result"
where
  "vec0Update_InsertNextAvailableStep p F partitionKeyValues db =
     (case vec0_get_latest_chunk_rowid F db partitionKeyValues of
        Inl rc \<Rightarrow>
          (if rc = SQLITE_EMPTY then insert_into_new_chunk p F partitionKeyValues db else Inl rc)
      | Inr chunk_rowid \<Rightarrow>
          attempt F ''open validity'' 0
            (case tbl_get (t_chunks db) chunk_rowid of
               None \<Rightarrow> Inl SQLITE_ERROR
             | Some chunk \<Rightarrow>
                 if length (ck_validity chunk) \<noteq> chunk_size p div 8 then Inl SQLITE_ERROR
                 else (case first_free 0 (ck_validity chunk) of
                         Some offset \<Rightarrow> Inr (db, chunk_rowid, int offset, ck_validity chunk)
                       | None \<Rightarrow> insert_into_new_chunk p F partitionKeyValues db)))"

text \<open>Size and offset of a vector in a chunk's blob.\<close>

definition vec0_write_vector_to_vector_blob ::
  "bytes \<Rightarrow> nat \<Rightarrow> bytes \<Rightarrow> nat \<Rightarrow> VectorElementType \<Rightarrow> bytes option"
where
  "vec0_write_vector_to_vector_blob blob chunk_offset bVector dimensions element_type =
     (case element_type of
        SQLITE_VEC_ELEMENT_TYPE_FLOAT32 \<Rightarrow>
          blob_write blob (take (dimensions * 4) bVector) (chunk_offset * dimensions * 4)
      | SQLITE_VEC_ELEMENT_TYPE_INT8 \<Rightarrow>
          blob_write blob (take dimensions bVector) (chunk_offset * dimensions)
      | SQLITE_VEC_ELEMENT_TYPE_BIT \<Rightarrow>
          blob_write blob (take (dimensions div 8) bVector) (chunk_offset * dimensions div 8))"

definition is_flat :: "vec0_vtab \<Rightarrow> nat \<Rightarrow> bool" where
  "is_flat p i \<longleftrightarrow> vc_index_type (vector_columns p ! i) = VEC0_INDEX_TYPE_FLAT"

definition write_vectors ::
  "vec0_vtab \<Rightarrow> faults \<Rightarrow> int \<Rightarrow> int \<Rightarrow> bytes list \<Rightarrow> 'g vec0_db \<Rightarrow> 'g vec0_db result"
where
  "write_vectors p F chunk_rowid chunk_offset vectorDatas db =
     fold_result (\<lambda>i db.
       if \<not> is_flat p i then Inr db
       else attempt F ''write vector'' i
         (case tbl_get (t_vectors db i) chunk_rowid of
            None \<Rightarrow> Inl SQLITE_ERROR
          | Some blob \<Rightarrow>
              let column = vector_columns p ! i
              in if length blob \<noteq> chunk_size p * vector_column_byte_size column then Inl SQLITE_ERROR
                 else (case vec0_write_vector_to_vector_blob blob (nat chunk_offset) (vectorDatas ! i)
                              (vc_dimensions column) (vc_element_type column) of
                         None \<Rightarrow> Inl SQLITE_ERROR
                       | Some blob' \<Rightarrow>
                           Inr (db\<lparr>t_vectors := (t_vectors db)(i := tbl_put (t_vectors db i) chunk_rowid blob')\<rparr>))))
       [0..<length (vector_columns p)] db"

definition set_validity :: "bytes \<Rightarrow> nat \<Rightarrow> bytes \<Rightarrow> bytes option" where
  "set_validity validity off buffer =
     blob_write validity [buffer ! (off div 8) OR push_bit (off mod 8) 1] (off div 8)"

definition vec0Update_InsertWriteFinalStep ::
  "vec0_vtab \<Rightarrow> faults \<Rightarrow> int \<Rightarrow> int \<Rightarrow> int \<Rightarrow> bytes list \<Rightarrow> bytes \<Rightarrow> 'g vec0_db \<Rightarrow> 'g vec0_db result"
where
  "vec0Update_InsertWriteFinalStep p F chunk_rowid chunk_offset rowid vectorDatas bufferChunksValidity db =
    (let off = nat chunk_offset
     in attempt F ''mark validity'' 0
       (case tbl_get (t_chunks db) chunk_rowid of
          None \<Rightarrow> Inl SQLITE_ERROR
        | Some chunk \<Rightarrow>
       (case set_validity (ck_validity chunk) off bufferChunksValidity of
          None \<Rightarrow> Inl SQLITE_ERROR
        | Some validity' \<Rightarrow>
            let chunk1 = chunk\<lparr>ck_validity := validity'\<rparr>
            in rbind (write_vectors p F chunk_rowid chunk_offset vectorDatas
                        (db\<lparr>t_chunks := tbl_put (t_chunks db) chunk_rowid chunk1\<rparr>))
              (\<lambda>db. attempt F ''write rowid'' 0
                (if length (ck_rowids chunk1) \<noteq> chunk_size p * 8 then Inl SQLITE_ERROR
                 else case blob_write (ck_rowids chunk1) (i64_bytes rowid) (off * 8) of
                   None \<Rightarrow> Inl SQLITE_ERROR
                 | Some rowids' \<Rightarrow>
                     vec0_rowids_update_position F
                       (db\<lparr>t_chunks := tbl_put (t_chunks db) chunk_rowid (chunk1\<lparr>ck_rowids := rowids'\<rparr>)\<rparr>)
                       rowid chunk_rowid chunk_offset)))))"

section \<open>Deleting a row\<close>

text \<open>
  The test shifts the byte and looks at all the bits from the row's position up, so it only notices
  that the row is not valid when no later row of the byte is either.
\<close>

definition vec0Update_Delete_ClearValidity :: "faults \<Rightarrow> int \<Rightarrow> int \<Rightarrow> 'g vec0_db \<Rightarrow> 'g vec0_db result" where
  "vec0Update_Delete_ClearValidity F chunk_id chunk_offset db =
    (let off = nat chunk_offset
     in attempt F ''clear validity'' 0
       (case tbl_get (t_chunks db) chunk_id of
          None \<Rightarrow> Inl SQLITE_ERROR
        | Some chunk \<Rightarrow>
       (case blob_read (ck_validity chunk) 1 (off div 8) of
          None \<Rightarrow> Inl SQLITE_ERROR
        | Some bx \<Rightarrow>
            if drop_bit (off mod 8) (bx ! 0) = 0 then Inl SQLITE_ERROR
            else case blob_write (ck_validity chunk) [bx ! 0 AND NOT (push_bit (off mod 8) 1)] (off div 8) of
              None \<Rightarrow> Inl SQLITE_ERROR
            | Some validity' \<Rightarrow>
                Inr (db\<lparr>t_chunks := tbl_put (t_chunks db) chunk_id (chunk\<lparr>ck_validity := validity'\<rparr>)\<rparr>))))"

definition vec0Update_Delete_ClearRowid :: "faults \<Rightarrow> int \<Rightarrow> int \<Rightarrow> 'g vec0_db \<Rightarrow> 'g vec0_db result" where
  "vec0Update_Delete_ClearRowid F chunk_id chunk_offset db =
     attempt F ''clear rowid'' 0
       (case tbl_get (t_chunks db) chunk_id of
          None \<Rightarrow> Inl SQLITE_ERROR
        | Some chunk \<Rightarrow>
       (case blob_write (ck_rowids chunk) (i64_bytes 0) (nat chunk_offset * 8) of
          None \<Rightarrow> Inl SQLITE_ERROR
        | Some rowids' \<Rightarrow>
            Inr (db\<lparr>t_chunks := tbl_put (t_chunks db) chunk_id (chunk\<lparr>ck_rowids := rowids'\<rparr>)\<rparr>)))"

definition vec0Update_Delete_ClearVectors ::
  "vec0_vtab \<Rightarrow> faults \<Rightarrow> int \<Rightarrow> int \<Rightarrow> 'g vec0_db \<Rightarrow> 'g vec0_db result"
where
  "vec0Update_Delete_ClearVectors p F chunk_id chunk_offset db =
     fold_result (\<lambda>i db.
       if \<not> is_flat p i then Inr db
       else let n = vector_column_byte_size (vector_columns p ! i)
       in attempt F ''clear vector'' i
         (rbind (chunk_blob_write (t_vectors db i) chunk_id (replicate n 0) (nat chunk_offset * n))
            (\<lambda>t. Inr (db\<lparr>t_vectors := (t_vectors db)(i := t)\<rparr>))))
       [0..<length (vector_columns p)] db"

definition vec0Update_Delete_DeleteChunkIfEmpty ::
  "vec0_vtab \<Rightarrow> faults \<Rightarrow> int \<Rightarrow> 'g vec0_db \<Rightarrow> ('g vec0_db \<times> bool) result"
where
  "vec0Update_Delete_DeleteChunkIfEmpty p F chunk_id db =
     attempt F ''delete chunk if empty'' 0
       (case tbl_get (t_chunks db) chunk_id of
          None \<Rightarrow> Inl SQLITE_ERROR
        | Some chunk \<Rightarrow>
            if \<exists>b \<in> set (ck_validity chunk). b \<noteq> 0 then Inr (db, False)
            else
              rbind (fold_result (\<lambda>i db.
                 if \<not> is_flat p i then Inr db
                 else attempt F ''delete vector chunk'' i
                   (Inr (db\<lparr>t_vectors := (t_vectors db)(i := tbl_del (t_vectors db i) chunk_id)\<rparr>)))
                 [0..<length (vector_columns p)]
                 (db\<lparr>t_chunks := tbl_del (t_chunks db) chunk_id\<rparr>))
              (\<lambda>db. rbind (rescore_delete_chunk p F chunk_id db)
              (\<lambda>db. rbind (fold_result (\<lambda>i db.
                 attempt F ''delete metadata chunk'' i
                   (Inr (db\<lparr>t_metadata := (t_metadata db)(i := tbl_del (t_metadata db i) chunk_id)\<rparr>)))
                 [0..<length (metadata_columns p)] db)
              (\<lambda>db. Inr (db, True)))))"

definition vec0Update_Delete_DeleteRowids :: "faults \<Rightarrow> int \<Rightarrow> 'g vec0_db \<Rightarrow> 'g vec0_db result" where
  "vec0Update_Delete_DeleteRowids F rowid db =
     attempt F ''delete rowid'' 0 (Inr (db\<lparr>t_rowids := tbl_del (t_rowids db) rowid\<rparr>))"

definition vec0Update_Delete_DeleteAux :: "faults \<Rightarrow> int \<Rightarrow> 'g vec0_db \<Rightarrow> 'g vec0_db result" where
  "vec0Update_Delete_DeleteAux F rowid db =
     attempt F ''delete auxiliary'' 0 (Inr (db\<lparr>t_aux := tbl_del (t_aux db) rowid\<rparr>))"

definition diskann_columns_delete ::
  "vec0_vtab \<Rightarrow> 'g diskann_api \<Rightarrow> int \<Rightarrow> 'g vec0_db \<Rightarrow> 'g vec0_db result"
where
  "diskann_columns_delete p api rowid db =
     fold_result (\<lambda>i db.
       if vc_index_type (vector_columns p ! i) \<noteq> VEC0_INDEX_TYPE_DISKANN then Inr db
       else rbind (api_delete api i rowid (t_diskann db)) (\<lambda>g. Inr (db\<lparr>t_diskann := g\<rparr>)))
       [0..<length (vector_columns p)] db"

definition vec0Update_Delete ::
  "vec0_vtab \<Rightarrow> faults \<Rightarrow> 'g diskann_api \<Rightarrow> sqlite3_value \<Rightarrow> 'g vec0_db \<Rightarrow> 'g vec0_db result"
where
  "vec0Update_Delete p F api idValue db =
     rbind (if pkIsText p then vec0_rowid_from_id F db idValue else Inr (value_int64 idValue)) (\<lambda>rowid.
     rbind (diskann_columns_delete p api rowid db) (\<lambda>db.
     rbind (if vec0_all_columns_diskann p then Inr (db, 0, 0)
            else rbind (vec0_get_chunk_position F db rowid) (\<lambda>(_, chunk_id, chunk_offset).
                 rbind (vec0Update_Delete_ClearValidity F chunk_id chunk_offset db) (\<lambda>db.
                 rbind (vec0Update_Delete_ClearRowid F chunk_id chunk_offset db) (\<lambda>db.
                 rbind (vec0Update_Delete_ClearVectors p F chunk_id chunk_offset db) (\<lambda>db.
                 rbind (rescore_on_delete p F chunk_id chunk_offset rowid db) (\<lambda>db.
                 Inr (db, chunk_id, chunk_offset))))))) (\<lambda>(db, chunk_id, chunk_offset).
     rbind (vec0Update_Delete_DeleteRowids F rowid db) (\<lambda>db.
     rbind (if 0 < length (auxiliary_columns p) then vec0Update_Delete_DeleteAux F rowid db else Inr db) (\<lambda>db.
     if vec0_all_columns_diskann p then Inr db
     else rbind (fold_result (\<lambda>i db. vec0Update_Delete_ClearMetadata p F i rowid chunk_id chunk_offset db)
                   [0..<length (metadata_columns p)] db) (\<lambda>db.
          rbind (vec0Update_Delete_DeleteChunkIfEmpty p F chunk_id db) (\<lambda>(db, deleted). Inr db)))))))"

section \<open>Inserting: the whole operation\<close>

text \<open>
  The arguments of \<open>xUpdate\<close>: \<open>argv\<close> holds the old rowid, the new one, and the columns of the table.
  \<open>mem i\<close> are the allocations for the vector of user column \<open>i\<close>; \<open>unset\<close> is what the C arrays hold
  where no value was read.
\<close>

definition read_partition_values :: "vec0_vtab \<Rightarrow> sqlite3_value \<Rightarrow> sqlite3_value list \<Rightarrow> sqlite3_value list result" where
  "read_partition_values p unset argv =
     fold_result (\<lambda>i vals.
       if fst (user_columns p ! i) \<noteq> SQLITE_VEC0_USER_COLUMN_KIND_PARTITION then Inr vals
       else let idx = snd (user_columns p ! i); v = argv ! (2 + 1 + i)
       in if value_type v \<noteq> SQLITE_NULL \<and> value_type v \<noteq> snd (partition_columns p ! idx) then Inl SQLITE_ERROR
          else Inr (vals[idx := v]))
       [0..<vec0_num_defined_user_columns p] (replicate (length (partition_columns p)) unset)"

definition read_vectors ::
  "vec0_vtab \<Rightarrow> (nat \<Rightarrow> nat \<Rightarrow> int \<Rightarrow> bool) \<Rightarrow> sqlite3_value list \<Rightarrow> bytes list result"
where
  "read_vectors p mem argv =
     fold_result (\<lambda>i datas.
       if fst (user_columns p ! i) \<noteq> SQLITE_VEC0_USER_COLUMN_KIND_VECTOR then Inr datas
       else let idx = snd (user_columns p ! i); column = vector_columns p ! idx
       in case vector_from_value (mem i) (argv ! (2 + 1 + i)) of
            Inl _ \<Rightarrow> Inl SQLITE_ERROR
          | Inr (vector, dimensions, elementType) \<Rightarrow>
              if elementType \<noteq> vc_element_type column then Inl SQLITE_ERROR
              else if dimensions \<noteq> vc_dimensions column then Inl SQLITE_ERROR
              else Inr (datas[idx := vector]))
       [0..<vec0_num_defined_user_columns p] (replicate (length (vector_columns p)) [])"

text \<open>\<open>INSERT OR REPLACE\<close>: the row that has the key already is deleted first.\<close>

definition replace_existing ::
  "vec0_vtab \<Rightarrow> faults \<Rightarrow> 'g diskann_api \<Rightarrow> sqlite3_value \<Rightarrow> 'g vec0_db \<Rightarrow> 'g vec0_db result"
where
  "replace_existing p F api idValue db =
     rbind (if pkIsText p \<and> value_type idValue = SQLITE_TEXT then
              (case vec0_rowid_from_id F db idValue of
                 Inr _ \<Rightarrow> Inr True
               | Inl rc \<Rightarrow> if rc = SQLITE_EMPTY then Inr False else Inl rc)
            else if \<not> pkIsText p \<and> value_type idValue = SQLITE_INTEGER then
              (case vec0_get_chunk_position F db (value_int64 idValue) of
                 Inr _ \<Rightarrow> Inr True
               | Inl rc \<Rightarrow> if rc = SQLITE_EMPTY then Inr False else Inl rc)
            else Inr False)
       (\<lambda>existingRowExists. if existingRowExists then vec0Update_Delete p F api idValue db else Inr db)"

definition insert_auxiliary ::
  "vec0_vtab \<Rightarrow> faults \<Rightarrow> sqlite3_value \<Rightarrow> sqlite3_value list \<Rightarrow> int \<Rightarrow> 'g vec0_db \<Rightarrow> 'g vec0_db result"
where
  "insert_auxiliary p F null argv rowid db =
     (if length (auxiliary_columns p) = 0 then Inr db
      else rbind (fold_result (\<lambda>i vals.
             if fst (user_columns p ! i) \<noteq> SQLITE_VEC0_USER_COLUMN_KIND_AUXILIARY then Inr vals
             else let idx = snd (user_columns p ! i); v = argv ! (2 + 1 + i)
             in if value_type v \<noteq> SQLITE_NULL \<and> value_type v \<noteq> snd (auxiliary_columns p ! idx)
                then Inl SQLITE_CONSTRAINT
                else Inr (vals[idx := v]))
             [0..<vec0_num_defined_user_columns p] (replicate (length (auxiliary_columns p)) null))
           (\<lambda>vals. attempt F ''insert auxiliary'' 0
              (case tbl_insert (t_aux db) rowid vals of
                 Inl _ \<Rightarrow> Inl SQLITE_ERROR
               | Inr t \<Rightarrow> Inr (db\<lparr>t_aux := t\<rparr>))))"

definition diskann_columns_insert ::
  "vec0_vtab \<Rightarrow> 'g diskann_api \<Rightarrow> int \<Rightarrow> bytes list \<Rightarrow> 'g vec0_db \<Rightarrow> 'g vec0_db result"
where
  "diskann_columns_insert p api rowid vectorDatas db =
     fold_result (\<lambda>i db.
       if vc_index_type (vector_columns p ! i) \<noteq> VEC0_INDEX_TYPE_DISKANN then Inr db
       else rbind (api_insert api i rowid (vectorDatas ! i) (t_diskann db)) (\<lambda>g. Inr (db\<lparr>t_diskann := g\<rparr>)))
       [0..<length (vector_columns p)] db"

definition insert_metadata ::
  "vec0_vtab \<Rightarrow> faults \<Rightarrow> sqlite3_value list \<Rightarrow> int \<Rightarrow> int \<Rightarrow> int \<Rightarrow> 'g vec0_db \<Rightarrow> 'g vec0_db result"
where
  "insert_metadata p F argv rowid chunk_rowid chunk_offset db =
     fold_result (\<lambda>i db.
       if fst (user_columns p ! i) \<noteq> SQLITE_VEC0_USER_COLUMN_KIND_METADATA then Inr db
       else vec0_write_metadata_value p F (snd (user_columns p ! i)) rowid chunk_rowid chunk_offset
              (argv ! (2 + 1 + i)) False db)
       [0..<vec0_num_defined_user_columns p] db"

text \<open>
  \<open>junk\<close> are the chunk and offset that stay uninitialised when no column uses chunks; \<open>replace\<close> is
  whether \<open>sqlite3_vtab_on_conflict\<close> says REPLACE; \<open>null\<close> is SQL's NULL.
\<close>

definition vec0Update_Insert ::
  "vec0_vtab \<Rightarrow> faults \<Rightarrow> 'g diskann_api \<Rightarrow> (nat \<Rightarrow> nat \<Rightarrow> int \<Rightarrow> bool) \<Rightarrow> int \<times> int \<Rightarrow> sqlite3_value \<Rightarrow> bool \<Rightarrow>
   sqlite3_value list \<Rightarrow> 'g vec0_db \<Rightarrow> ('g vec0_db \<times> int) result"
where
  "vec0Update_Insert p F api mem junk null replace argv db =
     rbind (read_partition_values p null argv) (\<lambda>partitionKeyValues.
     rbind (read_vectors p mem argv) (\<lambda>vectorDatas.
     if value_type (argv ! (2 + vec0_column_distance_idx p)) \<noteq> SQLITE_NULL then Inl SQLITE_ERROR
     else if value_type (argv ! (2 + vec0_column_k_idx p)) \<noteq> SQLITE_NULL then Inl SQLITE_ERROR
     else
     rbind (if replace then replace_existing p F api (argv ! 2) db else Inr db) (\<lambda>db.
     rbind (vec0Update_InsertRowidStep p F (argv ! 2) db) (\<lambda>(db, rowid).
     rbind (if vec0_all_columns_diskann p then Inr (db, junk)
            else rbind (vec0Update_InsertNextAvailableStep p F partitionKeyValues db)
                   (\<lambda>(db, chunk_rowid, chunk_offset, bufferChunksValidity).
                 rbind (vec0Update_InsertWriteFinalStep p F chunk_rowid chunk_offset rowid vectorDatas
                          bufferChunksValidity db)
                   (\<lambda>db. Inr (db, chunk_rowid, chunk_offset)))) (\<lambda>(db, chunk_rowid, chunk_offset).
     rbind (diskann_columns_insert p api rowid vectorDatas db) (\<lambda>db.
     rbind (rescore_on_insert p F chunk_rowid chunk_offset rowid vectorDatas db) (\<lambda>db.
     rbind (insert_auxiliary p F null argv rowid db) (\<lambda>db.
     rbind (insert_metadata p F argv rowid chunk_rowid chunk_offset db) (\<lambda>db.
     Inr (db, rowid))))))))))"

section \<open>Updating a row\<close>

definition vec0Update_UpdateAuxColumn ::
  "faults \<Rightarrow> nat \<Rightarrow> sqlite3_value \<Rightarrow> int \<Rightarrow> 'g vec0_db \<Rightarrow> 'g vec0_db result"
where
  "vec0Update_UpdateAuxColumn F auxiliary_column_idx value rowid db =
     attempt F ''update auxiliary'' auxiliary_column_idx
       (Inr (case tbl_get (t_aux db) rowid of
          None \<Rightarrow> db
        | Some vals \<Rightarrow> db\<lparr>t_aux := tbl_put (t_aux db) rowid (vals[auxiliary_column_idx := value])\<rparr>))"

definition vec0Update_UpdateVectorColumn ::
  "vec0_vtab \<Rightarrow> faults \<Rightarrow> (nat \<Rightarrow> int \<Rightarrow> bool) \<Rightarrow> int \<Rightarrow> int \<Rightarrow> nat \<Rightarrow> sqlite3_value \<Rightarrow> int \<Rightarrow> 'g vec0_db \<Rightarrow> 'g vec0_db result"
where
  "vec0Update_UpdateVectorColumn p F mem chunk_id chunk_offset i valueVector rowid db =
    (let column = vector_columns p ! i; qsize = rescore_quantized_byte_size column;
         fsize = vector_column_byte_size column
     in case vector_from_value mem valueVector of
          Inl _ \<Rightarrow> Inl SQLITE_ERROR
        | Inr (vector, dimensions, elementType) \<Rightarrow>
            if elementType \<noteq> vc_element_type column then Inl SQLITE_ERROR
            else if dimensions \<noteq> vc_dimensions column then Inl SQLITE_ERROR
            else if vc_index_type column = VEC0_INDEX_TYPE_RESCORE then
              attempt F ''update rescore chunk'' i
                (rbind (chunk_blob_write (t_rescore_chunks db i) chunk_id (rescore_quantize column vector)
                          (nat chunk_offset * qsize))
                   (\<lambda>t. attempt F ''update rescore vector'' i
                      (Inr (db\<lparr>t_rescore_chunks := (t_rescore_chunks db)(i := t),
                               t_rescore_vectors := (t_rescore_vectors db)
                                 (i := (case tbl_get (t_rescore_vectors db i) rowid of
                                          None \<Rightarrow> t_rescore_vectors db i
                                        | Some _ \<Rightarrow> tbl_put (t_rescore_vectors db i) rowid (take fsize vector)))\<rparr>))))
            else
              attempt F ''update vector'' i
                (case tbl_get (t_vectors db i) chunk_id of
                   None \<Rightarrow> Inl SQLITE_ERROR
                 | Some blob \<Rightarrow>
                     (case vec0_write_vector_to_vector_blob blob (nat chunk_offset) vector
                             (vc_dimensions column) (vc_element_type column) of
                        None \<Rightarrow> Inl SQLITE_ERROR
                      | Some blob' \<Rightarrow>
                          Inr (db\<lparr>t_vectors := (t_vectors db)(i := tbl_put (t_vectors db i) chunk_id blob')\<rparr>))))"

text \<open>\<open>nochange j\<close> says whether SQLite marks argument \<open>j\<close> as not changed by the UPDATE.\<close>

definition vec0Update_Update ::
  "vec0_vtab \<Rightarrow> faults \<Rightarrow> (nat \<Rightarrow> nat \<Rightarrow> int \<Rightarrow> bool) \<Rightarrow> (nat \<Rightarrow> bool) \<Rightarrow> sqlite3_value list \<Rightarrow> 'g vec0_db \<Rightarrow> 'g vec0_db result"
where
  "vec0Update_Update p F mem nochange argv db =
     rbind (if pkIsText p then
              (if value_bytes (argv ! 0) \<noteq> value_bytes (argv ! 1) \<or> value_text (argv ! 0) \<noteq> value_text (argv ! 1)
               then Inl SQLITE_ERROR else vec0_rowid_from_id F db (argv ! 0))
            else Inr (value_int64 (argv ! 0))) (\<lambda>rowid.
     rbind (vec0_get_chunk_position F db rowid) (\<lambda>(_, chunk_id, chunk_offset).
     if \<exists>i < vec0_num_defined_user_columns p.
          fst (user_columns p ! i) = SQLITE_VEC0_USER_COLUMN_KIND_PARTITION \<and> \<not> nochange (2 + 1 + i)
     then Inl SQLITE_ERROR
     else
     rbind (fold_result (\<lambda>i db.
       if fst (user_columns p ! i) \<noteq> SQLITE_VEC0_USER_COLUMN_KIND_AUXILIARY \<or> nochange (2 + 1 + i) then Inr db
       else case vec0Update_UpdateAuxColumn F (snd (user_columns p ! i)) (argv ! (2 + 1 + i)) rowid db of
              Inl _ \<Rightarrow> Inl SQLITE_ERROR | Inr db \<Rightarrow> Inr db)
       [0..<vec0_num_defined_user_columns p] db) (\<lambda>db.
     rbind (fold_result (\<lambda>i db.
       if fst (user_columns p ! i) \<noteq> SQLITE_VEC0_USER_COLUMN_KIND_METADATA \<or> nochange (2 + 1 + i) then Inr db
       else vec0_write_metadata_value p F (snd (user_columns p ! i)) rowid chunk_id chunk_offset
              (argv ! (2 + 1 + i)) True db)
       [0..<vec0_num_defined_user_columns p] db) (\<lambda>db.
     fold_result (\<lambda>i db.
       if fst (user_columns p ! i) \<noteq> SQLITE_VEC0_USER_COLUMN_KIND_VECTOR \<or>
          value_type (argv ! (2 + 1 + i)) = SQLITE_NULL then Inr db
       else let idx = snd (user_columns p ! i)
       in if vc_index_type (vector_columns p ! idx) = VEC0_INDEX_TYPE_DISKANN then Inl SQLITE_ERROR
          else case vec0Update_UpdateVectorColumn p F (mem i) chunk_id chunk_offset idx (argv ! (2 + 1 + i)) rowid db of
                 Inl _ \<Rightarrow> Inl SQLITE_ERROR | Inr db \<Rightarrow> Inr db)
       [0..<vec0_num_defined_user_columns p] db))))"

section \<open>\<open>xUpdate\<close>\<close>

text \<open>
  The table definition changes when a command sets an index option; \<open>diskann_command\<close> stands for
  \<open>diskann_handle_command\<close>. The rowid is the one \<open>pRowid\<close> gets, if it is set.
\<close>

definition vec0Update ::
  "vec0_vtab \<Rightarrow> faults \<Rightarrow> 'g diskann_api \<Rightarrow> (nat \<Rightarrow> nat \<Rightarrow> int \<Rightarrow> bool) \<Rightarrow> int \<times> int \<Rightarrow> sqlite3_value \<Rightarrow> bool \<Rightarrow>
   (nat \<Rightarrow> bool) \<Rightarrow> (vec0_vtab \<Rightarrow> string \<Rightarrow> vec0_vtab result) \<Rightarrow> sqlite3_value list \<Rightarrow> 'g vec0_db \<Rightarrow>
   (vec0_vtab \<times> 'g vec0_db \<times> int option) result"
where
  "vec0Update p F api mem junk null replace nochange diskann_command argv db =
    (if length argv = 1 \<and> value_type (argv ! 0) \<noteq> SQLITE_NULL then
       rbind (vec0Update_Delete p F api (argv ! 0) db) (\<lambda>db. Inr (p, db, None))
     else if 1 < length argv \<and> value_type (argv ! 0) = SQLITE_NULL then
       (let cmdVal = argv ! (2 + vec0_column_command_idx p)
        in if hasCommandColumn p \<and> value_type cmdVal = SQLITE_TEXT then
             (case rescore_handle_command p (value_text cmdVal) of
                Inr p' \<Rightarrow> Inr (p', db, None)
              | Inl rc \<Rightarrow>
                  if rc \<noteq> SQLITE_EMPTY then Inl rc
                  else (case diskann_command p (value_text cmdVal) of
                          Inr p' \<Rightarrow> Inr (p', db, None)
                        | Inl rc \<Rightarrow> Inl (if rc = SQLITE_EMPTY then SQLITE_ERROR else rc)))
           else rbind (vec0Update_Insert p F api mem junk null replace argv db) (\<lambda>(db, rowid). Inr (p, db, Some rowid)))
     else if 1 < length argv \<and> value_type (argv ! 0) \<noteq> SQLITE_NULL then
       rbind (vec0Update_Update p F mem nochange argv db) (\<lambda>db. Inr (p, db, None))
     else Inl SQLITE_ERROR)"

end
