(* ===== verification/Positions.thy ===== *)
theory Positions
  imports Update
begin

text \<open>
  The invariant that ties the two tables every query goes through: a row of \<open>_rowids\<close> points to a
  position of a chunk whose validity bit is set and which holds the row's rowid, and every valid
  position is pointed to by the row it names. Inserting, deleting, new and emptied chunks keep it.
\<close>

section \<open>Validity bits\<close>

lemma bit_at_write:
  assumes "blob_write v [b] (off div 8) = Some v'" and "q < 8 * length v"
  shows "bit_at v' q = (if q div 8 = off div 8 then bit b (q mod 8) else bit_at v q)"
  using blob_write_nth [OF assms(1), of "q div 8"] assms(2) by (auto simp: bit_at_def)

lemma same_bit: "q div 8 = off div 8 \<Longrightarrow> q mod 8 = off mod 8 \<longleftrightarrow> q = (off :: nat)"
  by (metis div_mult_mod_eq)

lemma set_validity_bits:
  assumes "set_validity v off v = Some v'" and "q < 8 * length v"
  shows "bit_at v' q = (q = off \<or> bit_at v q)"
proof -
  have "bit_at v' q = (if q div 8 = off div 8 then bit (v ! (off div 8) OR push_bit (off mod 8) 1) (q mod 8) else bit_at v q)"
    using bit_at_write [OF _ assms(2)] assms(1) by (auto simp: set_validity_def)
  moreover have "bit (push_bit (off mod 8) 1 :: u8) (q mod 8) = (q mod 8 = off mod 8)"
    by (auto simp: bit_push_bit_iff bit_1_iff bit_exp_iff)
  ultimately show ?thesis
    using same_bit [of q off] by (auto simp: bit_or_iff bit_at_def)
qed

lemma clear_validity_bits:
  assumes "blob_write v [v ! (off div 8) AND NOT (push_bit (off mod 8) 1)] (off div 8) = Some v'"
    and "q < 8 * length v"
  shows "bit_at v' q = (q \<noteq> off \<and> bit_at v q)"
proof -
  have "bit (NOT (push_bit (off mod 8) 1) :: u8) (q mod 8) = (q mod 8 \<noteq> off mod 8)"
    by (auto simp: bit_not_iff bit_push_bit_iff bit_1_iff bit_exp_iff)
  then show ?thesis
    using same_bit [of q off] bit_at_write [OF assms] by (auto simp: bit_and_iff bit_at_def)
qed

lemma drop_bit_and_one: "j < 8 \<Longrightarrow> (drop_bit j (b :: u8) AND 1 = 0) = (\<not> bit b j)"
  by (simp add: and_one_eq bit_iff_odd_drop_bit mod_2_eq_odd)

lemma byte_full: "(b :: u8) = 255 \<longleftrightarrow> (\<forall>j < 8. bit b j)"
proof -
  have "bit (255 :: u8) j" if "j < 8" for j
  proof -
    have "(255 :: u8) = mask 8" by (simp add: mask_eq_exp_minus_1)
    then show ?thesis using that by (simp only: bit_mask_iff) simp
  qed
  then show ?thesis by (auto intro: bit_word_eqI)
qed

lemma first_free_spec:
  "(case first_free i v of
      None \<Rightarrow> \<forall>q < 8 * length v. bit_at v q
    | Some off \<Rightarrow> \<exists>q < 8 * length v. off = i * 8 + q \<and> \<not> bit_at v q \<and> (\<forall>r < q. bit_at v r))"
proof (induction i v rule: first_free.induct)
  case (2 i b bs)
  have shift: "bit_at (b # bs) q = (if q < 8 then bit b q else bit_at bs (q - 8))" for q
    by (cases "q < 8") (auto simp: bit_at_def nth_Cons' div_if mod_if)
  have later: "(\<forall>q < 8 * length (b # bs). bit_at (b # bs) q)
      = ((\<forall>j < 8. bit b j) \<and> (\<forall>q < 8 * length bs. bit_at bs q))"
    by (auto simp: shift) (metis add_diff_cancel_left' le_add1 nat_add_left_cancel_less not_less add.commute)
  show ?case
  proof (cases "List.find (\<lambda>j. drop_bit j b AND 1 = 0) [0..<8]")
    case None
    then have full: "\<forall>j < 8. bit b j" by (auto simp: find_None_iff drop_bit_and_one)
    then have f: "first_free i (b # bs) = first_free (Suc i) bs" by (simp add: byte_full)
    have IH: "case first_free (Suc i) bs of
      None \<Rightarrow> \<forall>q < 8 * length bs. bit_at bs q
    | Some off \<Rightarrow> \<exists>q < 8 * length bs. off = Suc i * 8 + q \<and> \<not> bit_at bs q \<and> (\<forall>r < q. bit_at bs r)"
      using 2 full None by (cases "b = 255") (simp_all add: byte_full)
    show ?thesis
    proof (cases "first_free (Suc i) bs")
      case None
      with IH full show ?thesis unfolding f later by simp
    next
      case (Some off)
      with IH obtain q where q: "q < 8 * length bs" "off = Suc i * 8 + q" "\<not> bit_at bs q" "\<forall>r < q. bit_at bs r" by auto
      have "\<forall>r < q + 8. bit_at (b # bs) r" using q(4) full by (auto simp: shift)
      with q Some show ?thesis unfolding f
        by (auto intro!: exI [of _ "q + 8"] simp: shift)
    qed
  next
    case (Some j)
    then have j: "j < 8" "\<not> bit b j" "\<forall>k < j. bit b k"
      by (auto simp: find_Some_iff drop_bit_and_one)
    have "b \<noteq> 255" using j by (auto simp: byte_full)
    with Some j show ?thesis by (auto intro!: exI [of _ j] simp: shift)
  qed
qed simp

section \<open>The invariant\<close>

text \<open>\<open>pend\<close> are the rows that have no position yet, in the middle of an insertion.\<close>

definition placed :: "nat \<Rightarrow> vec0_chunk table \<Rightarrow> int \<Rightarrow> rowids_row \<Rightarrow> bool" where
  "placed n cs r row \<longleftrightarrow>
     (\<exists>c off chunk. rr_pos row = Some (c, int off) \<and> tbl_get cs c = Some chunk \<and> off < n \<and>
        bit_at (ck_validity chunk) off \<and> i64_at (ck_rowids chunk) off = r)"

definition chunk_sized :: "nat \<Rightarrow> vec0_chunk \<Rightarrow> bool" where
  "chunk_sized n chunk \<longleftrightarrow> length (ck_validity chunk) = n div 8 \<and> length (ck_rowids chunk) = n * 8"

definition positions_ok :: "nat \<Rightarrow> int set \<Rightarrow> vec0_chunk table \<Rightarrow> rowids_row table \<Rightarrow> bool" where
  "positions_ok n pend cs rs \<longleftrightarrow>
     8 dvd n \<and> tbl_ok cs \<and> tbl_ok rs \<and>
     (\<forall>c chunk. tbl_get cs c = Some chunk \<longrightarrow> chunk_sized n chunk \<and>
        (\<forall>off < n. bit_at (ck_validity chunk) off \<longrightarrow>
           (\<exists>row. tbl_get rs (i64_at (ck_rowids chunk) off) = Some row \<and> rr_pos row = Some (c, int off)))) \<and>
     (\<forall>r row. tbl_get rs r = Some row \<longrightarrow> is_i64 r \<and>
        (if r \<in> pend then rr_pos row = None else placed n cs r row))"

lemma positions_okD:
  assumes "positions_ok n pend cs rs"
  shows "8 dvd n" and "tbl_ok cs" and "tbl_ok rs"
    and "tbl_get cs c = Some chunk \<Longrightarrow> chunk_sized n chunk"
    and "tbl_get cs c = Some chunk \<Longrightarrow> off < n \<Longrightarrow> bit_at (ck_validity chunk) off \<Longrightarrow>
      \<exists>row. tbl_get rs (i64_at (ck_rowids chunk) off) = Some row \<and> rr_pos row = Some (c, int off)"
    and "tbl_get rs r = Some row \<Longrightarrow> is_i64 r"
    and "tbl_get rs r = Some row \<Longrightarrow> r \<in> pend \<Longrightarrow> rr_pos row = None"
    and "tbl_get rs r = Some row \<Longrightarrow> r \<notin> pend \<Longrightarrow> placed n cs r row"
  using assms by (auto simp: positions_ok_def)

lemma positions_okI:
  assumes "8 dvd n" and "tbl_ok cs" and "tbl_ok rs"
    and "\<And>c chunk. tbl_get cs c = Some chunk \<Longrightarrow> chunk_sized n chunk"
    and "\<And>c chunk off. tbl_get cs c = Some chunk \<Longrightarrow> off < n \<Longrightarrow> bit_at (ck_validity chunk) off \<Longrightarrow>
      \<exists>row. tbl_get rs (i64_at (ck_rowids chunk) off) = Some row \<and> rr_pos row = Some (c, int off)"
    and "\<And>r row. tbl_get rs r = Some row \<Longrightarrow> is_i64 r"
    and "\<And>r row. tbl_get rs r = Some row \<Longrightarrow> r \<in> pend \<Longrightarrow> rr_pos row = None"
    and "\<And>r row. tbl_get rs r = Some row \<Longrightarrow> r \<notin> pend \<Longrightarrow> placed n cs r row"
  shows "positions_ok n pend cs rs"
  using assms by (auto simp: positions_ok_def)

text \<open>A position belongs to one row.\<close>

lemma positions_inj:
  assumes "positions_ok n {} cs rs" and "tbl_get rs r = Some row" and "tbl_get rs r' = Some row'"
    and "rr_pos row = rr_pos row'"
  shows "r = r'"
proof -
  have "placed n cs r row" "placed n cs r' row'" using positions_okD(8) [OF assms(1)] assms(2,3) by auto
  with assms(4) show ?thesis by (auto simp: placed_def)
qed

end
