(* ===== verification/Rows.thy ===== *)
theory Rows
  imports Positions
begin

text \<open>
  The operations of \<open>xUpdate\<close> keep the invariant of \<open>Positions\<close>. Only a few steps change the chunks
  and the rows; the others are shown to leave them alone (the frame lemmas).
\<close>

section \<open>What a step leaves alone\<close>

type_synonym core = "vec0_chunk table \<times> int \<times> rowids_row table \<times> int"

definition core :: "'g vec0_db \<Rightarrow> core" where
  "core db = (t_chunks db, seq_chunks db, t_rowids db, seq_rowids db)"

lemma core_updates [simp]:
  "core (db\<lparr>t_vectors := v\<rparr>) = core db" "core (db\<lparr>t_metadata := m\<rparr>) = core db"
  "core (db\<lparr>t_metatext := x\<rparr>) = core db" "core (db\<lparr>t_aux := a\<rparr>) = core db"
  "core (db\<lparr>t_rescore_chunks := rc\<rparr>) = core db" "core (db\<lparr>t_rescore_vectors := rv\<rparr>) = core db"
  "core (db\<lparr>t_diskann := g\<rparr>) = core db"
  by (simp_all add: core_def)

lemma coreD: "core db' = core db \<Longrightarrow> t_chunks db' = t_chunks db \<and> seq_chunks db' = seq_chunks db
    \<and> t_rowids db' = t_rowids db \<and> seq_rowids db' = seq_rowids db"
  by (simp add: core_def)

named_theorems core_frame "steps that leave the chunks and the rows alone"

lemma fold_core:
  assumes "fold_result f xs db = Inr db'" and "\<And>x db db'. f x db = Inr db' \<Longrightarrow> core db' = core db"
  shows "core db' = core db"
  using fold_result_inv [OF assms(1), of "\<lambda>s. core s = core db"] assms(2) by metis

lemma write_vectors_core [core_frame]: "write_vectors p F c off vs db = Inr db' \<Longrightarrow> core db' = core db"
  unfolding write_vectors_def by (erule fold_core) (auto simp: Let_def split: if_splits option.splits)

lemma rescore_new_chunk_core [core_frame]: "rescore_new_chunk p F c db = Inr db' \<Longrightarrow> core db' = core db"
  unfolding rescore_new_chunk_def by (erule fold_core) (auto simp: rbind_Inr split: if_splits)

lemma rescore_on_insert_core [core_frame]: "rescore_on_insert p F c off r vs db = Inr db' \<Longrightarrow> core db' = core db"
  unfolding rescore_on_insert_def
  by (erule fold_core) (auto simp: rbind_Inr case_Inr Let_def split: if_splits)

lemma rescore_on_delete_core [core_frame]: "rescore_on_delete p F c off r db = Inr db' \<Longrightarrow> core db' = core db"
  unfolding rescore_on_delete_def by (erule fold_core) (auto simp: rbind_Inr Let_def split: if_splits)

lemma rescore_delete_chunk_core [core_frame]: "rescore_delete_chunk p F c db = Inr db' \<Longrightarrow> core db' = core db"
  unfolding rescore_delete_chunk_def by (erule fold_core) (auto split: if_splits)

lemma diskann_insert_core [core_frame]: "diskann_columns_insert p api r vs db = Inr db' \<Longrightarrow> core db' = core db"
  unfolding diskann_columns_insert_def by (erule fold_core) (auto simp: rbind_Inr split: if_splits)

lemma diskann_delete_core [core_frame]: "diskann_columns_delete p api r db = Inr db' \<Longrightarrow> core db' = core db"
  unfolding diskann_columns_delete_def by (erule fold_core) (auto simp: rbind_Inr split: if_splits)

lemma insert_auxiliary_core [core_frame]: "insert_auxiliary p F null argv r db = Inr db' \<Longrightarrow> core db' = core db"
  by (auto simp: insert_auxiliary_def rbind_Inr case_Inr split: if_splits)

lemma write_metadata_core [core_frame]:
  "vec0_write_metadata_value p F i r c off v u db = Inr db' \<Longrightarrow> core db' = core db"
  by (cases "snd (metadata_columns p ! i)") (auto simp: vec0_write_metadata_value_def rbind_Inr Let_def case_Inr)

lemma insert_metadata_core [core_frame]: "insert_metadata p F argv r c off db = Inr db' \<Longrightarrow> core db' = core db"
  unfolding insert_metadata_def by (erule fold_core) (auto simp: write_metadata_core split: if_splits)

lemma clear_vectors_core [core_frame]: "vec0Update_Delete_ClearVectors p F c off db = Inr db' \<Longrightarrow> core db' = core db"
  unfolding vec0Update_Delete_ClearVectors_def
  by (erule fold_core) (auto simp: rbind_Inr Let_def split: if_splits)

lemma clear_metadata_core [core_frame]:
  "vec0Update_Delete_ClearMetadata p F i r c off db = Inr db' \<Longrightarrow> core db' = core db"
  by (cases "snd (metadata_columns p ! i)")
    (auto simp: vec0Update_Delete_ClearMetadata_def rbind_Inr Let_def case_Inr split: if_splits)

lemma delete_aux_core [core_frame]: "vec0Update_Delete_DeleteAux F r db = Inr db' \<Longrightarrow> core db' = core db"
  by (auto simp: vec0Update_Delete_DeleteAux_def)

lemma update_aux_core [core_frame]: "vec0Update_UpdateAuxColumn F i v r db = Inr db' \<Longrightarrow> core db' = core db"
  by (auto simp: vec0Update_UpdateAuxColumn_def split: option.splits)

lemma update_vector_core [core_frame]:
  "vec0Update_UpdateVectorColumn p F mem c off i v r db = Inr db' \<Longrightarrow> core db' = core db"
  unfolding vec0Update_UpdateVectorColumn_def Let_def case_Inr by (auto simp: case_Inr rbind_Inr split: if_splits)

lemma update_core: "vec0Update_Update p F mem nochange argv db = Inr db' \<Longrightarrow> core db' = core db"
proof -
  assume a: "vec0Update_Update p F mem nochange argv db = Inr db'"
  obtain db1 db2 r c off where
    1: "fold_result (\<lambda>i db.
       if fst (user_columns p ! i) \<noteq> SQLITE_VEC0_USER_COLUMN_KIND_AUXILIARY \<or> nochange (2 + 1 + i) then Inr db
       else case vec0Update_UpdateAuxColumn F (snd (user_columns p ! i)) (argv ! (2 + 1 + i)) r db of
              Inl _ \<Rightarrow> Inl SQLITE_ERROR | Inr db \<Rightarrow> Inr db)
       [0..<vec0_num_defined_user_columns p] db = Inr db1"
    and 2: "fold_result (\<lambda>i db.
       if fst (user_columns p ! i) \<noteq> SQLITE_VEC0_USER_COLUMN_KIND_METADATA \<or> nochange (2 + 1 + i) then Inr db
       else vec0_write_metadata_value p F (snd (user_columns p ! i)) r c off (argv ! (2 + 1 + i)) True db)
       [0..<vec0_num_defined_user_columns p] db1 = Inr db2"
    and 3: "fold_result (\<lambda>i db.
       if fst (user_columns p ! i) \<noteq> SQLITE_VEC0_USER_COLUMN_KIND_VECTOR \<or>
          value_type (argv ! (2 + 1 + i)) = SQLITE_NULL then Inr db
       else let idx = snd (user_columns p ! i)
       in if vc_index_type (vector_columns p ! idx) = VEC0_INDEX_TYPE_DISKANN then Inl SQLITE_ERROR
          else case vec0Update_UpdateVectorColumn p F (mem i) c off idx (argv ! (2 + 1 + i)) r db of
                 Inl _ \<Rightarrow> Inl SQLITE_ERROR | Inr db \<Rightarrow> Inr db)
       [0..<vec0_num_defined_user_columns p] db2 = Inr db'"
    using a unfolding vec0Update_Update_def rbind_Inr by (auto simp: rbind_Inr split: if_splits)
  have "core db1 = core db" using 1 by (rule fold_core) (auto simp: update_aux_core split: if_splits sum.splits)
  moreover have "core db2 = core db1" using 2 by (rule fold_core) (auto simp: write_metadata_core split: if_splits)
  moreover have "core db' = core db2"
    using 3 by (rule fold_core) (auto simp: update_vector_core Let_def split: if_splits sum.splits)
  ultimately show ?thesis by simp
qed

section \<open>The invariant of the whole state\<close>

text \<open>The positions agree, and the AUTOINCREMENT counters are above every rowid in use.\<close>

definition rows_ok :: "nat \<Rightarrow> int set \<Rightarrow> core \<Rightarrow> bool" where
  "rows_ok n pend s = (case s of (cs, nc, rs, nr) \<Rightarrow>
     positions_ok n pend cs rs \<and> (\<forall>c. tbl_get cs c \<noteq> None \<longrightarrow> c \<le> nc) \<and> (\<forall>r. tbl_get rs r \<noteq> None \<longrightarrow> r \<le> nr))"

text \<open>When all vector columns have a graph, no row ever gets a position.\<close>

definition db_ok :: "vec0_vtab \<Rightarrow> 'g vec0_db \<Rightarrow> bool" where
  "db_ok p db \<longleftrightarrow> rows_ok (chunk_size p) (if vec0_all_columns_diskann p then UNIV else {}) (core db)"

lemma fresh_key: "\<forall>c. tbl_get t c \<noteq> None \<longrightarrow> c \<le> n \<Longrightarrow> n < k \<Longrightarrow> tbl_get t k = None"
  by force

section \<open>A new row\<close>

lemma positions_new_row:
  assumes "positions_ok n pend cs rs" and "tbl_get rs r = None" and "is_i64 r" and "rr_pos row = None"
  shows "positions_ok n (insert r pend) cs (tbl_put rs r row)"
proof (rule positions_okI)
  note P = positions_okD [OF assms(1)]
  show "8 dvd n" "tbl_ok cs" "tbl_ok (tbl_put rs r row)" using P(1-3) by (simp_all add: tb.ok_put)
  note get = tb.get_put [OF P(3)]
  show "chunk_sized n chunk" if "tbl_get cs c = Some chunk" for c chunk using P(4) that by blast
  show "\<exists>row'. tbl_get (tbl_put rs r row) (i64_at (ck_rowids chunk) off) = Some row' \<and> rr_pos row' = Some (c, int off)"
    if "tbl_get cs c = Some chunk" "off < n" "bit_at (ck_validity chunk) off" for c chunk off
    using P(5) [OF that] assms(2) by (auto simp: get)
  show "is_i64 k" if "tbl_get (tbl_put rs r row) k = Some row'" for k row'
    using that P(6) assms(3) by (auto simp: get split: if_splits)
  show "rr_pos row' = None" if "tbl_get (tbl_put rs r row) k = Some row'" "k \<in> insert r pend" for k row'
    using that assms(4) P(7) by (auto simp: get split: if_splits)
  show "placed n cs k row'" if "tbl_get (tbl_put rs r row) k = Some row'" "k \<notin> insert r pend" for k row'
    using that P(8) by (auto simp: get split: if_splits)
qed

lemma insert_rowid_step_ok:
  assumes "vec0Update_InsertRowidStep p F v db = Inr (db', r)" and "rows_ok n pend (core db)"
    and "is_i64 (value_int64 v)"
  shows "rows_ok n (insert r pend) (core db') \<and> t_chunks db' = t_chunks db \<and> seq_chunks db' = seq_chunks db
    \<and> tbl_get (t_rowids db) r = None
    \<and> (\<exists>row. t_rowids db' = tbl_put (t_rowids db) r row \<and> rr_pos row = None)"
proof -
  have P: "positions_ok n pend (t_chunks db) (t_rowids db)" "\<forall>c. tbl_get (t_rowids db) c \<noteq> None \<longrightarrow> c \<le> seq_rowids db"
    "\<forall>c. tbl_get (t_chunks db) c \<noteq> None \<longrightarrow> c \<le> seq_chunks db"
    using assms(2) by (simp_all add: rows_ok_def core_def)
  have next_key: "tbl_get (t_rowids db) (max 0 (seq_rowids db) + 1) = None"
    by (rule fresh_key [OF P(2)]) simp
  obtain row where r: "db' = db\<lparr>t_rowids := tbl_put (t_rowids db) r row, seq_rowids := max (seq_rowids db) r\<rparr>"
    "rr_pos row = None" "tbl_get (t_rowids db) r = None" "is_i64 r"
  proof (cases "pkIsText p \<or> value_type v \<noteq> SQLITE_INTEGER")
    case True
    then obtain idv where i: "vec0_rowids_insert_id p F db idv = Inr (db', r)"
      using assms(1) by (auto simp: vec0Update_InsertRowidStep_def split: if_splits)
    then have e: "r = max 0 (seq_rowids db) + 1" "seq_rowids db < 2 ^ 63 - 1"
      "db' = db\<lparr>t_rowids := tbl_put (t_rowids db) r \<lparr>rr_id = idv, rr_pos = None\<rparr>, seq_rowids := r\<rparr>"
      by (auto simp: vec0_rowids_insert_id_def Let_def split: if_splits)
    moreover have "max (seq_rowids db) r = r" "is_i64 r" using e(1,2) by (auto simp: is_i64_def)
    ultimately show thesis using that [of "\<lparr>rr_id = idv, rr_pos = None\<rparr>"] next_key by simp
  next
    case False
    then have r: "r = value_int64 v" "vec0_rowids_insert_rowid F db r = Inr db'"
      using assms(1) by (auto simp: vec0Update_InsertRowidStep_def rbind_Inr)
    then have "tbl_get (t_rowids db) r = None"
      "db' = db\<lparr>t_rowids := tbl_put (t_rowids db) r \<lparr>rr_id = None, rr_pos = None\<rparr>, seq_rowids := max (seq_rowids db) r\<rparr>"
      by (auto simp: vec0_rowids_insert_rowid_def tbl_insert_def case_Inr split: if_splits)
    then show thesis using that [of "\<lparr>rr_id = None, rr_pos = None\<rparr>"] r(1) assms(3) by simp
  qed
  have "positions_ok n (insert r pend) (t_chunks db) (tbl_put (t_rowids db) r row)"
    using positions_new_row [OF P(1) r(3,4,2)] .
  moreover have "k \<le> max (seq_rowids db) r" if "tbl_get (tbl_put (t_rowids db) r row) k \<noteq> None" for k
    using that P(2) positions_okD(3) [OF P(1)] by (auto simp: tb.get_put split: if_splits)
  ultimately show ?thesis using r P(3) by (auto simp: rows_ok_def core_def)
qed

section \<open>A new chunk\<close>

lemma bit_at_zeros: "q < 8 * m \<Longrightarrow> \<not> bit_at (replicate m 0) q"
  by (simp add: bit_at_def)

lemma positions_put_chunk:
  assumes "positions_ok n pend cs rs" and "tbl_get cs c = None"
    and "chunk_sized n chunk" and "\<forall>off < n. \<not> bit_at (ck_validity chunk) off"
  shows "positions_ok n pend (tbl_put cs c chunk) rs"
proof (rule positions_okI)
  note P = positions_okD [OF assms(1)]
  note get = tb.get_put [OF P(2)]
  show "8 dvd n" "tbl_ok (tbl_put cs c chunk)" "tbl_ok rs" using P(1-3) by (simp_all add: tb.ok_put)
  show "chunk_sized n chunk'" if "tbl_get (tbl_put cs c chunk) k = Some chunk'" for k chunk'
    using that P(4) assms(3) by (auto simp: get split: if_splits)
  show "\<exists>row. tbl_get rs (i64_at (ck_rowids chunk') off) = Some row \<and> rr_pos row = Some (k, int off)"
    if "tbl_get (tbl_put cs c chunk) k = Some chunk'" "off < n" "bit_at (ck_validity chunk') off" for k chunk' off
    using that P(5) assms(4) by (auto simp: get split: if_splits)
  show "is_i64 r" if "tbl_get rs r = Some row" for r row using that P(6) by blast
  show "rr_pos row = None" if "tbl_get rs r = Some row" "r \<in> pend" for r row using that P(7) by blast
  show "placed n (tbl_put cs c chunk) r row" if r: "tbl_get rs r = Some row" "r \<notin> pend" for r row
    using P(8) [OF r] assms(2) unfolding placed_def get by force
qed

lemma new_chunk_core:
  assumes "vec0_new_chunk p F vals db = Inr (db', c)"
  shows "c = seq_chunks db + 1 \<and> core db' =
    (tbl_put (t_chunks db) c \<lparr>ck_size = chunk_size p, ck_validity = replicate (chunk_size p div 8) 0,
       ck_rowids = replicate (chunk_size p * 8) 0, ck_partition = vals\<rparr>, c, t_rowids db, seq_rowids db)"
proof -
  define db0 where "db0 = db\<lparr>t_chunks := tbl_put (t_chunks db) (seq_chunks db + 1)
      \<lparr>ck_size = chunk_size p, ck_validity = replicate (chunk_size p div 8) 0,
       ck_rowids = replicate (chunk_size p * 8) 0, ck_partition = vals\<rparr>, seq_chunks := seq_chunks db + 1\<rparr>"
  obtain f g db1 db2 where c: "c = seq_chunks db + 1"
    and 1: "fold_result f [0..<vec0_num_defined_user_columns p] db0 = Inr db1"
      "\<And>i d d'. f i d = Inr d' \<Longrightarrow> core d' = core d"
    and 2: "rescore_new_chunk p F c db1 = Inr db2"
    and 3: "fold_result g [0..<vec0_num_defined_user_columns p] db2 = Inr db'"
      "\<And>i d d'. g i d = Inr d' \<Longrightarrow> core d' = core d"
  proof -
    have f: "core d' = core d" if "(if fst (user_columns p ! i) \<noteq> SQLITE_VEC0_USER_COLUMN_KIND_VECTOR then Inr d
             else let idx = snd (user_columns p ! i)
             in if vc_index_type (vector_columns p ! idx) \<noteq> VEC0_INDEX_TYPE_FLAT then Inr d
                else attempt F ''insert vector chunk'' i
                  (rbind (tbl_insert (t_vectors d idx) k b)
                     (\<lambda>t. Inr (d\<lparr>t_vectors := (t_vectors d)(idx := t)\<rparr>)))) = Inr d'" for i d d' k b
      using that by (auto simp: rbind_Inr Let_def split: if_splits)
    have g: "core d' = core d" if "(if fst (user_columns p ! i) \<noteq> SQLITE_VEC0_USER_COLUMN_KIND_METADATA then Inr d
             else let idx = snd (user_columns p ! i)
             in attempt F ''insert metadata chunk'' i
                  (rbind (tbl_insert (t_metadata d idx) k b)
                     (\<lambda>t. Inr (d\<lparr>t_metadata := (t_metadata d)(idx := t)\<rparr>)))) = Inr d'" for i d d' k b
      using that by (auto simp: rbind_Inr Let_def split: if_splits)
    show thesis
      using assms unfolding vec0_new_chunk_def Let_def rbind_Inr
      by (auto simp: rbind_Inr db0_def [symmetric] Let_def split: if_splits
          intro!: that dest: f [unfolded Let_def] g [unfolded Let_def])
  qed
  have "core db' = core db0" using fold_core [OF 1] rescore_new_chunk_core [OF 2] fold_core [OF 3] by simp
  then show ?thesis using c by (simp add: db0_def core_def)
qed

lemma new_chunk_ok:
  assumes "vec0_new_chunk p F vals db = Inr (db', c)" and "rows_ok n pend (core db)" and "n = chunk_size p"
  shows "rows_ok n pend (core db') \<and> t_rowids db' = t_rowids db
    \<and> (\<exists>chunk. tbl_get (t_chunks db') c = Some chunk \<and> ck_validity chunk = replicate (n div 8) 0)"
proof -
  define chunk where "chunk = \<lparr>ck_size = n, ck_validity = replicate (n div 8) 0,
       ck_rowids = replicate (n * 8) 0, ck_partition = vals\<rparr>"
  have c: "c = seq_chunks db + 1" "core db' = (tbl_put (t_chunks db) c chunk, c, t_rowids db, seq_rowids db)"
    using new_chunk_core [OF assms(1)] assms(3) by (simp_all add: chunk_def)
  have P: "positions_ok n pend (t_chunks db) (t_rowids db)" "\<forall>c. tbl_get (t_chunks db) c \<noteq> None \<longrightarrow> c \<le> seq_chunks db"
    using assms(2) by (simp_all add: rows_ok_def core_def)
  have "tbl_get (t_chunks db) c = None" by (rule fresh_key [OF P(2)]) (simp add: c(1))
  moreover have "8 dvd n" "tbl_ok (t_chunks db)" using positions_okD [OF P(1)] by simp_all
  moreover from this have "\<forall>off < n. \<not> bit_at (ck_validity chunk) off"
    by (auto simp: chunk_def bit_at_zeros)
  ultimately have "positions_ok n pend (tbl_put (t_chunks db) c chunk) (t_rowids db)"
    using positions_put_chunk [OF P(1)] by (simp add: chunk_sized_def chunk_def)
  then show ?thesis using c assms(2) \<open>tbl_ok (t_chunks db)\<close>
    by (auto simp: rows_ok_def core_def tb.get_put chunk_def)
qed

section \<open>The next position\<close>

definition free_position :: "nat \<Rightarrow> 'g vec0_db \<Rightarrow> int \<Rightarrow> int \<Rightarrow> bytes \<Rightarrow> bool" where
  "free_position n db c off v \<longleftrightarrow> 0 \<le> off \<and> off < int n \<and>
     (\<exists>chunk. tbl_get (t_chunks db) c = Some chunk \<and> ck_validity chunk = v \<and> \<not> bit_at v (nat off))"

lemma insert_into_new_chunk_ok:
  assumes "insert_into_new_chunk p F vals db = Inr (db', c, off, v)" and "rows_ok n pend (core db)"
    and "n = chunk_size p" and "0 < n"
  shows "rows_ok n pend (core db') \<and> t_rowids db' = t_rowids db \<and> free_position n db' c off v"
proof -
  obtain db1 where new: "vec0_new_chunk p F vals db = Inr (db1, c)"
    and rest: "(case tbl_get (t_chunks db1) c of
               None \<Rightarrow> Inl SQLITE_ERROR
             | Some chunk \<Rightarrow>
                 if length (ck_validity chunk) \<noteq> chunk_size p div 8 then Inr (db1, c, 0, [])
                 else Inr (db1, c, 0, ck_validity chunk)) = Inr (db', c, off, v)"
    using assms(1) by (auto simp: insert_into_new_chunk_def case_Inr split: if_splits)
  note N = new_chunk_ok [OF new assms(2,3)]
  then obtain chunk where k: "tbl_get (t_chunks db1) c = Some chunk" "ck_validity chunk = replicate (n div 8) 0"
    by blast
  have "8 dvd n" using assms(2) by (auto simp: rows_ok_def positions_okD(1) split: prod.splits)
  then have "0 < 8 * (n div 8)" using assms(4) by simp
  then have "\<not> bit_at (replicate (n div 8) 0) 0" by (rule bit_at_zeros)
  moreover have "db' = db1" "off = 0" "v = replicate (n div 8) 0" using rest k assms(3) by simp_all
  ultimately show ?thesis using N k assms(4) by (simp add: free_position_def)
qed

lemma next_available_ok:
  assumes "vec0Update_InsertNextAvailableStep p F vals db = Inr (db', c, off, v)"
    and "rows_ok n pend (core db)" and "n = chunk_size p" and "0 < n"
  shows "rows_ok n pend (core db') \<and> t_rowids db' = t_rowids db \<and> free_position n db' c off v"
proof (cases "insert_into_new_chunk p F vals db = Inr (db', c, off, v)")
  case True
  then show ?thesis using insert_into_new_chunk_ok assms(2-4) by blast
next
  case False
  show ?thesis
  proof (cases "vec0_get_latest_chunk_rowid F db vals")
    case (Inl rc)
    then show ?thesis using assms(1) False by (simp add: vec0Update_InsertNextAvailableStep_def split: if_splits)
  next
    case (Inr cid)
    then obtain chunk where k: "tbl_get (t_chunks db) cid = Some chunk" "length (ck_validity chunk) = n div 8"
      and f: "(case first_free 0 (ck_validity chunk) of
                 Some offset \<Rightarrow> Inr (db, cid, int offset, ck_validity chunk)
               | None \<Rightarrow> insert_into_new_chunk p F vals db) = Inr (db', c, off, v)"
      using assms(1,3) by (auto simp: vec0Update_InsertNextAvailableStep_def case_Inr simp del: first_free.simps)
    then obtain o' where o': "first_free 0 (ck_validity chunk) = Some o'" "db' = db" "cid = c" "off = int o'"
      "v = ck_validity chunk" using False by (cases "first_free 0 (ck_validity chunk)") simp_all
    then have "o' < 8 * (n div 8)" "\<not> bit_at v o'" using first_free_spec [of v 0] k(2) by simp_all
    moreover have "8 dvd n" using assms(2) by (auto simp: rows_ok_def positions_okD(1) split: prod.splits)
    ultimately show ?thesis using k o' assms(2) by (simp add: free_position_def)
  qed
qed

section \<open>Filling the position\<close>

lemma positions_fill:
  assumes "positions_ok n {r} cs rs" and "tbl_get rs r = Some row"
    and "tbl_get cs c = Some chunk" and "off < n" and "\<not> bit_at (ck_validity chunk) off"
    and "set_validity (ck_validity chunk) off (ck_validity chunk) = Some v'"
    and "blob_write (ck_rowids chunk) (i64_bytes r) (off * 8) = Some ids'"
  defines "chunk' \<equiv> chunk\<lparr>ck_validity := v', ck_rowids := ids'\<rparr>"
    and "row' \<equiv> row\<lparr>rr_pos := Some (c, int off)\<rparr>"
  shows "positions_ok n {} (tbl_put cs c chunk') (tbl_put rs r row')"
proof -
  note P = positions_okD [OF assms(1)]
  note get = tb.get_put [OF P(2)] tb.get_put [OF P(3)]
  have sz: "chunk_sized n chunk" using P(4) assms(3) by blast
  have len: "8 * length (ck_validity chunk) = n" using sz P(1) by (auto simp: chunk_sized_def)
  have i64: "is_i64 r" using P(6) assms(2) by blast
  have bits: "bit_at v' q = (q = off \<or> bit_at (ck_validity chunk) q)" if "q < n" for q
    using set_validity_bits [OF assms(6)] that len by simp
  have ids: "i64_at ids' q = (if q = off then r else i64_at (ck_rowids chunk) q)" if "q < n" for q
    using i64_at_write [OF assms(7) i64] that sz by (simp add: chunk_sized_def)
  have sz': "chunk_sized n chunk'"
    using sz assms(6,7) by (auto simp: chunk_sized_def chunk'_def set_validity_def dest: blob_write_length)
  have other: "i64_at (ck_rowids ch) q \<noteq> r"
    if "tbl_get cs k = Some ch" "q < n" "bit_at (ck_validity ch) q" for k ch q
    using P(5) [OF that] P(7) [of r] by auto
  show ?thesis
  proof (rule positions_okI)
    show "8 dvd n" "tbl_ok (tbl_put cs c chunk')" "tbl_ok (tbl_put rs r row')"
      using P(1-3) by (simp_all add: tb.ok_put)
    show "chunk_sized n ch" if "tbl_get (tbl_put cs c chunk') k = Some ch" for k ch
      using that P(4) sz' by (auto simp: get split: if_splits)
    show "\<exists>w. tbl_get (tbl_put rs r row') (i64_at (ck_rowids ch) q) = Some w \<and> rr_pos w = Some (k, int q)"
      if a: "tbl_get (tbl_put cs c chunk') k = Some ch" "q < n" "bit_at (ck_validity ch) q" for k ch q
    proof (cases "k = c \<and> q = off")
      case True
      then show ?thesis using a ids by (auto simp: get chunk'_def row'_def)
    next
      case False
      obtain ch0 where "tbl_get cs k = Some ch0" "bit_at (ck_validity ch0) q"
        "i64_at (ck_rowids ch) q = i64_at (ck_rowids ch0) q"
        using a False assms(3) bits [of q] ids [of q] by (auto simp: get chunk'_def split: if_splits)
      with other P(5) a(2) show ?thesis by (fastforce simp: get)
    qed
    show "is_i64 k" if "tbl_get (tbl_put rs r row') k = Some w" for k w
      using that P(6) i64 by (auto simp: get split: if_splits)
    show "placed n (tbl_put cs c chunk') k w" if k: "tbl_get (tbl_put rs r row') k = Some w" for k w
    proof (cases "k = r")
      case True
      then show ?thesis using k assms(4) bits [of off] ids [of off]
        by (auto simp: get placed_def row'_def chunk'_def)
    next
      case False
      then have "placed n cs k w" using k P(8) by (auto simp: get)
      then obtain c0 o0 ch0 where p: "rr_pos w = Some (c0, int o0)" "tbl_get cs c0 = Some ch0" "o0 < n"
        "bit_at (ck_validity ch0) o0" "i64_at (ck_rowids ch0) o0 = k" by (auto simp: placed_def)
      show ?thesis
      proof (cases "c0 = c")
        case True
        then have "o0 \<noteq> off" using p assms(3,5) by auto
        then have "bit_at v' o0" "i64_at ids' o0 = k" using True p assms(3) bits [of o0] ids [of o0] by simp_all
        then show ?thesis unfolding placed_def using True p by (auto simp: get chunk'_def)
      next
        case False
        then show ?thesis unfolding placed_def using p by (auto simp: get)
      qed
    qed
  qed auto
qed

lemma write_final_core:
  assumes "vec0Update_InsertWriteFinalStep p F c off r vs v db = Inr db'"
    and "tbl_get (t_rowids db) r = Some row" and "tbl_ok (t_chunks db)"
  obtains chunk v' ids' where "tbl_get (t_chunks db) c = Some chunk"
    and "set_validity (ck_validity chunk) (nat off) v = Some v'"
    and "blob_write (ck_rowids chunk) (i64_bytes r) (nat off * 8) = Some ids'"
    and "seq_chunks db' = seq_chunks db" and "seq_rowids db' = seq_rowids db"
    and "\<And>k. tbl_get (t_chunks db') k = tbl_get (tbl_put (t_chunks db) c (chunk\<lparr>ck_validity := v', ck_rowids := ids'\<rparr>)) k"
    and "tbl_ok (t_chunks db')"
    and "t_rowids db' = tbl_put (t_rowids db) r (row\<lparr>rr_pos := Some (c, off)\<rparr>)"
proof -
  obtain chunk v' db1 ids' where k: "tbl_get (t_chunks db) c = Some chunk"
    "set_validity (ck_validity chunk) (nat off) v = Some v'"
    and w: "write_vectors p F c off vs
       (db\<lparr>t_chunks := tbl_put (t_chunks db) c (chunk\<lparr>ck_validity := v'\<rparr>)\<rparr>) = Inr db1"
    and ids: "blob_write (ck_rowids chunk) (i64_bytes r) (nat off * 8) = Some ids'"
    and u: "vec0_rowids_update_position F
       (db1\<lparr>t_chunks := tbl_put (t_chunks db1) c (chunk\<lparr>ck_validity := v', ck_rowids := ids'\<rparr>)\<rparr>) r c off = Inr db'"
    using assms(1) by (auto simp: vec0Update_InsertWriteFinalStep_def Let_def case_Inr rbind_Inr)
  have c1: "t_chunks db1 = tbl_put (t_chunks db) c (chunk\<lparr>ck_validity := v'\<rparr>)" "t_rowids db1 = t_rowids db"
    "seq_chunks db1 = seq_chunks db" "seq_rowids db1 = seq_rowids db"
    using coreD [OF write_vectors_core [OF w]] by simp_all
  have d': "db' = db1\<lparr>t_chunks := tbl_put (t_chunks db1) c (chunk\<lparr>ck_validity := v', ck_rowids := ids'\<rparr>),
      t_rowids := tbl_put (t_rowids db) r (row\<lparr>rr_pos := Some (c, off)\<rparr>)\<rparr>"
    using u c1(2) assms(2) by (simp add: vec0_rowids_update_position_def)
  show thesis
    by (rule that [OF k ids]) (simp_all add: d' c1 tb.ok_put tb.get_put assms(3))
qed

text \<open>The invariant speaks of the rows of a table, not of how its list came about.\<close>

lemma positions_get_cong:
  assumes "positions_ok n pend cs rs" and "tbl_ok cs'" and "\<And>k. tbl_get cs' k = tbl_get cs k"
  shows "positions_ok n pend cs' rs"
proof -
  have "placed n cs' r row = placed n cs r row" for r row by (simp add: placed_def assms(3))
  then show ?thesis using assms by (simp add: positions_ok_def)
qed

lemma write_final_ok:
  assumes "vec0Update_InsertWriteFinalStep p F c off r vs v db = Inr db'"
    and "rows_ok n {r} (core db)" and "free_position n db c off v" and "tbl_get (t_rowids db) r \<noteq> None"
  shows "rows_ok n {} (core db')
    \<and> (\<exists>row'. tbl_get (t_rowids db') r = Some row' \<and> rr_pos row' = Some (c, off))
    \<and> (\<forall>k. k \<noteq> r \<longrightarrow> tbl_get (t_rowids db') k = tbl_get (t_rowids db) k)"
proof -
  have P: "positions_ok n {r} (t_chunks db) (t_rowids db)"
    and seq: "\<forall>c. tbl_get (t_chunks db) c \<noteq> None \<longrightarrow> c \<le> seq_chunks db"
      "\<forall>c. tbl_get (t_rowids db) c \<noteq> None \<longrightarrow> c \<le> seq_rowids db"
    using assms(2) by (simp_all add: rows_ok_def core_def)
  note ok = positions_okD(2,3) [OF P]
  obtain row where row: "tbl_get (t_rowids db) r = Some row" using assms(4) by blast
  obtain chunk v' ids' where k: "tbl_get (t_chunks db) c = Some chunk"
    and w: "set_validity (ck_validity chunk) (nat off) v = Some v'"
      "blob_write (ck_rowids chunk) (i64_bytes r) (nat off * 8) = Some ids'"
    and s: "seq_chunks db' = seq_chunks db" "seq_rowids db' = seq_rowids db"
    and g: "\<And>k. tbl_get (t_chunks db') k = tbl_get (tbl_put (t_chunks db) c (chunk\<lparr>ck_validity := v', ck_rowids := ids'\<rparr>)) k"
    and o': "tbl_ok (t_chunks db')"
    and rs: "t_rowids db' = tbl_put (t_rowids db) r (row\<lparr>rr_pos := Some (c, off)\<rparr>)"
    by (rule write_final_core [OF assms(1) row ok(1)]) (rule that, assumption+)
  have free: "nat off < n" "ck_validity chunk = v" "\<not> bit_at (ck_validity chunk) (nat off)" "int (nat off) = off"
    using assms(3) k by (auto simp: free_position_def)
  have "positions_ok n {} (tbl_put (t_chunks db) c (chunk\<lparr>ck_validity := v', ck_rowids := ids'\<rparr>)) (t_rowids db')"
    using positions_fill [OF P row k free(1,3) _ w(2)] w(1) free(2,4) unfolding rs by simp
  then have "positions_ok n {} (t_chunks db') (t_rowids db')" by (rule positions_get_cong [OF _ o' g])
  moreover have "tbl_get (t_chunks db') k \<noteq> None \<longrightarrow> k \<le> seq_chunks db'" for k
    using seq(1) s(1) g k ok(1) by (auto simp: tb.get_put split: if_splits)
  moreover have "tbl_get (t_rowids db') k \<noteq> None \<longrightarrow> k \<le> seq_rowids db'" for k
    using seq(2) s(2) row ok(2) by (auto simp: rs tb.get_put split: if_splits)
  ultimately show ?thesis using ok(2) by (simp add: rows_ok_def core_def rs tb.get_put)
qed

section \<open>Emptying a position\<close>

lemma positions_empty:
  assumes "positions_ok n {} cs rs" and "tbl_get rs r = Some row" and "rr_pos row = Some (c, int off)"
    and "tbl_get cs c = Some chunk"
    and "chunk_sized n chunk'"
    and "\<And>q. q < n \<Longrightarrow> bit_at (ck_validity chunk') q = (q \<noteq> off \<and> bit_at (ck_validity chunk) q)"
    and "\<And>q. q < n \<Longrightarrow> q \<noteq> off \<Longrightarrow> i64_at (ck_rowids chunk') q = i64_at (ck_rowids chunk) q"
  shows "positions_ok n {} (tbl_put cs c chunk') (tbl_del rs r)"
proof (rule positions_okI)
  note P = positions_okD [OF assms(1)]
  note get = tb.get_put [OF P(2)] tb.get_del
  have inj: "k = r" if "tbl_get rs k = Some w" "rr_pos w = Some (c, int off)" for k w
    using positions_inj [OF assms(1) that(1) assms(2)] that(2) assms(3) by simp
  have slot: "i64_at (ck_rowids chunk) off = r"
    using P(8) [OF assms(2)] assms(3,4) by (auto simp: placed_def)
  show "8 dvd n" "tbl_ok (tbl_put cs c chunk')" "tbl_ok (tbl_del rs r)" using P(1-3) by (simp_all add: tb.ok_put tb.ok_del)
  show "chunk_sized n ch" if "tbl_get (tbl_put cs c chunk') k = Some ch" for k ch
    using that P(4) assms(5) by (auto simp: get split: if_splits)
  show "\<exists>w. tbl_get (tbl_del rs r) (i64_at (ck_rowids ch) q) = Some w \<and> rr_pos w = Some (k, int q)"
    if a: "tbl_get (tbl_put cs c chunk') k = Some ch" "q < n" "bit_at (ck_validity ch) q" for k ch q
  proof -
    obtain ch0 where c0: "tbl_get cs k = Some ch0" "bit_at (ck_validity ch0) q"
      "i64_at (ck_rowids ch) q = i64_at (ck_rowids ch0) q" "\<not> (k = c \<and> q = off)"
      using a assms(4,6,7) by (auto simp: get split: if_splits)
    obtain w where w: "tbl_get rs (i64_at (ck_rowids ch0) q) = Some w" "rr_pos w = Some (k, int q)"
      using P(5) [OF c0(1) a(2) c0(2)] by blast
    then have "i64_at (ck_rowids ch0) q \<noteq> r" using assms(2,3) c0(4) by auto
    then show ?thesis using w c0(3) by (simp add: get)
  qed
  show "is_i64 k" if "tbl_get (tbl_del rs r) k = Some w" for k w
    using that P(6) by (auto simp: get split: if_splits)
  show "placed n (tbl_put cs c chunk') k w" if k: "tbl_get (tbl_del rs r) k = Some w" for k w
  proof -
    have kr: "tbl_get rs k = Some w" "k \<noteq> r" using k by (auto simp: get split: if_splits)
    then have "placed n cs k w" "rr_pos w \<noteq> Some (c, int off)" using P(8) inj by auto
    then obtain c0 o0 ch0 where p: "rr_pos w = Some (c0, int o0)" "tbl_get cs c0 = Some ch0" "o0 < n"
      "bit_at (ck_validity ch0) o0" "i64_at (ck_rowids ch0) o0 = k" "\<not> (c0 = c \<and> o0 = off)"
      by (auto simp: placed_def)
    show ?thesis
    proof (cases "c0 = c")
      case True
      then show ?thesis unfolding placed_def using p assms(4,6,7) by (auto simp: get)
    next
      case False
      then show ?thesis unfolding placed_def using p by (auto simp: get)
    qed
  qed
qed auto

lemma positions_drop_chunk:
  assumes "positions_ok n {} cs rs" and "tbl_get cs c = Some chunk"
    and "\<forall>b \<in> set (ck_validity chunk). b = 0"
  shows "positions_ok n {} (tbl_del cs c) rs"
proof (rule positions_okI)
  note P = positions_okD [OF assms(1)]
  have "8 * length (ck_validity chunk) = n" using P(1) P(4) [OF assms(2)] by (auto simp: chunk_sized_def)
  then have "ck_validity chunk ! (q div 8) = 0" if "q < n" for q
    using assms(3) that by simp
  then have zero: "\<not> bit_at (ck_validity chunk) q" if "q < n" for q
    using that by (simp add: bit_at_def)
  show "8 dvd n" "tbl_ok (tbl_del cs c)" "tbl_ok rs" using P(1-3) by (simp_all add: tb.ok_del)
  show "placed n (tbl_del cs c) k w" if kw: "tbl_get rs k = Some w" for k w
  proof -
    obtain c0 o0 ch0 where p: "rr_pos w = Some (c0, int o0)" "tbl_get cs c0 = Some ch0" "o0 < n"
      "bit_at (ck_validity ch0) o0" "i64_at (ck_rowids ch0) o0 = k"
      using P(8) [OF kw] by (auto simp: placed_def)
    then have "c0 \<noteq> c" using assms(2) zero by auto
    then show ?thesis unfolding placed_def using p by (auto simp: tb.get_del)
  qed
qed (use positions_okD [OF assms(1)] in \<open>auto simp: tb.get_del split: if_splits\<close>)

section \<open>Deleting a row\<close>

lemma clear_position_core:
  assumes "vec0Update_Delete_ClearValidity F c off db = Inr db1"
    and "vec0Update_Delete_ClearRowid F c off db1 = Inr db2" and "tbl_ok (t_chunks db)"
  obtains chunk v' ids' where "tbl_get (t_chunks db) c = Some chunk"
    and "blob_write (ck_validity chunk) [ck_validity chunk ! (nat off div 8) AND NOT (push_bit (nat off mod 8) 1)] (nat off div 8) = Some v'"
    and "blob_write (ck_rowids chunk) (i64_bytes 0) (nat off * 8) = Some ids'"
    and "seq_chunks db2 = seq_chunks db" and "seq_rowids db2 = seq_rowids db" and "t_rowids db2 = t_rowids db"
    and "\<And>k. tbl_get (t_chunks db2) k = tbl_get (tbl_put (t_chunks db) c (chunk\<lparr>ck_validity := v', ck_rowids := ids'\<rparr>)) k"
    and "tbl_ok (t_chunks db2)"
proof -
  obtain chunk bx v' where 1: "tbl_get (t_chunks db) c = Some chunk"
    "blob_read (ck_validity chunk) 1 (nat off div 8) = Some bx"
    "blob_write (ck_validity chunk) [bx ! 0 AND NOT (push_bit (nat off mod 8) 1)] (nat off div 8) = Some v'"
    "db1 = db\<lparr>t_chunks := tbl_put (t_chunks db) c (chunk\<lparr>ck_validity := v'\<rparr>)\<rparr>"
    using assms(1) by (auto simp: vec0Update_Delete_ClearValidity_def Let_def case_Inr)
  have "bx ! 0 = ck_validity chunk ! (nat off div 8)"
    using 1(2) by (auto simp: blob_read_def hd_drop_conv_nth take_Suc split: if_splits)
  with 1 have wr: "blob_write (ck_validity chunk) [ck_validity chunk ! (nat off div 8) AND NOT (push_bit (nat off mod 8) 1)] (nat off div 8) = Some v'" by simp
  obtain ids' where 2: "blob_write (ck_rowids chunk) (i64_bytes 0) (nat off * 8) = Some ids'"
    "db2 = db1\<lparr>t_chunks := tbl_put (t_chunks db1) c (chunk\<lparr>ck_validity := v', ck_rowids := ids'\<rparr>)\<rparr>"
    using assms(2,3) 1(4) by (auto simp: vec0Update_Delete_ClearRowid_def case_Inr tb.get_put)
  show thesis by (rule that [OF 1(1) wr 2(1)]) (simp_all add: 2 1(4) tb.ok_put tb.get_put assms(3))
qed

lemma delete_chunk_if_empty_core:
  assumes "vec0Update_Delete_DeleteChunkIfEmpty p F c db = Inr (db', b)"
  shows "core db' = core db \<or>
    (\<exists>chunk. tbl_get (t_chunks db) c = Some chunk \<and> (\<forall>b \<in> set (ck_validity chunk). b = 0) \<and>
       core db' = (tbl_del (t_chunks db) c, seq_chunks db, t_rowids db, seq_rowids db))"
proof -
  obtain chunk where k: "tbl_get (t_chunks db) c = Some chunk"
    using assms by (auto simp: vec0Update_Delete_DeleteChunkIfEmpty_def case_Inr)
  show ?thesis
  proof (cases "\<exists>b \<in> set (ck_validity chunk). b \<noteq> 0")
    case True
    then show ?thesis using assms k by (auto simp: vec0Update_Delete_DeleteChunkIfEmpty_def)
  next
    case False
    define f where "f = (\<lambda>i (db :: 'a vec0_db). if \<not> is_flat p i then Inr db
       else attempt F ''delete vector chunk'' i
         (Inr (db\<lparr>t_vectors := (t_vectors db)(i := tbl_del (t_vectors db i) c)\<rparr>)))"
    define g where "g = (\<lambda>i (db :: 'a vec0_db). attempt F ''delete metadata chunk'' i
         (Inr (db\<lparr>t_metadata := (t_metadata db)(i := tbl_del (t_metadata db i) c)\<rparr>)))"
    obtain db1 db2 where 1: "fold_result f [0..<length (vector_columns p)] (db\<lparr>t_chunks := tbl_del (t_chunks db) c\<rparr>) = Inr db1"
      and 2: "rescore_delete_chunk p F c db1 = Inr db2"
      and 3: "fold_result g [0..<length (metadata_columns p)] db2 = Inr db'"
      using assms k False
      by (auto simp: vec0Update_Delete_DeleteChunkIfEmpty_def rbind_Inr f_def g_def)
    have "core db1 = core (db\<lparr>t_chunks := tbl_del (t_chunks db) c\<rparr>)"
      using 1 by (rule fold_core) (auto simp: f_def split: if_splits)
    moreover have "core db' = core db2" using 3 by (rule fold_core) (auto simp: g_def)
    ultimately have "core db' = core (db\<lparr>t_chunks := tbl_del (t_chunks db) c\<rparr>)"
      using rescore_delete_chunk_core [OF 2] by simp
    then show ?thesis using k False by (simp add: core_def)
  qed
qed

lemma delete_chunk_if_empty_ok:
  assumes "vec0Update_Delete_DeleteChunkIfEmpty p F c db = Inr (db', b)" and "rows_ok n {} (core db)"
  shows "rows_ok n {} (core db') \<and> t_rowids db' = t_rowids db"
  using delete_chunk_if_empty_core [OF assms(1)]
proof
  assume "core db' = core db"
  then show ?thesis using assms(2) coreD by simp blast
next
  assume "\<exists>chunk. tbl_get (t_chunks db) c = Some chunk \<and> (\<forall>b \<in> set (ck_validity chunk). b = 0) \<and>
       core db' = (tbl_del (t_chunks db) c, seq_chunks db, t_rowids db, seq_rowids db)"
  then obtain chunk where k: "tbl_get (t_chunks db) c = Some chunk" "\<forall>b \<in> set (ck_validity chunk). b = 0"
    and c: "core db' = (tbl_del (t_chunks db) c, seq_chunks db, t_rowids db, seq_rowids db)" by blast
  have "positions_ok n {} (t_chunks db) (t_rowids db)" using assms(2) by (simp add: rows_ok_def core_def)
  from positions_drop_chunk [OF this k] show ?thesis
    unfolding c using c assms(2) by (auto simp: rows_ok_def core_def tb.get_del)
qed

text \<open>The two writes to the chunk and the deletion of the row, whatever steps lie between.\<close>

lemma empty_position_ok:
  assumes "rows_ok n {} (core db)" and "tbl_get (t_rowids db) r = Some row" and "rr_pos row = Some (c, off)"
    and "vec0Update_Delete_ClearValidity F c off db = Inr db1" and "vec0Update_Delete_ClearRowid F c off db1 = Inr db2"
  shows "rows_ok n {} (t_chunks db2, seq_chunks db2, tbl_del (t_rowids db2) r, seq_rowids db2)
    \<and> t_rowids db2 = t_rowids db"
proof -
  have P: "positions_ok n {} (t_chunks db) (t_rowids db)"
    and seq: "\<forall>c. tbl_get (t_chunks db) c \<noteq> None \<longrightarrow> c \<le> seq_chunks db"
      "\<forall>c. tbl_get (t_rowids db) c \<noteq> None \<longrightarrow> c \<le> seq_rowids db"
    using assms(1) by (simp_all add: rows_ok_def core_def)
  note ok = positions_okD(2,3) [OF P]
  obtain chunk v' ids' where k: "tbl_get (t_chunks db) c = Some chunk"
    and v: "blob_write (ck_validity chunk) [ck_validity chunk ! (nat off div 8) AND NOT (push_bit (nat off mod 8) 1)] (nat off div 8) = Some v'"
    and i: "blob_write (ck_rowids chunk) (i64_bytes 0) (nat off * 8) = Some ids'"
    and s: "seq_chunks db2 = seq_chunks db" "seq_rowids db2 = seq_rowids db" "t_rowids db2 = t_rowids db"
    and g: "\<And>k. tbl_get (t_chunks db2) k = tbl_get (tbl_put (t_chunks db) c (chunk\<lparr>ck_validity := v', ck_rowids := ids'\<rparr>)) k"
    and o': "tbl_ok (t_chunks db2)"
    by (rule clear_position_core [OF assms(4,5) ok(1)]) (rule that, assumption+)
  have off: "int (nat off) = off" using positions_okD(8) [OF P assms(2)] assms(3) by (auto simp: placed_def)
  have sz: "chunk_sized n chunk" using positions_okD(4) [OF P k] .
  then have len: "8 * length (ck_validity chunk) = n" using positions_okD(1) [OF P] by (auto simp: chunk_sized_def)
  have "positions_ok n {} (tbl_put (t_chunks db) c (chunk\<lparr>ck_validity := v', ck_rowids := ids'\<rparr>)) (tbl_del (t_rowids db) r)"
  proof (rule positions_empty [OF P assms(2) _ k, of "nat off"])
    show "rr_pos row = Some (c, int (nat off))" using assms(3) off by simp
    show "chunk_sized n (chunk\<lparr>ck_validity := v', ck_rowids := ids'\<rparr>)"
      using sz blob_write_length [OF v] blob_write_length [OF i] by (simp add: chunk_sized_def)
    show "bit_at (ck_validity (chunk\<lparr>ck_validity := v', ck_rowids := ids'\<rparr>)) q
        = (q \<noteq> nat off \<and> bit_at (ck_validity chunk) q)" if "q < n" for q
      using clear_validity_bits [OF v] that len by simp
    show "i64_at (ck_rowids (chunk\<lparr>ck_validity := v', ck_rowids := ids'\<rparr>)) q = i64_at (ck_rowids chunk) q"
      if "q < n" "q \<noteq> nat off" for q
      using i64_at_write [OF i, of q] that sz by (simp add: is_i64_def chunk_sized_def)
  qed
  then have "positions_ok n {} (t_chunks db2) (tbl_del (t_rowids db) r)" by (rule positions_get_cong [OF _ o' g])
  moreover have "tbl_get (t_chunks db2) k \<noteq> None \<longrightarrow> k \<le> seq_chunks db" for k
    using seq(1) g k ok(1) by (auto simp: tb.get_put split: if_splits)
  ultimately show ?thesis using seq(2) s by (auto simp: rows_ok_def tb.get_del)
qed

end
