(* ===== verification/Example.thy ===== *)
theory Example
  imports Update
begin

text \<open>
  A concrete table for the witnesses: one flat \<open>int8[2]\<close> column, chunks of eight rows, and the
  states it goes through.
\<close>

definition ex_column :: VectorColumnDefinition where
  "ex_column = \<lparr>vc_name = ''embedding'', vc_dimensions = 2, vc_element_type = SQLITE_VEC_ELEMENT_TYPE_INT8,
     vc_distance_metric = VEC0_DISTANCE_METRIC_L2, vc_index_type = VEC0_INDEX_TYPE_FLAT,
     vc_rescore = zero_rescore, vc_diskann = zero_diskann\<rparr>"

definition ex_table :: vec0_vtab where
  "ex_table = \<lparr>pkIsText = False, hasCommandColumn = False,
     user_columns = [(SQLITE_VEC0_USER_COLUMN_KIND_VECTOR, 0)], vector_columns = [ex_column],
     partition_columns = [], auxiliary_columns = [], metadata_columns = [], chunk_size = 8\<rparr>"

definition ex_empty :: "unit vec0_db" where
  "ex_empty = \<lparr>t_chunks = [], seq_chunks = 0, t_rowids = [], seq_rowids = 0, t_vectors = \<lambda>_. [],
     t_metadata = \<lambda>_. [], t_metatext = \<lambda>_. [], t_aux = [], t_rescore_chunks = \<lambda>_. [],
     t_rescore_vectors = \<lambda>_. [], t_diskann = ()\<rparr>"

definition ex_api :: "unit diskann_api" where
  "ex_api = \<lparr>api_insert = \<lambda>_ _ _ g. Inr g, api_delete = \<lambda>_ _ g. Inr g, api_vector_read = \<lambda>_ _ _. Inl SQLITE_ERROR\<rparr>"

definition ex_null :: sqlite3_value where
  "ex_null = \<lparr>value_type = SQLITE_NULL, value_blob = [], value_text = [], value_int = 0,
     value_int64 = 0, value_double = fp0, value_subtype = 0\<rparr>"

definition ex_int :: "int \<Rightarrow> sqlite3_value" where
  "ex_int i = ex_null\<lparr>value_type := SQLITE_INTEGER, value_int := i, value_int64 := i\<rparr>"

definition ex_vec :: "bytes \<Rightarrow> sqlite3_value" where
  "ex_vec b = ex_null\<lparr>value_type := SQLITE_BLOB, value_blob := b, value_subtype := 225\<rparr>"

definition ex_step :: "sqlite3_value list \<Rightarrow> unit vec0_db \<Rightarrow> (vec0_vtab \<times> unit vec0_db \<times> int option) result" where
  "ex_step argv db = vec0Update ex_table no_faults ex_api (\<lambda>_ _ _. True) (0, 0) ex_null False (\<lambda>_. False)
     (\<lambda>_ _. Inl SQLITE_EMPTY) argv db"

definition ex_insert :: "int \<Rightarrow> bytes \<Rightarrow> sqlite3_value list" where
  "ex_insert i v = [ex_null, ex_int i, ex_int i, ex_vec v, ex_null, ex_null]"

definition ex_db :: "unit vec0_db" where
  "ex_db = (case ex_step (ex_insert 7 [3, 255]) ex_empty of Inr (p, db, r) \<Rightarrow> db | Inl _ \<Rightarrow> ex_empty)"

definition ex_db2 :: "unit vec0_db" where
  "ex_db2 = (case ex_step (ex_insert 9 [5, 1]) ex_db of Inr (p, db, r) \<Rightarrow> db | Inl _ \<Rightarrow> ex_empty)"

text \<open>A step of the example, as a statement that evaluates: the state is not compared.\<close>

lemma ex_step_Inr:
  "(case ex_step argv db of Inl _ \<Rightarrow> False | Inr (p', db', r') \<Rightarrow> p' = ex_table \<and> r' = r) \<Longrightarrow>
   ex_step argv db = Inr (ex_table, (case ex_step argv db of Inr (p, db, r) \<Rightarrow> db | Inl _ \<Rightarrow> ex_empty), r)"
  by (cases "ex_step argv db") auto

end
