(* ===== verification/UpdateFacts.thy ===== *)
theory UpdateFacts
  imports Rows Example
begin

text \<open>
  What INSERT, DELETE and UPDATE do to the rows of a table, and that every \<open>xUpdate\<close> keeps the
  invariant \<open>db_ok\<close>.
\<close>

section \<open>Deleting\<close>

definition row_of :: "vec0_vtab \<Rightarrow> faults \<Rightarrow> 'g vec0_db \<Rightarrow> sqlite3_value \<Rightarrow> int result" where
  "row_of p F db idValue = (if pkIsText p then vec0_rowid_from_id F db idValue else Inr (value_int64 idValue))"

lemma rows_ok_core: "core db' = core db \<Longrightarrow> rows_ok n pend (core db) \<Longrightarrow> rows_ok n pend (core db')"
  by simp

lemma rows_ok_forget:
  assumes "rows_ok n UNIV (cs, nc, rs, nr)"
  shows "rows_ok n UNIV (cs, nc, tbl_del rs r, nr)"
proof -
  have P: "positions_ok n UNIV cs rs" using assms by (simp add: rows_ok_def)
  note P = positions_okD [OF P]
  have "positions_ok n UNIV cs (tbl_del rs r)"
  proof (rule positions_okI)
    show "8 dvd n" "tbl_ok cs" "tbl_ok (tbl_del rs r)" using P(1-3) by (simp_all add: tb.ok_del)
    show "\<exists>row. tbl_get (tbl_del rs r) (i64_at (ck_rowids ch) q) = Some row \<and> rr_pos row = Some (c, int q)"
      if "tbl_get cs c = Some ch" "q < n" "bit_at (ck_validity ch) q" for c ch q
      using P(5) [OF that] P(7) by fastforce
  qed (use P in \<open>auto simp: tb.get_del split: if_splits\<close>)
  then show ?thesis using assms by (auto simp: rows_ok_def tb.get_del)
qed

lemma delete_rows:
  assumes "vec0Update_Delete p F api idValue db = Inr db'" and "db_ok p db"
  obtains r where "row_of p F db idValue = Inr r" and "db_ok p db'"
    and "tbl_get (t_rowids db') r = None" and "\<And>k. k \<noteq> r \<Longrightarrow> tbl_get (t_rowids db') k = tbl_get (t_rowids db) k"
    and "vec0_all_columns_diskann p \<or> tbl_get (t_rowids db) r \<noteq> None"
proof (cases "vec0_all_columns_diskann p")
  case True
  obtain r db1 db2 where r: "row_of p F db idValue = Inr r" and 1: "diskann_columns_delete p api r db = Inr db1"
    and 2: "db2 = db1\<lparr>t_rowids := tbl_del (t_rowids db1) r\<rparr>"
    and 3: "(if 0 < length (auxiliary_columns p) then vec0Update_Delete_DeleteAux F r db2 else Inr db2) = Inr db'"
    using assms(1) True by (auto simp: vec0Update_Delete_def rbind_Inr row_of_def vec0Update_Delete_DeleteRowids_def)
  have "core db' = core db2" using 3 delete_aux_core [of F r db2 db'] by (auto split: if_splits)
  moreover have "core db1 = core db" using diskann_delete_core [OF 1] .
  ultimately have c: "core db' = (t_chunks db, seq_chunks db, tbl_del (t_rowids db) r, seq_rowids db)"
    by (simp add: core_def 2)
  then have "db_ok p db'" using assms(2) True rows_ok_forget by (simp add: db_ok_def core_def)
  moreover have "t_rowids db' = tbl_del (t_rowids db) r" using c by (simp add: core_def)
  ultimately show thesis using r True that by (simp add: tb.get_del)
next
  case False
  obtain r db0 idv c off db1 db2 db3 db4 db5 db6 db7 b where r: "row_of p F db idValue = Inr r"
    and 0: "diskann_columns_delete p api r db = Inr db0"
    and pos: "vec0_get_chunk_position F db0 r = Inr (idv, c, off)"
    and 1: "vec0Update_Delete_ClearValidity F c off db0 = Inr db1" "vec0Update_Delete_ClearRowid F c off db1 = Inr db2"
    and 2: "vec0Update_Delete_ClearVectors p F c off db2 = Inr db3" "rescore_on_delete p F c off r db3 = Inr db4"
    and 3: "db5 = db4\<lparr>t_rowids := tbl_del (t_rowids db4) r\<rparr>"
    and 4: "(if 0 < length (auxiliary_columns p) then vec0Update_Delete_DeleteAux F r db5 else Inr db5) = Inr db6"
    and 5: "fold_result (\<lambda>i db. vec0Update_Delete_ClearMetadata p F i r c off db) [0..<length (metadata_columns p)] db6 = Inr db7"
    and 6: "vec0Update_Delete_DeleteChunkIfEmpty p F c db7 = Inr (db', b)"
    using assms(1) False
    by (auto simp: vec0Update_Delete_def rbind_Inr row_of_def vec0Update_Delete_DeleteRowids_def)
  have ok0: "rows_ok (chunk_size p) {} (core db0)" "t_rowids db0 = t_rowids db"
    using diskann_delete_core [OF 0] assms(2) False coreD [OF diskann_delete_core [OF 0]] by (simp_all add: db_ok_def)
  then have P: "positions_ok (chunk_size p) {} (t_chunks db0) (t_rowids db0)" by (simp add: rows_ok_def core_def)
  obtain row where row: "tbl_get (t_rowids db0) r = Some row"
    using pos by (auto simp: vec0_get_chunk_position_def split: option.splits)
  then have "rr_pos row \<noteq> None" using positions_okD(8) [OF P row] by (auto simp: placed_def)
  then have "rr_pos row = Some (c, off)" using pos row by (auto simp: vec0_get_chunk_position_def split: option.splits)
  note E = empty_position_ok [OF ok0(1) row this 1]
  have c4: "core db4 = core db2" using clear_vectors_core [OF 2(1)] rescore_on_delete_core [OF 2(2)] by simp
  have c6: "core db6 = core db5" using 4 delete_aux_core [of F r db5 db6] by (auto split: if_splits)
  have c7: "core db7 = core db6" using 5 by (rule fold_core) (rule clear_metadata_core)
  have c: "core db7 = (t_chunks db2, seq_chunks db2, tbl_del (t_rowids db2) r, seq_rowids db2)"
    using c7 c6 coreD [OF c4] by (simp add: core_def 3)
  have ok7: "rows_ok (chunk_size p) {} (core db7)" unfolding c using E by blast
  note D = delete_chunk_if_empty_ok [OF 6 ok7]
  moreover have "t_rowids db7 = tbl_del (t_rowids db) r" using c E ok0(2) by (simp add: core_def)
  ultimately have D: "rows_ok (chunk_size p) {} (core db')" "t_rowids db' = tbl_del (t_rowids db) r" by simp_all
  show thesis
    using that [OF r] D row ok0(2) False by (simp add: db_ok_def tb.get_del)
qed

section \<open>Inserting\<close>

lemma replace_existing_ok:
  assumes "replace_existing p F api v db = Inr db'" and "db_ok p db"
  shows "db_ok p db'"
proof (cases "db' = db")
  case False
  then have "vec0Update_Delete p F api v db = Inr db'"
    using assms(1) unfolding replace_existing_def rbind_Inr by (auto split: if_splits sum.splits)
  then show ?thesis using assms(2) by (rule delete_rows)
qed (use assms(2) in simp)

text \<open>The steps of an insertion, with the state after each; \<open>db0\<close> is the state after the row with the same
  key was deleted.\<close>

lemma insert_steps:
  assumes "vec0Update_Insert p F api mem junk null replace argv db = Inr (db', r)"
  obtains vals vs db0 db1 db2 c off db3 db4 db5 where "read_partition_values p null argv = Inr vals"
    and "read_vectors p mem argv = Inr vs"
    and "(if replace then replace_existing p F api (argv ! 2) db else Inr db) = Inr db0"
    and "vec0Update_InsertRowidStep p F (argv ! 2) db0 = Inr (db1, r)"
    and "(if vec0_all_columns_diskann p then Inr (db1, junk)
          else rbind (vec0Update_InsertNextAvailableStep p F vals db1)
                 (\<lambda>(db, chunk_rowid, chunk_offset, bufferChunksValidity).
               rbind (vec0Update_InsertWriteFinalStep p F chunk_rowid chunk_offset r vs
                        bufferChunksValidity db)
                 (\<lambda>db. Inr (db, chunk_rowid, chunk_offset)))) = Inr (db2, c, off)"
    and "diskann_columns_insert p api r vs db2 = Inr db3" and "rescore_on_insert p F c off r vs db3 = Inr db4"
    and "insert_auxiliary p F null argv r db4 = Inr db5" and "insert_metadata p F argv r c off db5 = Inr db'"
  using assms that unfolding vec0Update_Insert_def rbind_Inr case_Inr by (auto simp: rbind_Inr case_Inr)

lemma insert_rows:
  assumes "vec0Update_Insert p F api mem junk null replace argv db = Inr (db', r)" and "db_ok p db"
    and "is_i64 (value_int64 (argv ! 2))" and "0 < chunk_size p"
  obtains db0 where "(if replace then replace_existing p F api (argv ! 2) db else Inr db) = Inr db0" and "db_ok p db0"
    and "db_ok p db'" and "tbl_get (t_rowids db0) r = None" and "tbl_get (t_rowids db') r \<noteq> None"
    and "\<And>k. k \<noteq> r \<Longrightarrow> tbl_get (t_rowids db') k = tbl_get (t_rowids db0) k"
proof -
  let ?pend = "if vec0_all_columns_diskann p then UNIV else {}"
  obtain vals vs db0 db1 db2 c off db3 db4 db5 where
    0: "(if replace then replace_existing p F api (argv ! 2) db else Inr db) = Inr db0"
    and 1: "vec0Update_InsertRowidStep p F (argv ! 2) db0 = Inr (db1, r)"
    and 2: "(if vec0_all_columns_diskann p then Inr (db1, junk)
            else rbind (vec0Update_InsertNextAvailableStep p F vals db1)
                   (\<lambda>(db, chunk_rowid, chunk_offset, bufferChunksValidity).
                 rbind (vec0Update_InsertWriteFinalStep p F chunk_rowid chunk_offset r vs
                          bufferChunksValidity db)
                   (\<lambda>db. Inr (db, chunk_rowid, chunk_offset)))) = Inr (db2, c, off)"
    and 3: "diskann_columns_insert p api r vs db2 = Inr db3" "rescore_on_insert p F c off r vs db3 = Inr db4"
      "insert_auxiliary p F null argv r db4 = Inr db5" "insert_metadata p F argv r c off db5 = Inr db'"
    by (rule insert_steps [OF assms(1)]) blast
  have ok0: "db_ok p db0" using 0 assms(2) replace_existing_ok by (auto split: if_splits)
  then have ok0': "rows_ok (chunk_size p) ?pend (core db0)" by (simp add: db_ok_def)
  note S = insert_rowid_step_ok [OF 1 ok0' assms(3)]
  then obtain row where row: "t_rowids db1 = tbl_put (t_rowids db0) r row" "tbl_get (t_rowids db0) r = None" by blast
  have "tbl_ok (t_rowids db0)" using ok0' by (auto simp: rows_ok_def core_def positions_okD(3))
  note g1 = tb.get_put [OF this]
  have c': "core db' = core db2"
    using diskann_insert_core [OF 3(1)] rescore_on_insert_core [OF 3(2)] insert_auxiliary_core [OF 3(3)]
      insert_metadata_core [OF 3(4)] by simp
  have "rows_ok (chunk_size p) ?pend (core db2) \<and> tbl_get (t_rowids db2) r \<noteq> None
      \<and> (\<forall>k. k \<noteq> r \<longrightarrow> tbl_get (t_rowids db2) k = tbl_get (t_rowids db0) k)"
  proof (cases "vec0_all_columns_diskann p")
    case True
    then have "db2 = db1" using 2 by simp
    then show ?thesis using S True row g1 by simp
  next
    case False
    obtain db1' v where n: "vec0Update_InsertNextAvailableStep p F vals db1 = Inr (db1', c, off, v)"
      and w: "vec0Update_InsertWriteFinalStep p F c off r vs v db1' = Inr db2"
      using 2 False by (auto simp: rbind_Inr)
    have "rows_ok (chunk_size p) {r} (core db1)" using S False by simp
    note N = next_available_ok [OF n this refl assms(4)]
    have "tbl_get (t_rowids db1') r \<noteq> None" using N row g1 by simp
    from write_final_ok [OF w, of "chunk_size p"] this N
    have W: "rows_ok (chunk_size p) {} (core db2)" "tbl_get (t_rowids db2) r \<noteq> None"
      "\<forall>k. k \<noteq> r \<longrightarrow> tbl_get (t_rowids db2) k = tbl_get (t_rowids db1') k" by auto
    then show ?thesis using N False row g1 by simp
  qed
  with c' have "rows_ok (chunk_size p) ?pend (core db') \<and> tbl_get (t_rowids db') r \<noteq> None
      \<and> (\<forall>k. k \<noteq> r \<longrightarrow> tbl_get (t_rowids db') k = tbl_get (t_rowids db0) k)"
    using coreD [OF c'] by simp
  then show thesis using that [OF 0 ok0] row(2) by (simp add: db_ok_def)
qed

section \<open>Every \<open>xUpdate\<close>\<close>

lemma update_error:
  assumes "\<not> (length argv = 1 \<and> value_type (argv ! 0) \<noteq> SQLITE_NULL)" and "\<not> 1 < length argv"
  shows "vec0Update p F api mem junk null replace nochange diskann_command argv db = Inl SQLITE_ERROR"
  using assms by (cases "length argv = 1") (simp_all add: vec0Update_def)

lemma update_delete:
  assumes "length argv = 1" and "value_type (argv ! 0) \<noteq> SQLITE_NULL"
  shows "vec0Update p F api mem junk null replace nochange diskann_command argv db
    = rbind (vec0Update_Delete p F api (argv ! 0) db) (\<lambda>db. Inr (p, db, None))"
  using assms by (simp add: vec0Update_def)

definition command_argument :: "vec0_vtab \<Rightarrow> sqlite3_value list \<Rightarrow> string option" where
  "command_argument p argv =
     (let v = argv ! (2 + vec0_column_command_idx p)
      in if hasCommandColumn p \<and> value_type v = SQLITE_TEXT then Some (value_text v) else None)"

lemma update_command:
  assumes "1 < length argv" and "value_type (argv ! 0) = SQLITE_NULL" and "command_argument p argv = Some cmd"
    and "vec0Update p F api mem junk null replace nochange diskann_command argv db = Inr (p', db', pRowid)"
  shows "db' = db \<and> (rescore_handle_command p cmd = Inr p' \<or> diskann_command p cmd = Inr p')"
proof -
  define v where "v = argv ! (2 + vec0_column_command_idx p)"
  note u = assms(4) [unfolded vec0Update_def Let_def, folded v_def]
  have c: "value_text v = cmd" "hasCommandColumn p" "value_type v = SQLITE_TEXT"
    using assms(3) [unfolded command_argument_def Let_def, folded v_def] by (simp_all split: if_splits)
  have "(case rescore_handle_command p (value_text v) of
        Inr q \<Rightarrow> Inr (q, db, None)
      | Inl rc \<Rightarrow> if rc \<noteq> SQLITE_EMPTY then Inl rc
          else (case diskann_command p (value_text v) of
                  Inr q \<Rightarrow> Inr (q, db, None)
                | Inl rc \<Rightarrow> Inl (if rc = SQLITE_EMPTY then SQLITE_ERROR else rc))) = Inr (p', db', pRowid)"
    using u assms(1,2) c(2,3) by simp
  then show ?thesis unfolding c(1)
    by (cases "rescore_handle_command p cmd"; cases "diskann_command p cmd") (simp_all split: if_splits)
qed

lemma update_insert:
  assumes "1 < length argv" and "value_type (argv ! 0) = SQLITE_NULL" and "command_argument p argv = None"
  shows "vec0Update p F api mem junk null replace nochange diskann_command argv db
    = rbind (vec0Update_Insert p F api mem junk null replace argv db) (\<lambda>(db, rowid). Inr (p, db, Some rowid))"
proof -
  define v where "v = argv ! (2 + vec0_column_command_idx p)"
  have n: "\<not> (hasCommandColumn p \<and> value_type v = SQLITE_TEXT)"
    using assms(3) [unfolded command_argument_def Let_def, folded v_def] by (simp split: if_splits)
  show ?thesis unfolding vec0Update_def Let_def v_def [symmetric] if_not_P [OF n] using assms(1,2) by simp
qed

lemma update_update:
  assumes "1 < length argv" and "value_type (argv ! 0) \<noteq> SQLITE_NULL"
  shows "vec0Update p F api mem junk null replace nochange diskann_command argv db
    = rbind (vec0Update_Update p F mem nochange argv db) (\<lambda>db. Inr (p, db, None))"
  using assms by (simp add: vec0Update_def)

lemma rescore_command_shape:
  assumes "rescore_handle_command p c = Inr q"
  shows "chunk_size q = chunk_size p \<and> vec0_all_columns_diskann q = vec0_all_columns_diskann p"
proof -
  define f :: "VectorColumnDefinition \<Rightarrow> VectorColumnDefinition" where "f = (\<lambda>c'. if vc_index_type c' = VEC0_INDEX_TYPE_RESCORE
      then c'\<lparr>vc_rescore := (vc_rescore c')\<lparr>rs_oversample_search := atoi (drop 11 c)\<rparr>\<rparr> else c')"
  have "q = p\<lparr>vector_columns := map f (vector_columns p)\<rparr>"
    using assms by (simp add: rescore_handle_command_def Let_def f_def split: if_splits)
  moreover have "vc_index_type (f c') = vc_index_type c'" for c' by (simp add: f_def)
  ultimately show ?thesis by (simp add: vec0_all_columns_diskann_def)
qed

lemma update_db_ok:
  assumes "vec0Update p F api mem junk null replace nochange diskann_command argv db = Inr (p', db', pRowid)"
    and "db_ok p db" and "0 < chunk_size p" and "is_i64 (value_int64 (argv ! 2))"
    and "\<And>c q. diskann_command p c = Inr q \<Longrightarrow>
      chunk_size q = chunk_size p \<and> vec0_all_columns_diskann q = vec0_all_columns_diskann p"
  shows "db_ok p' db'"
proof (cases "length argv = 1 \<and> value_type (argv ! 0) \<noteq> SQLITE_NULL")
  case True
  then have "p' = p" "vec0Update_Delete p F api (argv ! 0) db = Inr db'"
    using assms(1) by (auto simp: update_delete rbind_Inr)
  then show ?thesis using delete_rows assms(2) by blast
next
  case False
  have len: "1 < length argv"
  proof (rule ccontr)
    assume "\<not> 1 < length argv"
    with False show False using assms(1) update_error [of argv p F api mem junk null replace nochange diskann_command db] by simp
  qed
  show ?thesis
  proof (cases "value_type (argv ! 0) = SQLITE_NULL")
    case null: True
    show ?thesis
    proof (cases "command_argument p argv")
      case (Some cmd)
      note c = update_command [OF len null this assms(1)]
      then have "chunk_size p' = chunk_size p \<and> vec0_all_columns_diskann p' = vec0_all_columns_diskann p"
        using rescore_command_shape [of p cmd p'] assms(5) [of cmd p'] by argo
      then show ?thesis using c assms(2) by (simp add: db_ok_def)
    next
      case None
      from assms(1) obtain r where "p' = p" "vec0Update_Insert p F api mem junk null replace argv db = Inr (db', r)"
        unfolding update_insert [OF len null None] by (auto simp: rbind_Inr)
      then show ?thesis using insert_rows [OF _ assms(2,4,3)] by blast
    qed
  next
    case False
    from assms(1) have c: "p' = p" "vec0Update_Update p F mem nochange argv db = Inr db'"
      unfolding update_update [OF len False] by (auto simp: rbind_Inr)
    show ?thesis using update_core [OF c(2)] c(1) assms(2) by (simp add: db_ok_def)
  qed
qed

lemma ex_empty_ok: "db_ok ex_table ex_empty"
  by (simp add: db_ok_def rows_ok_def core_def ex_empty_def ex_table_def ex_column_def positions_ok_def
      tbl_get_def vec0_all_columns_diskann_def)

lemma ex_insert_step: "ex_step (ex_insert 7 [3, 255]) ex_empty = Inr (ex_table, ex_db, Some 7)"
  unfolding ex_db_def by (rule ex_step_Inr) code_simp

lemma ex_step_ok: "ex_step argv db = Inr (p', db', r) \<Longrightarrow> db_ok ex_table db \<Longrightarrow> is_i64 (value_int64 (argv ! 2)) \<Longrightarrow> db_ok p' db'"
  unfolding ex_step_def by (erule update_db_ok) (simp_all add: ex_table_def)

lemma ex_insert_ok [simp]: "is_i64 (value_int64 (ex_insert 7 v ! 2))" "is_i64 (value_int64 (ex_insert 9 v ! 2))"
  by (simp_all add: ex_insert_def ex_int_def is_i64_def)

lemma ex_db_ok: "db_ok ex_table ex_db"
  using ex_step_ok [OF ex_insert_step ex_empty_ok] by simp



text \<open>C5. A DELETE that succeeds removes the row it names and no other.\<close>

theorem delete_removes_row:
  assumes "vec0Update_Delete p F api idValue db = Inr db'" and "db_ok p db"
  shows "\<exists>r. row_of p F db idValue = Inr r
    \<and> (vec0_all_columns_diskann p \<or> tbl_get (t_rowids db) r \<noteq> None)
    \<and> tbl_get (t_rowids db') r = None \<and> (\<forall>k. k \<noteq> r \<longrightarrow> tbl_get (t_rowids db') k = tbl_get (t_rowids db) k)"
  using delete_rows [OF assms] by metis

lemma ex_delete_step: "\<not> isl (vec0Update_Delete ex_table no_faults ex_api (ex_int 7) ex_db)"
  by code_simp

theorem delete_removes_row_witness:
  "\<exists>r. row_of ex_table no_faults ex_db (ex_int 7) = Inr r
    \<and> tbl_get (t_rowids (projr (vec0Update_Delete ex_table no_faults ex_api (ex_int 7) ex_db))) r = None"
proof -
  obtain db' where d: "vec0Update_Delete ex_table no_faults ex_api (ex_int 7) ex_db = Inr db'"
    using ex_delete_step by (metis isl_def sum.exhaust_sel)
  from delete_removes_row [OF d ex_db_ok] d show ?thesis by auto
qed

text \<open>C4. An INSERT that succeeds adds one row, with a rowid that was free (after the row it replaces
  was deleted, if it does), and leaves the other rows as they are.\<close>

theorem insert_adds_row:
  assumes "vec0Update_Insert p F api mem junk null replace argv db = Inr (db', r)" and "db_ok p db"
    and "is_i64 (value_int64 (argv ! 2))" and "0 < chunk_size p"
  shows "\<exists>db0. (if replace then replace_existing p F api (argv ! 2) db else Inr db) = Inr db0
    \<and> tbl_get (t_rowids db0) r = None \<and> tbl_get (t_rowids db') r \<noteq> None
    \<and> (\<forall>k. k \<noteq> r \<longrightarrow> tbl_get (t_rowids db') k = tbl_get (t_rowids db0) k)"
  using insert_rows [OF assms] by metis

lemma ex_insert_row:
  "(case vec0Update_Insert ex_table no_faults ex_api (\<lambda>_ _ _. True) (0, 0) ex_null False (ex_insert 9 [5, 1]) ex_db of
      Inl _ \<Rightarrow> False | Inr (db', r) \<Rightarrow> r = 9)"
  by code_simp

theorem insert_adds_row_witness:
  "\<exists>db'. vec0Update_Insert ex_table no_faults ex_api (\<lambda>_ _ _. True) (0, 0) ex_null False (ex_insert 9 [5, 1]) ex_db
      = Inr (db', 9) \<and> tbl_get (t_rowids ex_db) 9 = None \<and> tbl_get (t_rowids db') 9 \<noteq> None
      \<and> tbl_get (t_rowids db') 7 = tbl_get (t_rowids ex_db) 7"
proof -
  obtain db' where i: "vec0Update_Insert ex_table no_faults ex_api (\<lambda>_ _ _. True) (0, 0) ex_null False (ex_insert 9 [5, 1]) ex_db
      = Inr (db', 9)"
    using ex_insert_row by (auto split: sum.splits)
  from insert_adds_row [OF i ex_db_ok] show ?thesis using i by (simp add: ex_table_def)
qed

end
