(* ===== verification/Diskann.thy ===== *)
theory Diskann
  imports Tables VectorColumn
begin

text \<open>
  The data structures of the DiskANN index (\<open>sqlite-vec-diskann.c\<close>): the blobs of a graph node, the
  quantizers and their distances, the sorted candidate list and the hash set of the beam search, and
  the selection of neighbours from a distance matrix.
\<close>

section \<open>Node blobs\<close>

text \<open>A node has three blobs with a slot per neighbour: a validity bit, a rowid, a quantized vector.\<close>

record diskann_node =
  dn_validity :: bytes
  dn_ids :: bytes
  dn_qvecs :: bytes

definition diskann_validity_byte_size :: "nat \<Rightarrow> nat" where
  "diskann_validity_byte_size n_neighbors = n_neighbors div 8"

definition diskann_neighbor_ids_byte_size :: "nat \<Rightarrow> nat" where
  "diskann_neighbor_ids_byte_size n_neighbors = n_neighbors * 8"

definition diskann_neighbor_qvecs_byte_size :: "nat \<Rightarrow> Vec0DiskannQuantizerType \<Rightarrow> nat \<Rightarrow> nat" where
  "diskann_neighbor_qvecs_byte_size n_neighbors quantizer_type dimensions =
     n_neighbors * diskann_quantized_vector_byte_size quantizer_type dimensions"

text \<open>\<open>sqlite3_malloc(0)\<close> is NULL too; \<open>F\<close> says whether the allocations fail.\<close>

definition diskann_node_init :: "faults \<Rightarrow> nat \<Rightarrow> Vec0DiskannQuantizerType \<Rightarrow> nat \<Rightarrow> diskann_node result" where
  "diskann_node_init F n_neighbors quantizer_type dimensions =
    (let validitySize = diskann_validity_byte_size n_neighbors;
         idsSize = diskann_neighbor_ids_byte_size n_neighbors;
         qvecsSize = diskann_neighbor_qvecs_byte_size n_neighbors quantizer_type dimensions
     in if validitySize = 0 \<or> idsSize = 0 \<or> qvecsSize = 0 \<or> F ''diskann node init'' 0 \<noteq> None then Inl SQLITE_NOMEM
        else Inr \<lparr>dn_validity = replicate validitySize 0, dn_ids = replicate idsSize 0,
                  dn_qvecs = replicate qvecsSize 0\<rparr>)"

text \<open>\<open>memcpy\<close> and \<open>memset\<close> into a buffer that is long enough.\<close>

definition copy_at :: "bytes \<Rightarrow> nat \<Rightarrow> bytes \<Rightarrow> bytes" where
  "copy_at buf offset data = take offset buf @ data @ drop (offset + length data) buf"

definition diskann_validity_get :: "bytes \<Rightarrow> nat \<Rightarrow> bool" where
  "diskann_validity_get validity i \<longleftrightarrow> drop_bit (i mod 8) (validity ! (i div 8)) AND 1 \<noteq> 0"

definition diskann_validity_set :: "bytes \<Rightarrow> nat \<Rightarrow> bool \<Rightarrow> bytes" where
  "diskann_validity_set validity i value =
     (if value then validity[i div 8 := validity ! (i div 8) OR push_bit (i mod 8) 1]
      else validity[i div 8 := validity ! (i div 8) AND NOT (push_bit (i mod 8) 1)])"

definition diskann_validity_count :: "bytes \<Rightarrow> nat \<Rightarrow> nat" where
  "diskann_validity_count validity n_neighbors =
     fold (\<lambda>i count. count + (if diskann_validity_get validity i then 1 else 0)) [0..<n_neighbors] 0"

definition diskann_neighbor_id_get :: "bytes \<Rightarrow> nat \<Rightarrow> int" where
  "diskann_neighbor_id_get neighbor_ids i = i64_of_bytes (take 8 (drop (i * 8) neighbor_ids))"

definition diskann_neighbor_id_set :: "bytes \<Rightarrow> nat \<Rightarrow> int \<Rightarrow> bytes" where
  "diskann_neighbor_id_set neighbor_ids i rowid = copy_at neighbor_ids (i * 8) (i64_bytes rowid)"

definition diskann_neighbor_qvec_get :: "bytes \<Rightarrow> nat \<Rightarrow> Vec0DiskannQuantizerType \<Rightarrow> nat \<Rightarrow> bytes" where
  "diskann_neighbor_qvec_get qvecs i quantizer_type dimensions =
     drop (i * diskann_quantized_vector_byte_size quantizer_type dimensions) qvecs"

definition diskann_neighbor_qvec_set ::
  "bytes \<Rightarrow> nat \<Rightarrow> bytes \<Rightarrow> Vec0DiskannQuantizerType \<Rightarrow> nat \<Rightarrow> bytes"
where
  "diskann_neighbor_qvec_set qvecs i src_qvec quantizer_type dimensions =
    (let qvec_size = diskann_quantized_vector_byte_size quantizer_type dimensions
     in copy_at qvecs (i * qvec_size) (take qvec_size src_qvec))"

definition diskann_node_set_neighbor ::
  "diskann_node \<Rightarrow> nat \<Rightarrow> int \<Rightarrow> bytes \<Rightarrow> Vec0DiskannQuantizerType \<Rightarrow> nat \<Rightarrow> diskann_node"
where
  "diskann_node_set_neighbor node i neighbor_rowid neighbor_qvec quantizer_type dimensions =
     node\<lparr>dn_validity := diskann_validity_set (dn_validity node) i True,
          dn_ids := diskann_neighbor_id_set (dn_ids node) i neighbor_rowid,
          dn_qvecs := diskann_neighbor_qvec_set (dn_qvecs node) i neighbor_qvec quantizer_type dimensions\<rparr>"

definition diskann_node_clear_neighbor ::
  "diskann_node \<Rightarrow> nat \<Rightarrow> Vec0DiskannQuantizerType \<Rightarrow> nat \<Rightarrow> diskann_node"
where
  "diskann_node_clear_neighbor node i quantizer_type dimensions =
    (let qvec_size = diskann_quantized_vector_byte_size quantizer_type dimensions
     in node\<lparr>dn_validity := diskann_validity_set (dn_validity node) i False,
             dn_ids := diskann_neighbor_id_set (dn_ids node) i 0,
             dn_qvecs := copy_at (dn_qvecs node) (i * qvec_size) (replicate qvec_size 0)\<rparr>)"

section \<open>Quantization\<close>

text \<open>
  The \<open>int8\<close> quantizer converts without clamping: outside the range of a signed byte the conversion
  is undefined in C, and \<open>cast\<close> stands for what it gives there.
\<close>

definition i8_of_f32 :: "(f32 \<Rightarrow> u8) \<Rightarrow> f32 \<Rightarrow> u8" where
  "i8_of_f32 cast x =
     (if fp_lt (fp_of_int binary32 (- 129)) x \<and> fp_lt x (fp_of_int binary32 128) then of_int (fp_trunc x) else cast x)"

definition diskann_quantize_vector :: "(f32 \<Rightarrow> u8) \<Rightarrow> bytes \<Rightarrow> nat \<Rightarrow> Vec0DiskannQuantizerType \<Rightarrow> bytes \<Rightarrow> bytes" where
  "diskann_quantize_vector cast src dimensions quantizer_type out = (case quantizer_type of
     VEC0_DISKANN_QUANTIZER_BINARY \<Rightarrow>
       fold (\<lambda>i out. if fp_lt fp0 (f32_at src i)
                     then out[i div 8 := out ! (i div 8) OR push_bit (i mod 8) 1] else out)
         [0..<dimensions] (replicate (dimensions div 8) 0)
   | VEC0_DISKANN_QUANTIZER_INT8 \<Rightarrow>
       (let step = fp_div binary32 (f32_sub (fp_of_int binary32 1) (fp_of_int binary32 (- 1))) (fp_of_int binary32 255)
        in map (\<lambda>i. i8_of_f32 cast (f32_sub (fp_div binary32 (f32_sub (f32_at src i) (fp_of_int binary32 (- 1))) step)
                                      (fp_of_int binary32 128))) [0..<dimensions])
   | VEC0_DISKANN_QUANTIZER_UNSET \<Rightarrow> out)"

definition FLT_MAX :: f32 where
  "FLT_MAX = FFin False (2 ^ 24 - 1) 104"

definition diskann_distance_quantized_precomputed ::
  "bytes \<Rightarrow> bytes \<Rightarrow> nat \<Rightarrow> Vec0DiskannQuantizerType \<Rightarrow> Vec0DistanceMetrics \<Rightarrow> f32"
where
  "diskann_distance_quantized_precomputed query_quantized quantized_neighbor dimensions quantizer_type distance_metric =
    (case quantizer_type of
       VEC0_DISKANN_QUANTIZER_BINARY \<Rightarrow> distance_hamming query_quantized quantized_neighbor dimensions
     | VEC0_DISKANN_QUANTIZER_INT8 \<Rightarrow>
         (case distance_metric of
            VEC0_DISTANCE_METRIC_L2 \<Rightarrow> distance_l2_sqr_int8 query_quantized quantized_neighbor dimensions
          | VEC0_DISTANCE_METRIC_COSINE \<Rightarrow> distance_cosine_int8 query_quantized quantized_neighbor dimensions
          | VEC0_DISTANCE_METRIC_L1 \<Rightarrow>
              fp_of_int binary32 (sint (distance_l1_int8 query_quantized quantized_neighbor dimensions)))
     | VEC0_DISKANN_QUANTIZER_UNSET \<Rightarrow> FLT_MAX)"

definition diskann_quantize_query ::
  "faults \<Rightarrow> (f32 \<Rightarrow> u8) \<Rightarrow> bytes \<Rightarrow> nat \<Rightarrow> Vec0DiskannQuantizerType \<Rightarrow> bytes option"
where
  "diskann_quantize_query F cast query_vector dimensions quantizer_type =
    (let qsize = diskann_quantized_vector_byte_size quantizer_type dimensions
     in if qsize = 0 \<or> F ''diskann quantize query'' 0 \<noteq> None then None
        else Some (diskann_quantize_vector cast query_vector dimensions quantizer_type []))"

definition diskann_distance_quantized ::
  "faults \<Rightarrow> (f32 \<Rightarrow> u8) \<Rightarrow> bytes \<Rightarrow> bytes \<Rightarrow> nat \<Rightarrow> Vec0DiskannQuantizerType \<Rightarrow> Vec0DistanceMetrics \<Rightarrow> f32"
where
  "diskann_distance_quantized F cast query_vector quantized_neighbor dimensions quantizer_type distance_metric =
    (case diskann_quantize_query F cast query_vector dimensions quantizer_type of
       None \<Rightarrow> FLT_MAX
     | Some query_q \<Rightarrow>
         diskann_distance_quantized_precomputed query_q quantized_neighbor dimensions quantizer_type distance_metric)"

section \<open>The candidate list\<close>

record Vec0DiskannCandidate =
  cd_rowid :: int
  cd_distance :: f32
  cd_visited :: bool
  cd_confirmed :: bool

text \<open>\<open>count\<close> is the length of \<open>cl_items\<close>.\<close>

record DiskannCandidateList =
  cl_items :: "Vec0DiskannCandidate list"
  cl_capacity :: nat

definition diskann_candidate_list_init :: "faults \<Rightarrow> nat \<Rightarrow> DiskannCandidateList result" where
  "diskann_candidate_list_init F capacity =
     (if int32_of (int (capacity * 24)) \<le> 0 \<or> F ''diskann candidates'' 0 \<noteq> None then Inl SQLITE_NOMEM
      else Inr \<lparr>cl_items = [], cl_capacity = capacity\<rparr>)"

text \<open>The loop that moves \<open>tmp\<close> towards the front, past the items that are farther; \<open>j\<close> is one more
  than in the code.\<close>

fun candidate_resort :: "Vec0DiskannCandidate list \<Rightarrow> nat \<Rightarrow> Vec0DiskannCandidate \<Rightarrow> Vec0DiskannCandidate list" where
  "candidate_resort items 0 tmp = items[0 := tmp]"
| "candidate_resort items (Suc j) tmp =
     (if fp_gt (cd_distance (items ! j)) (cd_distance tmp)
      then candidate_resort (items[Suc j := items ! j]) j tmp
      else items[Suc j := tmp])"

function candidate_search :: "Vec0DiskannCandidate list \<Rightarrow> f32 \<Rightarrow> nat \<Rightarrow> nat \<Rightarrow> nat" where
  "candidate_search items distance lo hi =
     (if lo < hi then
        let mid = (lo + hi) div 2
        in if fp_lt (cd_distance (items ! mid)) distance
           then candidate_search items distance (mid + 1) hi
           else candidate_search items distance lo mid
      else lo)"
  by pat_completeness auto
termination by (relation "measure (\<lambda>(items, distance, lo, hi). hi - lo)") auto

declare candidate_search.simps [simp del]

text \<open>The result is whether the candidate is in the list now.\<close>

definition diskann_candidate_list_insert :: "DiskannCandidateList \<Rightarrow> int \<Rightarrow> f32 \<Rightarrow> DiskannCandidateList \<times> bool" where
  "diskann_candidate_list_insert l rowid distance =
    (let items = cl_items l
     in case List.find (\<lambda>i. cd_rowid (items ! i) = rowid) [0..<length items] of
       Some i \<Rightarrow>
         (if fp_lt distance (cd_distance (items ! i)) then
            let tmp = (items ! i)\<lparr>cd_distance := distance\<rparr>
            in (l\<lparr>cl_items := candidate_resort (items[i := tmp]) i tmp\<rparr>, True)
          else (l, True))
     | None \<Rightarrow>
         if cl_capacity l \<le> length items \<and> fp_ge distance (cd_distance (items ! (length items - 1))) then (l, False)
         else
           let items = (if cl_capacity l \<le> length items then take (length items - 1) items else items);
               lo = candidate_search items distance 0 (length items)
           in (l\<lparr>cl_items := take lo items @
                   [\<lparr>cd_rowid = rowid, cd_distance = distance, cd_visited = False, cd_confirmed = False\<rparr>] @
                   drop lo items\<rparr>, True))"

definition diskann_candidate_list_next_unvisited :: "DiskannCandidateList \<Rightarrow> nat option" where
  "diskann_candidate_list_next_unvisited l =
     List.find (\<lambda>i. \<not> cd_visited (cl_items l ! i)) [0..<length (cl_items l)]"

section \<open>The visited set\<close>

text \<open>Open addressing with linear probing; a slot that holds 0 is empty.\<close>

record DiskannVisitedSet =
  vs_slots :: "int list"
  vs_count :: nat

text \<open>The smallest capacity of the form \<open>16 * 2 ^ i\<close> that is at least \<open>capacity\<close>; the code doubles an
  \<open>int\<close>, which overflows for more than \<open>2 ^ 30\<close>.\<close>

function visited_capacity :: "nat \<Rightarrow> nat \<Rightarrow> nat" where
  "visited_capacity cap capacity = (if cap < capacity \<and> 0 < cap then visited_capacity (cap * 2) capacity else cap)"
  by pat_completeness auto
termination by (relation "measure (\<lambda>(cap, capacity). capacity - cap)") auto

declare visited_capacity.simps [simp del]

definition diskann_visited_set_init :: "faults \<Rightarrow> nat \<Rightarrow> DiskannVisitedSet result" where
  "diskann_visited_set_init F capacity =
     (if F ''diskann visited'' 0 \<noteq> None then Inl SQLITE_NOMEM
      else Inr \<lparr>vs_slots = replicate (visited_capacity 16 capacity) 0, vs_count = 0\<rparr>)"

definition visited_index :: "DiskannVisitedSet \<Rightarrow> int \<Rightarrow> nat" where
  "visited_index s rowid =
     unat (drop_bit 32 ((of_int rowid :: u64) * 0x9E3779B97F4A7C15)) AND (length (vs_slots s) - 1)"

text \<open>For evaluation: natural numbers stay small.\<close>

lemma and_nat_int [code]: "(m::nat) AND n = nat (int m AND int n)" by (simp add: and_nat_def)
lemma visited_index_code [code]:
  "visited_index s rowid = nat ((rowid * 0x9E3779B97F4A7C15 mod 2 ^ 64) div 2 ^ 32 AND (int (length (vs_slots s) - 1)))"
proof -
  have "uint ((of_int rowid :: u64) * 0x9E3779B97F4A7C15) = rowid * 0x9E3779B97F4A7C15 mod 2 ^ 64"
    by (simp add: uint_word_ariths uint_word_of_int_eq take_bit_eq_mod mod_simps)
  moreover have "int (unat (drop_bit 32 w)) = uint w div 2 ^ 32" for w :: u64
  proof -
    have "take_bit 64 (uint w) = uint w" using uint_lt2p [of w] by (simp add: take_bit_int_eq_self)
    then have "uint (drop_bit 32 w) = drop_bit 32 (uint w)" by (simp only: unsigned_drop_bit_eq) simp
    then show ?thesis unfolding uint_nat drop_bit_eq_div [of 32 "int _"] .
  qed
  ultimately show ?thesis unfolding visited_index_def and_nat_def by (simp only: nat_int)
qed
text \<open>The probe loop from the \<open>i\<close>-th step on: the slot with \<open>rowid\<close> or the first empty one.\<close>

function visited_probe :: "int list \<Rightarrow> nat \<Rightarrow> int \<Rightarrow> nat \<Rightarrow> nat option" where
  "visited_probe slots idx rowid i =
     (if i < length slots then
        let slot = (idx + i) AND (length slots - 1)
        in if slots ! slot = 0 \<or> slots ! slot = rowid then Some slot
           else visited_probe slots idx rowid (Suc i)
      else None)"
  by pat_completeness auto
termination by (relation "measure (\<lambda>(slots, idx, rowid, i). length slots - i)") auto

declare visited_probe.simps [simp del]

definition diskann_visited_set_contains :: "DiskannVisitedSet \<Rightarrow> int \<Rightarrow> bool" where
  "diskann_visited_set_contains s rowid =
     (if rowid = 0 then False
      else case visited_probe (vs_slots s) (visited_index s rowid) rowid 0 of
             None \<Rightarrow> False
           | Some slot \<Rightarrow> vs_slots s ! slot \<noteq> 0)"

definition diskann_visited_set_insert :: "DiskannVisitedSet \<Rightarrow> int \<Rightarrow> DiskannVisitedSet \<times> bool" where
  "diskann_visited_set_insert s rowid =
     (if rowid = 0 then (s, False)
      else case visited_probe (vs_slots s) (visited_index s rowid) rowid 0 of
             None \<Rightarrow> (s, False)
           | Some slot \<Rightarrow>
               if vs_slots s ! slot = 0 then (s\<lparr>vs_slots := (vs_slots s)[slot := rowid], vs_count := vs_count s + 1\<rparr>, True)
               else (s, False))"

section \<open>Selecting neighbours from a distance matrix\<close>

text \<open>
  One round selects the first active candidate and deactivates those that it covers; \<open>left\<close> is the
  number of rounds left, \<open>cov b i\<close> says whether the selected \<open>b\<close> covers \<open>i\<close>.
\<close>

definition prune_cover :: "(nat \<Rightarrow> bool) \<Rightarrow> bool list \<Rightarrow> bool list" where
  "prune_cover cov active = map (\<lambda>i. active ! i \<and> \<not> cov i) [0..<length active]"

primrec prune_rounds :: "(nat \<Rightarrow> nat \<Rightarrow> bool) \<Rightarrow> nat \<Rightarrow> nat \<Rightarrow> bool list \<Rightarrow> nat list \<Rightarrow> nat list" where
  "prune_rounds cov max_neighbors 0 active sel = sel"
| "prune_rounds cov max_neighbors (Suc left) active sel =
     (if length sel < max_neighbors then
        (case List.find (\<lambda>i. active ! i) [0..<length active] of
           None \<Rightarrow> sel
         | Some bestIdx \<Rightarrow>
             prune_rounds cov max_neighbors left
               (prune_cover (cov bestIdx) (active[bestIdx := False])) (sel @ [bestIdx]))
      else sel)"

definition alpha_covers :: "f32 list \<Rightarrow> f32 list \<Rightarrow> nat \<Rightarrow> f32 \<Rightarrow> nat \<Rightarrow> nat \<Rightarrow> bool" where
  "alpha_covers inter_distances p_distances num_candidates alpha b i \<longleftrightarrow>
     fp_le (f32_mul alpha (inter_distances ! (b * num_candidates + i))) (p_distances ! i)"

text \<open>\<open>outSelected\<close>, and the number of selected candidates.\<close>

definition diskann_prune_select ::
  "faults \<Rightarrow> f32 list \<Rightarrow> f32 list \<Rightarrow> nat \<Rightarrow> f32 \<Rightarrow> nat \<Rightarrow> (bool list \<times> nat) result"
where
  "diskann_prune_select F inter_distances p_distances num_candidates alpha max_neighbors =
     (if num_candidates = 0 then Inr ([], 0)
      else if F ''diskann prune'' 0 \<noteq> None then Inl SQLITE_NOMEM
      else let sel = prune_rounds (alpha_covers inter_distances p_distances num_candidates alpha)
                       max_neighbors num_candidates (replicate num_candidates True) []
           in Inr (map (\<lambda>i. i \<in> set sel) [0..<num_candidates], length sel))"

end
