(* ===== verification/VisitedSet.thy ===== *)
theory VisitedSet
  imports Diskann
begin

text \<open>The hash set of the beam search implements a set of rowids.\<close>

section \<open>Probing\<close>

lemma and_pow2: "(x :: nat) AND (2 ^ k - 1) = x mod 2 ^ k"
  unfolding mask_eq_exp_minus_1 [symmetric] take_bit_eq_mask [symmetric] take_bit_eq_mod by (rule refl)

lemma and_mask_mod: "n = 2 ^ k \<Longrightarrow> (x :: nat) AND (n - 1) = x mod n"
  by (simp only: and_pow2)

lemma probe_spec:
  assumes "length slots = 2 ^ k"
  shows "(case visited_probe slots idx r i of
     None \<Rightarrow> \<forall>j. i \<le> j \<and> j < length slots \<longrightarrow> slots ! ((idx + j) mod length slots) \<notin> {0, r}
   | Some t \<Rightarrow> \<exists>j. i \<le> j \<and> j < length slots \<and> t = (idx + j) mod length slots \<and> slots ! t \<in> {0, r} \<and>
       (\<forall>j'. i \<le> j' \<and> j' < j \<longrightarrow> slots ! ((idx + j') mod length slots) \<notin> {0, r}))"
  using assms
proof (induction slots idx r i rule: visited_probe.induct)
  case (1 slots idx r i)
  define n where "n = length slots"
  define slot where "slot = (idx + i) AND (length slots - 1)"
  have slot: "slot = (idx + i) mod n" unfolding slot_def n_def by (rule and_mask_mod [OF 1(2)])
  note unf = visited_probe.simps [of slots idx r i, unfolded Let_def, folded slot_def]
  show ?case
  proof (cases "i < n")
    case False
    then show ?thesis unfolding unf by (simp add: n_def)
  next
    case True
    show ?thesis
    proof (cases "slots ! slot = 0 \<or> slots ! slot = r")
      case hit: True
      then have "visited_probe slots idx r i = Some slot" unfolding unf using True by (simp add: n_def)
      moreover have "slots ! slot \<in> {0, r}" using hit by blast
      ultimately show ?thesis using True slot
        by (simp add: n_def [symmetric]) (intro exI [of _ i], simp)
    next
      case miss: False
      have e: "visited_probe slots idx r i = visited_probe slots idx r (Suc i)" unfolding unf using True miss by (simp add: n_def)
      have here: "slots ! ((idx + i) mod n) \<notin> {0, r}" using miss slot by simp
      have IH: "case visited_probe slots idx r (Suc i) of
         None \<Rightarrow> \<forall>j. Suc i \<le> j \<and> j < n \<longrightarrow> slots ! ((idx + j) mod n) \<notin> {0, r}
       | Some t \<Rightarrow> \<exists>j. Suc i \<le> j \<and> j < n \<and> t = (idx + j) mod n \<and> slots ! t \<in> {0, r} \<and>
           (\<forall>j'. Suc i \<le> j' \<and> j' < j \<longrightarrow> slots ! ((idx + j') mod n) \<notin> {0, r})"
        unfolding n_def by (rule 1(1) [OF True [unfolded n_def] slot_def miss 1(2)])
      show ?thesis
      proof (cases "visited_probe slots idx r (Suc i)")
        case None
        have "slots ! ((idx + j) mod n) \<notin> {0, r}" if "i \<le> j" "j < n" for j
          using that here IH None by (cases "j = i") auto
        then show ?thesis unfolding e None n_def [symmetric] by simp
      next
        case (Some t)
        then obtain j where j: "Suc i \<le> j" "j < n" "t = (idx + j) mod n" "slots ! t \<in> {0, r}"
          "\<forall>j'. Suc i \<le> j' \<and> j' < j \<longrightarrow> slots ! ((idx + j') mod n) \<notin> {0, r}" using IH by auto
        have "slots ! ((idx + j') mod n) \<notin> {0, r}" if "i \<le> j'" "j' < j" for j'
          using that here j(5) by (cases "j' = i") auto
        moreover have "i \<le> j" using j(1) by simp
        ultimately show ?thesis using j(2-4) unfolding e Some n_def [symmetric] option.case by blast
      qed
    qed
  qed
qed


section \<open>The invariant\<close>

text \<open>A stored rowid is the first slot on its probe sequence that is empty or holds it.\<close>

definition reached :: "int list \<Rightarrow> nat \<Rightarrow> int \<Rightarrow> nat \<Rightarrow> bool" where
  "reached slots idx r t \<longleftrightarrow> (\<exists>j < length slots. t = (idx + j) mod length slots \<and>
     (\<forall>j' < j. slots ! ((idx + j') mod length slots) \<notin> {0, r}))"

definition vs_ok :: "DiskannVisitedSet \<Rightarrow> bool" where
  "vs_ok s \<longleftrightarrow> (\<exists>k. length (vs_slots s) = 2 ^ k) \<and>
     vs_count s = card {t. t < length (vs_slots s) \<and> vs_slots s ! t \<noteq> 0} \<and>
     (\<forall>t < length (vs_slots s). vs_slots s ! t \<noteq> 0 \<longrightarrow>
        reached (vs_slots s) (visited_index s (vs_slots s ! t)) (vs_slots s ! t) t)"

definition vs_set :: "DiskannVisitedSet \<Rightarrow> int set" where
  "vs_set s = set (vs_slots s) - {0}"

lemma probe_cases:
  assumes "length slots = 2 ^ k"
  obtains (full) "visited_probe slots idx r 0 = None" and "0 \<notin> set slots" and "r \<notin> set slots"
  | (hit) t where "visited_probe slots idx r 0 = Some t" and "t < length slots" and "slots ! t \<in> {0, r}"
      and "reached slots idx r t"
proof (cases "visited_probe slots idx r 0")
  case None
  then have no: "\<forall>j < length slots. slots ! ((idx + j) mod length slots) \<notin> {0, r}"
    using probe_spec [OF assms, where idx = idx and r = r and i = 0] by simp
  have pos: "0 < length slots" using assms by simp
  have "slots ! t \<notin> {0, r}" if "t < length slots" for t
  proof -
    define n where "n = length slots"
    define j where "j = (t + (n - idx mod n)) mod n"
    have "j < n" using pos by (simp add: j_def n_def)
    have "(idx + j) mod n = (idx mod n + (t + (n - idx mod n))) mod n"
      unfolding j_def by (simp add: mod_add_left_eq mod_add_right_eq)
    also have "idx mod n + (t + (n - idx mod n)) = t + n"
      using mod_less_divisor [OF pos, of idx] unfolding n_def by linarith
    finally have "(idx + j) mod n = t" using that by (simp add: n_def)
    then show ?thesis using no \<open>j < n\<close> by (metis n_def)
  qed
  then have "0 \<notin> set slots" "r \<notin> set slots" by (auto simp: in_set_conv_nth)
  then show thesis using None full by blast
next
  case (Some t)
  have pos: "0 < length slots" using assms by simp
  obtain j where j: "j < length slots" "t = (idx + j) mod length slots" "slots ! t \<in> {0, r}"
    "\<forall>j'. 0 \<le> j' \<and> j' < j \<longrightarrow> slots ! ((idx + j') mod length slots) \<notin> {0, r}"
    using probe_spec [OF assms, where idx = idx and r = r and i = 0] Some by auto
  then have "reached slots idx r t" unfolding reached_def by blast
  moreover have "t < length slots" using j(2) pos by simp
  ultimately show thesis using hit Some j(3) by blast
qed

lemma reached_unique:
  assumes "reached slots idx r t" and "reached slots idx r t'" and "slots ! t \<in> {0, r}" and "slots ! t' \<in> {0, r}"
  shows "t = t'"
proof -
  obtain j j' where j: "t = (idx + j) mod length slots" "t' = (idx + j') mod length slots"
    "\<forall>i < j. slots ! ((idx + i) mod length slots) \<notin> {0, r}" "\<forall>i < j'. slots ! ((idx + i) mod length slots) \<notin> {0, r}"
    using assms(1,2) unfolding reached_def by blast
  have "\<not> j < j'" "\<not> j' < j" using j assms(3,4) by blast+
  then show ?thesis using j(1,2) by (metis nat_neq_iff)
qed

text \<open>Where the probe for a nonzero rowid ends.\<close>

lemma probe_set:
  assumes "vs_ok s" and "r \<noteq> 0"
  obtains (full) "visited_probe (vs_slots s) (visited_index s r) r 0 = None" and "0 \<notin> set (vs_slots s)" and "r \<notin> vs_set s"
  | (known) t where "visited_probe (vs_slots s) (visited_index s r) r 0 = Some t" and "vs_slots s ! t = r" and "r \<in> vs_set s"
  | (fresh) t where "visited_probe (vs_slots s) (visited_index s r) r 0 = Some t" and "vs_slots s ! t = 0"
      and "t < length (vs_slots s)" and "r \<notin> vs_set s" and "reached (vs_slots s) (visited_index s r) r t"
proof -
  obtain k where k: "length (vs_slots s) = 2 ^ k" using assms(1) by (auto simp: vs_ok_def)
  show thesis
  proof (rule probe_cases [OF k, of "visited_index s r" r])
    assume "visited_probe (vs_slots s) (visited_index s r) r 0 = None" "0 \<notin> set (vs_slots s)" "r \<notin> set (vs_slots s)"
    then show thesis using full by (simp add: vs_set_def)
  next
    fix t assume t: "visited_probe (vs_slots s) (visited_index s r) r 0 = Some t" "t < length (vs_slots s)"
      "vs_slots s ! t \<in> {0, r}" "reached (vs_slots s) (visited_index s r) r t"
    show thesis
    proof (cases "vs_slots s ! t = r")
      case True
      then have "r \<in> vs_set s" using t(2) assms(2) nth_mem [OF t(2)] by (simp add: vs_set_def)
      then show thesis using known t(1) True by blast
    next
      case False
      then have z: "vs_slots s ! t = 0" using t(3) by simp
      have "r \<notin> vs_set s"
      proof
        assume "r \<in> vs_set s"
        then obtain t' where t': "t' < length (vs_slots s)" "vs_slots s ! t' = r" by (auto simp: vs_set_def in_set_conv_nth)
        then have "reached (vs_slots s) (visited_index s r) r t'" using assms by (auto simp: vs_ok_def)
        then have "t = t'" using reached_unique [OF t(4)] t(3) t'(2) by simp
        then show False using t'(2) False by simp
      qed
      then show thesis using fresh t z by blast
    qed
  qed
qed

lemma contains_iff: "vs_ok s \<Longrightarrow> diskann_visited_set_contains s r \<longleftrightarrow> r \<in> vs_set s"
proof (cases "r = 0")
  case True
  then show ?thesis by (simp add: diskann_visited_set_contains_def vs_set_def)
next
  case False
  assume "vs_ok s"
  then show ?thesis
    by (rule probe_set [OF _ False]) (use False in \<open>simp_all add: diskann_visited_set_contains_def\<close>)
qed

lemma count_update:
  assumes "t < length (xs :: int list)" and "xs ! t = 0" and "r \<noteq> 0"
  shows "card {i. i < length xs \<and> xs[t := r] ! i \<noteq> 0} = Suc (card {i. i < length xs \<and> xs ! i \<noteq> 0})"
proof -
  have "{i. i < length xs \<and> xs[t := r] ! i \<noteq> 0} = insert t {i. i < length xs \<and> xs ! i \<noteq> 0}"
    using assms by (auto simp: nth_list_update)
  then show ?thesis using assms(2) by simp
qed

lemma reached_update:
  assumes "reached slots idx r t" and "slots ! u = 0" and "u < length slots"
  shows "reached (slots[u := x]) idx r t"
proof -
  obtain j where j: "j < length slots" "t = (idx + j) mod length slots"
    "\<forall>j' < j. slots ! ((idx + j') mod length slots) \<notin> {0, r}" using assms(1) by (auto simp: reached_def)
  have "slots[u := x] ! ((idx + j') mod length slots) \<notin> {0, r}" if "j' < j" for j'
  proof -
    have n: "slots ! ((idx + j') mod length slots) \<notin> {0, r}" using j(3) that by blast
    then have "(idx + j') mod length slots \<noteq> u" using assms(2) by auto
    then show ?thesis using n by simp
  qed
  then show ?thesis using j(1,2) unfolding reached_def length_list_update by blast
qed

lemma insert_ok:
  assumes "vs_ok s" and "diskann_visited_set_insert s r = (s', new)"
  shows "vs_ok s' \<and> (new \<longleftrightarrow> r \<noteq> 0 \<and> r \<notin> vs_set s \<and> 0 \<in> set (vs_slots s))
    \<and> vs_set s' = (if new then insert r (vs_set s) else vs_set s) \<and> length (vs_slots s') = length (vs_slots s)"
proof (cases "r = 0")
  case True
  then show ?thesis using assms by (simp add: diskann_visited_set_insert_def)
next
  case r: False
  note ins = assms(2) [unfolded diskann_visited_set_insert_def if_not_P [OF r]]
  show ?thesis
  proof (rule probe_set [OF assms(1) r])
    assume "visited_probe (vs_slots s) (visited_index s r) r 0 = None" "0 \<notin> set (vs_slots s)" "r \<notin> vs_set s"
    then show ?thesis using ins assms(1) by simp
  next
    fix t assume "visited_probe (vs_slots s) (visited_index s r) r 0 = Some t" "vs_slots s ! t = r" "r \<in> vs_set s"
    then show ?thesis using ins assms(1) r by simp
  next
    fix t assume t: "visited_probe (vs_slots s) (visited_index s r) r 0 = Some t" "vs_slots s ! t = 0"
      "t < length (vs_slots s)" "r \<notin> vs_set s" "reached (vs_slots s) (visited_index s r) r t"
    let ?slots = "(vs_slots s)[t := r]"
    have s': "s' = s\<lparr>vs_slots := ?slots, vs_count := vs_count s + 1\<rparr>" and new: "new"
      using ins t(1,2) by simp_all
    have idx: "visited_index s' x = visited_index s x" for x by (simp add: visited_index_def s')
    have "reached ?slots (visited_index s (?slots ! i)) (?slots ! i) i"
      if "i < length (vs_slots s)" "?slots ! i \<noteq> 0" for i
    proof (cases "i = t")
      case True
      then show ?thesis using reached_update [OF t(5,2,3), of r] t(3) by simp
    next
      case False
      then have "reached (vs_slots s) (visited_index s (vs_slots s ! i)) (vs_slots s ! i) i"
        using assms(1) that by (simp add: vs_ok_def)
      then show ?thesis using reached_update [OF _ t(2,3)] False by simp
    qed
    then have "vs_ok s'" using assms(1) idx count_update [OF t(3,2) r] by (auto simp: vs_ok_def s')
    moreover have "set ?slots - {0} = insert r (set (vs_slots s) - {0})"
    proof -
      have e: "vs_slots s = take t (vs_slots s) @ 0 # drop (Suc t) (vs_slots s)"
        using id_take_nth_drop [OF t(3)] t(2) by simp
      have "set (vs_slots s) = insert 0 (set (take t (vs_slots s)) \<union> set (drop (Suc t) (vs_slots s)))"
        by (subst e) simp
      then show ?thesis using r by (simp add: upd_conv_take_nth_drop [OF t(3)]) blast
    qed
    moreover have "0 \<in> set (vs_slots s)" using t(2,3) by (metis nth_mem)
    ultimately show ?thesis using new r t(4) by (simp add: vs_set_def s')
  qed
qed

lemma capacity_pow2: "\<exists>k. visited_capacity (2 ^ i) c = 2 ^ k \<and> c \<le> 2 ^ k"
proof (induction "2 ^ i :: nat" c arbitrary: i rule: visited_capacity.induct)
  case (1 c)
  show ?case
  proof (cases "2 ^ i < c")
    case True
    then have "visited_capacity (2 ^ i) c = visited_capacity (2 ^ Suc i) c"
      by (subst visited_capacity.simps) (simp add: mult.commute)
    then show ?thesis using 1 [of "Suc i"] True by (simp add: mult.commute)
  next
    case False
    then have "visited_capacity (2 ^ i) c = 2 ^ i" by (subst visited_capacity.simps) simp
    then show ?thesis using False by (intro exI [of _ i]) simp
  qed
qed

lemma init_ok:
  assumes "diskann_visited_set_init F capacity = Inr s"
  shows "vs_ok s \<and> vs_set s = {} \<and> capacity \<le> length (vs_slots s)"
proof -
  define n where "n = visited_capacity 16 capacity"
  have "\<exists>k. n = 2 ^ k \<and> capacity \<le> 2 ^ k" using capacity_pow2 [of 4 capacity] by (simp add: n_def)
  moreover have s: "s = \<lparr>vs_slots = replicate n 0, vs_count = 0\<rparr>"
    using assms by (simp add: diskann_visited_set_init_def n_def split: if_splits)
  moreover have "{t. t < n \<and> replicate n 0 ! t \<noteq> (0 :: int)} = {}" by auto
  ultimately show ?thesis by (auto simp: vs_ok_def vs_set_def)
qed

text \<open>C15. The visited set of the beam search is a set of nonzero rowids: a new set is empty and has room
  for what was asked, membership is what \<open>contains\<close> says, and inserting adds the rowid and answers
  whether it was new, as long as a slot is free (0 is never stored).\<close>

theorem visited_set_is_a_set:
  assumes "vs_ok s" and "diskann_visited_set_init F capacity = Inr s0"
  shows "(diskann_visited_set_contains s r \<longleftrightarrow> r \<in> vs_set s) \<and>
    (\<exists>s' new. diskann_visited_set_insert s r = (s', new) \<and> vs_ok s' \<and>
      (new \<longleftrightarrow> r \<noteq> 0 \<and> r \<notin> vs_set s \<and> 0 \<in> set (vs_slots s)) \<and>
      vs_set s' = (if new then insert r (vs_set s) else vs_set s)) \<and>
    vs_ok s0 \<and> vs_set s0 = {} \<and> capacity \<le> length (vs_slots s0)"
proof -
  obtain s' new where i: "diskann_visited_set_insert s r = (s', new)" by (cases "diskann_visited_set_insert s r")
  from insert_ok [OF assms(1) i] i contains_iff [OF assms(1), of r] init_ok [OF assms(2)] show ?thesis
    by (intro conjI exI [of _ s'] exI [of _ new]) blast+
qed

definition ex_visited :: DiskannVisitedSet where
  "ex_visited = fst (diskann_visited_set_insert (projr (diskann_visited_set_init no_faults 4)) 7)"

lemma ex_visited_init: "diskann_visited_set_init no_faults 4 = Inr \<lparr>vs_slots = replicate 16 0, vs_count = 0\<rparr>"
  by (simp add: diskann_visited_set_init_def no_faults_def visited_capacity.simps)

lemma ex_visited_ok: "vs_ok ex_visited"
  unfolding ex_visited_def ex_visited_init sum.sel
  using insert_ok [OF conjunct1 [OF init_ok [OF ex_visited_init]] surjective_pairing, of 7] by blast

lemma ex_visited_slots: "vs_slots ex_visited = (replicate 16 0)[2 := 7]"
  unfolding ex_visited_def ex_visited_init sum.sel
  by (simp add: diskann_visited_set_insert_def visited_index_def visited_probe.simps)

theorem visited_set_is_a_set_witness:
  "diskann_visited_set_contains ex_visited 7 \<and> 7 \<in> vs_set ex_visited
    \<and> vs_set (fst (diskann_visited_set_insert ex_visited 12)) = {7, 12}"
proof -
  have v: "vs_set ex_visited = {7}" "0 \<in> set (vs_slots ex_visited)"
    by (auto simp: vs_set_def ex_visited_slots eval_nat_numeral)
  with visited_set_is_a_set [OF ex_visited_ok ex_visited_init, of 7]
    visited_set_is_a_set [OF ex_visited_ok ex_visited_init, of 12]
  show ?thesis by auto
qed

end
