(* ===== verification/Prune.thy ===== *)
theory Prune
  imports Diskann
begin

text \<open>The selection of neighbours is the greedy one: in order of distance, whoever is not covered yet.\<close>

definition greedy_step :: "(nat \<Rightarrow> nat \<Rightarrow> bool) \<Rightarrow> nat \<Rightarrow> nat \<Rightarrow> nat list \<Rightarrow> nat list" where
  "greedy_step cov m i sel = (if length sel < m \<and> \<not> (\<exists>b \<in> set sel. cov b i) then sel @ [i] else sel)"

definition greedy :: "(nat \<Rightarrow> nat \<Rightarrow> bool) \<Rightarrow> nat \<Rightarrow> nat \<Rightarrow> nat list" where
  "greedy cov m n = fold (greedy_step cov m) [0..<n] []"

lemma greedy_skip:
  "\<forall>i \<in> set is. m \<le> length sel \<or> (\<exists>b \<in> set sel. cov b i) \<Longrightarrow> fold (greedy_step cov m) is sel = sel"
  by (induction "is") (auto simp: greedy_step_def)

lemma prune_rounds_greedy:
  assumes "k \<le> n" and "n - k \<le> left" and "active = map (\<lambda>i. k \<le> i \<and> \<not> (\<exists>b \<in> set sel. cov b i)) [0..<n]"
  shows "prune_rounds cov m left active sel = fold (greedy_step cov m) [k..<n] sel"
  using assms
proof (induction left arbitrary: k active sel)
  case (Suc left)
  have act: "active ! i \<longleftrightarrow> k \<le> i \<and> \<not> (\<exists>b \<in> set sel. cov b i)" if "i < n" for i using that Suc.prems(3) by simp
  have len: "length active = n" using Suc.prems(3) by simp
  show ?case
  proof (cases "length sel < m")
    case full: False
    then show ?thesis by (simp add: greedy_skip)
  next
    case room: True
    show ?thesis
    proof (cases "List.find (\<lambda>i. active ! i) [0..<length active]")
      case None
      then have "\<forall>i \<in> set [k..<n]. \<exists>b \<in> set sel. cov b i" using act len by (auto simp: find_None_iff)
      then show ?thesis using room None by (simp add: greedy_skip)
    next
      case (Some b)
      then have b: "b < n" "active ! b" "\<forall>i < b. \<not> active ! i" using len by (auto simp: find_Some_iff)
      then have kb: "k \<le> b" "\<not> (\<exists>b' \<in> set sel. cov b' b)" using act by auto
      let ?active = "prune_cover (cov b) (active[b := False])"
      have a': "?active = map (\<lambda>i. Suc b \<le> i \<and> \<not> (\<exists>b' \<in> set (sel @ [b]). cov b' i)) [0..<n]"
      proof (rule nth_equalityI)
        fix i assume "i < length ?active"
        then have i: "i < n" by (simp add: prune_cover_def len)
        then have "?active ! i \<longleftrightarrow> i \<noteq> b \<and> active ! i \<and> \<not> cov b i"
          by (cases "i = b") (simp_all add: prune_cover_def len)
        also have "\<dots> \<longleftrightarrow> Suc b \<le> i \<and> active ! i \<and> \<not> cov b i" using b(3) by (metis Suc_leI not_less_eq_eq le_less nat_neq_iff)
        also have "\<dots> \<longleftrightarrow> Suc b \<le> i \<and> \<not> (\<exists>b' \<in> set (sel @ [b]). cov b' i)" using act [OF i] kb(1) by auto
        finally show "?active ! i = map (\<lambda>i. Suc b \<le> i \<and> \<not> (\<exists>b' \<in> set (sel @ [b]). cov b' i)) [0..<n] ! i"
          using i by simp
      qed (simp add: prune_cover_def len)
      have "prune_rounds cov m (Suc left) active sel = prune_rounds cov m left ?active (sel @ [b])"
        using room Some by simp
      also have "\<dots> = fold (greedy_step cov m) [Suc b..<n] (sel @ [b])"
        by (rule Suc.IH [OF _ _ a']) (use b(1) kb(1) Suc.prems(2) in auto)
      also have "\<dots> = fold (greedy_step cov m) (b # [Suc b..<n]) sel"
        using room kb(2) by (simp add: greedy_step_def)
      also have "\<dots> = fold (greedy_step cov m) ([k..<b] @ b # [Suc b..<n]) sel"
      proof -
        have "\<forall>i \<in> set [k..<b]. m \<le> length sel \<or> (\<exists>b' \<in> set sel. cov b' i)"
          using act b(1,3) by auto
        then have "fold (greedy_step cov m) [k..<b] sel = sel" by (rule greedy_skip)
        then show ?thesis by simp
      qed
      also have "[k..<b] @ b # [Suc b..<n] = [k..<n]"
        using kb(1) b(1) by (metis upt_conv_Cons upt_add_eq_append le_add_diff_inverse less_imp_le_nat)
      finally show ?thesis .
    qed
  qed
qed simp

lemma greedy_props:
  "distinct (greedy cov m n) \<and> length (greedy cov m n) \<le> m \<and> sorted (greedy cov m n) \<and>
   (\<forall>i \<in> set (greedy cov m n). i < n \<and> \<not> (\<exists>b \<in> set (greedy cov m n). b < i \<and> cov b i)) \<and>
   (\<forall>i < n. i \<notin> set (greedy cov m n) \<longrightarrow> length (greedy cov m n) = m \<or> (\<exists>b \<in> set (greedy cov m n). b < i \<and> cov b i))"
proof (induction n)
  case (Suc n)
  let ?g = "greedy cov m n"
  have e: "greedy cov m (Suc n) = (if length ?g < m \<and> \<not> (\<exists>b \<in> set ?g. cov b n) then ?g @ [n] else ?g)"
    by (simp add: greedy_def greedy_step_def)
  show ?case
  proof (cases "length ?g < m \<and> \<not> (\<exists>b \<in> set ?g. cov b n)")
    case True
    then have e': "greedy cov m (Suc n) = ?g @ [n]" using e by simp
    show ?thesis unfolding e' using Suc True by (auto simp: sorted_append less_Suc_eq dest: order.asym)
  next
    case False
    then have e': "greedy cov m (Suc n) = ?g" using e by simp
    show ?thesis unfolding e' using Suc False by (auto simp: less_Suc_eq)
  qed
qed (simp add: greedy_def)

text \<open>C14. The selection of neighbours is the greedy one. With the candidates in order of distance and
  \<open>b\<close> covering \<open>i\<close> when \<open>alpha\<close> times their distance is at most the distance of \<open>i\<close> to the point, it
  takes each candidate that no selected one covers until there are \<open>max_neighbors\<close>: no selected one
  covers a later selected one, and whoever is left out is covered or the selection is full.\<close>

theorem prune_select_is_greedy:
  assumes "diskann_prune_select F ds p_distances n alpha m = Inr (selected, sc)"
  defines "cov \<equiv> alpha_covers ds p_distances n alpha"
  shows "selected = map (\<lambda>i. i \<in> set (greedy cov m n)) [0..<n] \<and> sc = length (greedy cov m n) \<and> sc \<le> m \<and>
    (\<forall>i < n. selected ! i \<longrightarrow> \<not> (\<exists>b < i. selected ! b \<and> cov b i)) \<and>
    (\<forall>i < n. \<not> selected ! i \<longrightarrow> sc = m \<or> (\<exists>b < i. selected ! b \<and> cov b i))"
proof -
  have "prune_rounds cov m n (replicate n True) [] = greedy cov m n"
    unfolding greedy_def cov_def by (rule prune_rounds_greedy) (simp_all add: map_replicate_trivial)
  then have e: "selected = map (\<lambda>i. i \<in> set (greedy cov m n)) [0..<n]" "sc = length (greedy cov m n)"
    using assms(1) by (auto simp: cov_def diskann_prune_select_def greedy_def Let_def split: if_splits)
  have sel: "selected ! i \<longleftrightarrow> i \<in> set (greedy cov m n)" if "i < n" for i using that e(1) by simp
  note g = greedy_props [of cov m n]
  have "\<forall>i < n. selected ! i \<longrightarrow> \<not> (\<exists>b < i. selected ! b \<and> cov b i)" using g sel by auto
  moreover have "\<forall>i < n. \<not> selected ! i \<longrightarrow> sc = m \<or> (\<exists>b < i. selected ! b \<and> cov b i)" using g sel e(2) by auto
  ultimately show ?thesis using e g by simp
qed

text \<open>Three candidates at distances 1, 2 and 3 to the point; the first two are at distance 0 of each
  other and infinitely far from the third.\<close>

definition ex_inter :: "f32 list" where
  "ex_inter = map (\<lambda>near. if near then FFin False 0 (- 149) else FInf False)
     [True, True, False, True, True, False, False, False, True]"

definition ex_distances :: "f32 list" where
  "ex_distances = [FFin False 1 0, FFin False 2 0, FFin False 3 0]"

lemma ex_select:
  "diskann_prune_select no_faults ex_inter ex_distances 3 (FFin False 1 0) 2 = Inr ([True, False, True], 2)"
  by code_simp

theorem prune_select_is_greedy_witness:
  "[True, False, True] = map (\<lambda>i. i \<in> set (greedy (alpha_covers ex_inter ex_distances 3 (FFin False 1 0)) 2 3)) [0..<3]"
  by (rule conjunct1 [OF prune_select_is_greedy [OF ex_select]])

end
