(* ===== verification/DiskannGraph.thy ===== *)
theory DiskannGraph
  imports Diskann Shadow
begin

text \<open>
  The DiskANN index of a column (\<open>sqlite-vec-diskann.c\<close>): its entry point, nodes, full vectors and
  buffer, the beam search over the graph, and insertion and deletion of a vector.

  A function that searches may not return; its result is \<open>None\<close> then. Errors are \<open>Inl\<close>.
\<close>

section \<open>The state\<close>

text \<open>
  The shadow tables of one column. \<open>dg_medoid\<close> is the row \<open>diskann_medoid_NN\<close> of \<open>_info\<close>: missing,
  or NULL (\<open>Some None\<close>) when the graph is empty.
\<close>

record diskann_state =
  dg_medoid :: "int option option"
  dg_vectors :: "bytes table"
  dg_nodes :: "diskann_node table"
  dg_buffer :: "bytes table"

text \<open>
  \<open>ev_fault site r\<close> is the code with which the SQLite calls at that place of the source fail for row
  \<open>r\<close>, if they do; \<open>ev_cast\<close> is the conversion of a float outside the range of a signed byte;
  \<open>ev_junk\<close> is what a freshly allocated quantized vector holds.
\<close>

record diskann_env =
  ev_fault :: "string \<Rightarrow> int \<Rightarrow> sqlite_rc option"
  ev_cast :: "f32 \<Rightarrow> u8"
  ev_junk :: bytes

definition dk_attempt :: "diskann_env \<Rightarrow> string \<Rightarrow> int \<Rightarrow> 'a result \<Rightarrow> 'a result" where
  "dk_attempt E site r k = (case ev_fault E site r of Some rc \<Rightarrow> Inl rc | None \<Rightarrow> k)"

lemma dk_attempt_Inr [simp]: "dk_attempt E site r k = Inr x \<longleftrightarrow> ev_fault E site r = None \<and> k = Inr x"
  by (simp add: dk_attempt_def split: option.split)

definition env_faults :: "diskann_env \<Rightarrow> faults" where
  "env_faults E = (\<lambda>site i. ev_fault E site (int i))"

section \<open>Medoid, nodes and vectors\<close>

definition diskann_medoid_get :: "diskann_env \<Rightarrow> diskann_state \<Rightarrow> int option result" where
  "diskann_medoid_get E g = dk_attempt E ''medoid get'' 0
     (case dg_medoid g of None \<Rightarrow> Inl SQLITE_ERROR | Some medoid \<Rightarrow> Inr medoid)"

definition diskann_medoid_set :: "diskann_env \<Rightarrow> int option \<Rightarrow> diskann_state \<Rightarrow> diskann_state result" where
  "diskann_medoid_set E medoid g = dk_attempt E ''medoid set'' 0
     (Inr (case dg_medoid g of None \<Rightarrow> g | Some _ \<Rightarrow> g\<lparr>dg_medoid := Some medoid\<rparr>))"

text \<open>\<open>SELECT rowid FROM _vectors WHERE rowid != ? LIMIT 1\<close>: the first row in rowid order. If the
  step fails the graph is marked as empty.\<close>

definition diskann_medoid_handle_delete :: "diskann_env \<Rightarrow> int \<Rightarrow> diskann_state \<Rightarrow> diskann_state result" where
  "diskann_medoid_handle_delete E deletedRowid g =
     rbind (diskann_medoid_get E g) (\<lambda>medoid.
       if medoid = Some deletedRowid then
         dk_attempt E ''medoid prepare'' 0
           (case filter (\<lambda>(rowid, v). rowid \<noteq> deletedRowid) (dg_vectors g) of
              (newMedoid, v) # _ \<Rightarrow>
                diskann_medoid_set E (if ev_fault E ''medoid step'' 0 = None then Some newMedoid else None) g
            | [] \<Rightarrow> diskann_medoid_set E None g)
       else Inr g)"

abbreviation col_n :: "VectorColumnDefinition \<Rightarrow> nat" where
  "col_n col \<equiv> nat (dk_n_neighbors (vc_diskann col))"

abbreviation col_quant :: "VectorColumnDefinition \<Rightarrow> Vec0DiskannQuantizerType" where
  "col_quant col \<equiv> dk_quantizer_type (vc_diskann col)"

definition node_sized :: "VectorColumnDefinition \<Rightarrow> diskann_node \<Rightarrow> bool" where
  "node_sized col node \<longleftrightarrow>
     length (dn_validity node) = diskann_validity_byte_size (col_n col) \<and>
     length (dn_ids node) = diskann_neighbor_ids_byte_size (col_n col) \<and>
     length (dn_qvecs node) = diskann_neighbor_qvecs_byte_size (col_n col) (col_quant col) (vc_dimensions col)"

text \<open>Empty blobs need no allocation of their own: \<open>sqlite3_malloc(0)\<close> gives NULL.\<close>

definition diskann_node_read ::
  "diskann_env \<Rightarrow> VectorColumnDefinition \<Rightarrow> int \<Rightarrow> diskann_state \<Rightarrow> diskann_node result"
where
  "diskann_node_read E col rowid g = dk_attempt E ''node read'' rowid
     (case tbl_get (dg_nodes g) rowid of
        None \<Rightarrow> Inl SQLITE_ERROR
      | Some node \<Rightarrow>
          if \<not> node_sized col node then Inl SQLITE_CORRUPT
          else if dn_validity node = [] \<or> dn_ids node = [] \<or> dn_qvecs node = [] then Inl SQLITE_NOMEM
          else Inr node)"

definition diskann_node_write ::
  "diskann_env \<Rightarrow> int \<Rightarrow> diskann_node \<Rightarrow> diskann_state \<Rightarrow> diskann_state result"
where
  "diskann_node_write E rowid node g = dk_attempt E ''node write'' rowid
     (Inr (g\<lparr>dg_nodes := tbl_put (dg_nodes g) rowid node\<rparr>))"

definition diskann_vector_read :: "diskann_env \<Rightarrow> int \<Rightarrow> diskann_state \<Rightarrow> bytes result" where
  "diskann_vector_read E rowid g = dk_attempt E ''vector read'' rowid
     (case tbl_get (dg_vectors g) rowid of
        None \<Rightarrow> Inl SQLITE_ERROR
      | Some vec \<Rightarrow> if vec = [] then Inl SQLITE_ERROR else Inr vec)"

definition diskann_vector_write ::
  "diskann_env \<Rightarrow> int \<Rightarrow> bytes \<Rightarrow> nat \<Rightarrow> diskann_state \<Rightarrow> diskann_state result"
where
  "diskann_vector_write E rowid vector vectorSize g = dk_attempt E ''vector write'' rowid
     (Inr (g\<lparr>dg_vectors := tbl_put (dg_vectors g) rowid (take vectorSize vector)\<rparr>))"

definition diskann_node_delete :: "diskann_env \<Rightarrow> int \<Rightarrow> diskann_state \<Rightarrow> diskann_state result" where
  "diskann_node_delete E rowid g = dk_attempt E ''node delete'' rowid
     (Inr (g\<lparr>dg_nodes := tbl_del (dg_nodes g) rowid\<rparr>))"

definition diskann_vector_delete :: "diskann_env \<Rightarrow> int \<Rightarrow> diskann_state \<Rightarrow> diskann_state result" where
  "diskann_vector_delete E rowid g = dk_attempt E ''vector delete'' rowid
     (Inr (g\<lparr>dg_vectors := tbl_del (dg_vectors g) rowid\<rparr>))"

section \<open>Search\<close>

text \<open>
  The distance to a neighbour's quantized vector. The query is quantized once when the column holds
  floats; otherwise it is quantized anew for each neighbour, as if it were an array of floats.
\<close>

definition approx_distance ::
  "diskann_env \<Rightarrow> VectorColumnDefinition \<Rightarrow> bytes \<Rightarrow> nat \<Rightarrow> bytes option \<Rightarrow> bytes \<Rightarrow> f32"
where
  "approx_distance E col queryVector dimensions queryQuantized neighborQvec = (case queryQuantized of
     Some q \<Rightarrow> diskann_distance_quantized_precomputed q neighborQvec dimensions (col_quant col)
                 (vc_distance_metric col)
   | None \<Rightarrow> diskann_distance_quantized (env_faults E) (ev_cast E) queryVector neighborQvec dimensions
                 (col_quant col) (vc_distance_metric col))"

definition candidate_update ::
  "(Vec0DiskannCandidate \<Rightarrow> Vec0DiskannCandidate) \<Rightarrow> nat \<Rightarrow> DiskannCandidateList \<Rightarrow> DiskannCandidateList"
where
  "candidate_update f i l = l\<lparr>cl_items := (cl_items l)[i := f (cl_items l ! i)]\<rparr>"

definition confirm_rowid :: "int \<Rightarrow> DiskannCandidateList \<Rightarrow> DiskannCandidateList" where
  "confirm_rowid rowid l =
     (case List.find (\<lambda>i. cd_rowid (cl_items l ! i) = rowid) [0..<length (cl_items l)] of
        None \<Rightarrow> l
      | Some i \<Rightarrow> candidate_update (cd_confirmed_update (\<lambda>_. True)) i l)"

definition insert_neighbor ::
  "(nat \<Rightarrow> f32) \<Rightarrow> DiskannVisitedSet \<Rightarrow> diskann_node \<Rightarrow> nat \<Rightarrow> DiskannCandidateList \<Rightarrow> DiskannCandidateList"
where
  "insert_neighbor approx visited node i l =
     (if \<not> diskann_validity_get (dn_validity node) i then l
      else let neighborRowid = diskann_neighbor_id_get (dn_ids node) i
      in if diskann_visited_set_contains visited neighborRowid then l
         else fst (diskann_candidate_list_insert l neighborRowid (approx i)))"

text \<open>One round of the beam search, for the unvisited candidate at \<open>nextIdx\<close>.\<close>

definition search_visit ::
  "diskann_env \<Rightarrow> VectorColumnDefinition \<Rightarrow> bytes \<Rightarrow> nat \<Rightarrow> VectorElementType \<Rightarrow> bytes option \<Rightarrow> diskann_state \<Rightarrow>
   nat \<Rightarrow> DiskannCandidateList \<Rightarrow> DiskannVisitedSet \<Rightarrow> DiskannCandidateList \<times> DiskannVisitedSet"
where
  "search_visit E col queryVector dimensions elementType queryQuantized g nextIdx candidates visited =
    (let currentRowid = cd_rowid (cl_items candidates ! nextIdx);
         candidates = candidate_update (cd_visited_update (\<lambda>_. True)) nextIdx candidates
     in case diskann_node_read E col currentRowid g of
          Inl _ \<Rightarrow> (candidates, visited)
        | Inr node \<Rightarrow>
            let approx = (\<lambda>i. approx_distance E col queryVector dimensions queryQuantized
                          (diskann_neighbor_qvec_get (dn_qvecs node) i (col_quant col) dimensions));
                candidates = fold (insert_neighbor approx visited node) [0..<col_n col] candidates;
                visited = fst (diskann_visited_set_insert visited currentRowid)
            in case diskann_vector_read E currentRowid g of
                 Inl _ \<Rightarrow> (candidates, visited)
               | Inr fullVec \<Rightarrow>
                   let exactDist = vec0_distance_full queryVector fullVec dimensions elementType
                                     (vc_distance_metric col)
                   in (confirm_rowid currentRowid
                         (fst (diskann_candidate_list_insert candidates currentRowid exactDist)), visited))"

partial_function (option) search_loop ::
  "(nat \<Rightarrow> DiskannCandidateList \<Rightarrow> DiskannVisitedSet \<Rightarrow> DiskannCandidateList \<times> DiskannVisitedSet) \<Rightarrow>
   DiskannCandidateList \<Rightarrow> DiskannVisitedSet \<Rightarrow> DiskannCandidateList option"
where
  "search_loop visit candidates visited =
     (case diskann_candidate_list_next_unvisited candidates of
        None \<Rightarrow> Some candidates
      | Some nextIdx \<Rightarrow>
          let (candidates', visited') = visit nextIdx candidates visited
          in search_loop visit candidates' visited')"

declare search_loop.simps [code]

definition search_results :: "nat \<Rightarrow> DiskannCandidateList \<Rightarrow> (int \<times> f32) list" where
  "search_results k candidates =
     take k (map (\<lambda>c. (cd_rowid c, cd_distance c)) (filter cd_confirmed (cl_items candidates)))"

text \<open>The size of the candidate list: the argument, or the column's option, and at least \<open>k\<close>.\<close>

definition effective_list_size :: "VectorColumnDefinition \<Rightarrow> int \<Rightarrow> int \<Rightarrow> int" where
  "effective_list_size col k searchListSize =
    (let cfg = vc_diskann col;
         size = (if searchListSize \<le> 0 then
                   (if 0 < dk_search_list_size_search cfg then dk_search_list_size_search cfg
                    else dk_search_list_size cfg)
                 else searchListSize)
     in if size < k then k else size)"

text \<open>The query is quantized once when it holds floats.\<close>

definition query_quantized ::
  "diskann_env \<Rightarrow> VectorColumnDefinition \<Rightarrow> bytes \<Rightarrow> nat \<Rightarrow> VectorElementType \<Rightarrow> bytes option"
where
  "query_quantized E col queryVector dimensions elementType =
     (if elementType = SQLITE_VEC_ELEMENT_TYPE_FLOAT32
      then diskann_quantize_query (env_faults E) (ev_cast E) queryVector dimensions (col_quant col) else None)"

definition diskann_search ::
  "diskann_env \<Rightarrow> VectorColumnDefinition \<Rightarrow> bytes \<Rightarrow> nat \<Rightarrow> VectorElementType \<Rightarrow> int \<Rightarrow> int \<Rightarrow> diskann_state \<Rightarrow>
   (int \<times> f32) list result option"
where
  "diskann_search E col queryVector dimensions elementType k searchListSize g =
    (let size = nat (effective_list_size col k searchListSize)
     in case diskann_medoid_get E g of
          Inl rc \<Rightarrow> Some (Inl rc)
        | Inr None \<Rightarrow> Some (Inr [])
        | Inr (Some medoid) \<Rightarrow>
         (case diskann_vector_read E medoid g of
            Inl rc \<Rightarrow> Some (Inl rc)
          | Inr medoidVector \<Rightarrow>
         (case diskann_candidate_list_init (env_faults E) size of
            Inl rc \<Rightarrow> Some (Inl rc)
          | Inr candidates \<Rightarrow>
         (case diskann_visited_set_init (env_faults E) (size * 4) of
            Inl rc \<Rightarrow> Some (Inl rc)
          | Inr visited \<Rightarrow>
              let medoidDist = vec0_distance_full queryVector medoidVector dimensions elementType
                                 (vc_distance_metric col);
                  candidates = candidate_update (cd_confirmed_update (\<lambda>_. True)) 0
                                 (fst (diskann_candidate_list_insert candidates medoid medoidDist));
                  queryQuantized = query_quantized E col queryVector dimensions elementType
              in (case search_loop (search_visit E col queryVector dimensions elementType queryQuantized g)
                         candidates visited of
                    None \<Rightarrow> None
                  | Some candidates \<Rightarrow> Some (Inr (search_results (nat k) candidates)))))))"

section \<open>Pruning\<close>

text \<open>The candidate itself is replaced by the last one, which is dropped.\<close>

definition remove_self :: "int \<Rightarrow> (int \<times> f32) list \<Rightarrow> (int \<times> f32) list" where
  "remove_self p_rowid candidates =
     (case List.find (\<lambda>i. fst (candidates ! i) = p_rowid) [0..<length candidates] of
        None \<Rightarrow> candidates
      | Some i \<Rightarrow> butlast (candidates[i := last candidates]))"

text \<open>Insertion sort; as in \<open>candidate_resort\<close> the index is one more than in the code.\<close>

fun prune_shift :: "(int \<times> f32) list \<Rightarrow> nat \<Rightarrow> int \<times> f32 \<Rightarrow> (int \<times> f32) list" where
  "prune_shift cs 0 tmp = cs[0 := tmp]"
| "prune_shift cs (Suc j) tmp =
     (if fp_gt (snd (cs ! j)) (snd tmp) then prune_shift (cs[Suc j := cs ! j]) j tmp else cs[Suc j := tmp])"

definition prune_sort :: "(int \<times> f32) list \<Rightarrow> (int \<times> f32) list" where
  "prune_sort candidates = fold (\<lambda>i cs. prune_shift cs i (cs ! i)) [1..<length candidates] candidates"

text \<open>A candidate whose vector cannot be read covers nothing and is not covered.\<close>

definition robust_covers ::
  "diskann_env \<Rightarrow> VectorColumnDefinition \<Rightarrow> f32 \<Rightarrow> (int \<times> f32) list \<Rightarrow> diskann_state \<Rightarrow> nat \<Rightarrow> nat \<Rightarrow> bool"
where
  "robust_covers E col alpha candidates g bestIdx i =
     (case (diskann_vector_read E (fst (candidates ! bestIdx)) g, diskann_vector_read E (fst (candidates ! i)) g) of
        (Inr best, Inr other) \<Rightarrow>
          fp_le (f32_mul alpha (vec0_distance_full best other (vc_dimensions col) (vc_element_type col)
                                  (vc_distance_metric col)))
            (snd (candidates ! i))
      | _ \<Rightarrow> False)"

definition diskann_robust_prune ::
  "diskann_env \<Rightarrow> VectorColumnDefinition \<Rightarrow> int \<Rightarrow> (int \<times> f32) list \<Rightarrow> f32 \<Rightarrow> nat \<Rightarrow> diskann_state \<Rightarrow> int list result"
where
  "diskann_robust_prune E col p_rowid candidates alpha max_neighbors g =
    (let candidates = remove_self p_rowid candidates
     in if candidates = [] then Inr []
        else let cs = prune_sort candidates; n = length cs
        in dk_attempt E ''prune malloc'' p_rowid
             (Inr (map (\<lambda>i. fst (cs ! i))
                (prune_rounds (robust_covers E col alpha cs g) max_neighbors n (replicate n True) []))))"

text \<open>The quantized form of a vector of the column, put into a buffer that held \<open>prev\<close>.\<close>

definition column_quantize :: "diskann_env \<Rightarrow> VectorColumnDefinition \<Rightarrow> bytes \<Rightarrow> bytes \<Rightarrow> bytes" where
  "column_quantize E col vec prev =
    (let qvecSize = diskann_quantized_vector_byte_size (col_quant col) (vc_dimensions col)
     in if vc_element_type col = SQLITE_VEC_ELEMENT_TYPE_FLOAT32
        then diskann_quantize_vector (ev_cast E) vec (vc_dimensions col) (col_quant col) prev
        else take qvecSize vec @ drop (length (take qvecSize vec)) prev)"

definition diskann_write_pruned_neighbors ::
  "diskann_env \<Rightarrow> VectorColumnDefinition \<Rightarrow> int \<Rightarrow> int list \<Rightarrow> diskann_state \<Rightarrow> diskann_state result"
where
  "diskann_write_pruned_neighbors E col nodeRowid neighborRowids g =
     rbind (diskann_node_init (env_faults E) (col_n col) (col_quant col) (vc_dimensions col)) (\<lambda>node.
     dk_attempt E ''qvec malloc'' nodeRowid
       (let (node, qvec) = fold (\<lambda>i (node, qvec).
              case diskann_vector_read E (neighborRowids ! i) g of
                Inl _ \<Rightarrow> (node, qvec)
              | Inr neighborVec \<Rightarrow>
                  let qvec = column_quantize E col neighborVec qvec
                  in (diskann_node_set_neighbor node i (neighborRowids ! i) qvec (col_quant col) (vc_dimensions col), qvec))
              [0..<min (length neighborRowids) (col_n col)] (node, ev_junk E)
        in diskann_node_write E nodeRowid node g))"

section \<open>Insertion\<close>

definition has_neighbor :: "VectorColumnDefinition \<Rightarrow> diskann_node \<Rightarrow> int \<Rightarrow> nat \<Rightarrow> bool" where
  "has_neighbor col node rowid i \<longleftrightarrow>
     diskann_validity_get (dn_validity node) i \<and> diskann_neighbor_id_get (dn_ids node) i = rowid"

text \<open>The farthest neighbour and its distance; a distance that is not above \<open>- 1\<close> is never picked.\<close>

definition worst_neighbor :: "VectorColumnDefinition \<Rightarrow> diskann_node \<Rightarrow> bytes \<Rightarrow> nat option \<times> f32" where
  "worst_neighbor col node nodeQ =
     fold (\<lambda>i (worstIdx, worstDist).
         if \<not> diskann_validity_get (dn_validity node) i then (worstIdx, worstDist)
         else let d = diskann_distance_quantized_precomputed nodeQ
                        (diskann_neighbor_qvec_get (dn_qvecs node) i (col_quant col) (vc_dimensions col))
                        (vc_dimensions col) (col_quant col) (vc_distance_metric col)
              in if fp_gt d worstDist then (Some i, d) else (worstIdx, worstDist))
       [0..<col_n col] (None, fp_of_int binary32 (- 1))"

definition diskann_add_reverse_edge ::
  "diskann_env \<Rightarrow> VectorColumnDefinition \<Rightarrow> int \<Rightarrow> int \<Rightarrow> bytes \<Rightarrow> diskann_state \<Rightarrow> diskann_state result"
where
  "diskann_add_reverse_edge E col node_rowid target_rowid target_vector g =
     rbind (diskann_node_read E col node_rowid g) (\<lambda>node.
       if \<exists>i \<in> set [0..<col_n col]. has_neighbor col node target_rowid i then Inr g
       else if diskann_validity_count (dn_validity node) (col_n col) < col_n col then
         (case List.find (\<lambda>i. \<not> diskann_validity_get (dn_validity node) i) [0..<col_n col] of
            None \<Rightarrow> diskann_node_write E node_rowid node g
          | Some i \<Rightarrow>
              dk_attempt E ''qvec malloc'' node_rowid
                (diskann_node_write E node_rowid
                   (diskann_node_set_neighbor node i target_rowid (column_quantize E col target_vector (ev_junk E))
                      (col_quant col) (vc_dimensions col)) g))
       else
         rbind (diskann_vector_read E node_rowid g) (\<lambda>nodeVector.
         dk_attempt E ''qvec malloc'' node_rowid
           (let targetQ = column_quantize E col target_vector (ev_junk E);
                nodeQ = column_quantize E col nodeVector (ev_junk E);
                targetDist = diskann_distance_quantized_precomputed nodeQ targetQ (vc_dimensions col)
                               (col_quant col) (vc_distance_metric col)
            in case worst_neighbor col node nodeQ of
                 (Some worstIdx, worstDist) \<Rightarrow>
                   if fp_lt targetDist worstDist then
                     diskann_node_write E node_rowid
                       (diskann_node_set_neighbor node worstIdx target_rowid targetQ (col_quant col) (vc_dimensions col)) g
                   else Inr g
               | (None, _) \<Rightarrow> Inr g)))"

text \<open>The caller ignores whether a reverse edge could be added.\<close>

definition add_reverse_edges ::
  "diskann_env \<Rightarrow> VectorColumnDefinition \<Rightarrow> int list \<Rightarrow> int \<Rightarrow> bytes \<Rightarrow> diskann_state \<Rightarrow> diskann_state"
where
  "add_reverse_edges E col selectedNeighbors rowid vector g =
     fold (\<lambda>n g. case diskann_add_reverse_edge E col n rowid vector g of Inl _ \<Rightarrow> g | Inr g \<Rightarrow> g) selectedNeighbors g"

definition diskann_insert_graph ::
  "diskann_env \<Rightarrow> VectorColumnDefinition \<Rightarrow> int \<Rightarrow> bytes \<Rightarrow> diskann_state \<Rightarrow> diskann_state result option"
where
  "diskann_insert_graph E col rowid vector g =
     (case diskann_medoid_get E g of
        Inl rc \<Rightarrow> Some (Inl rc)
      | Inr None \<Rightarrow>
          Some (rbind (diskann_node_init (env_faults E) (col_n col) (col_quant col) (vc_dimensions col)) (\<lambda>node.
                rbind (diskann_node_write E rowid node g) (\<lambda>g.
                diskann_medoid_set E (Some rowid) g)))
      | Inr (Some medoid) \<Rightarrow>
          let cfg = vc_diskann col;
              L = (if 0 < dk_search_list_size_insert cfg then dk_search_list_size_insert cfg else dk_search_list_size cfg)
          in if ev_fault E ''search malloc'' rowid \<noteq> None then Some (Inl SQLITE_NOMEM)
          else (case diskann_search E col vector (vc_dimensions col) (vc_element_type col) L L g of
                  None \<Rightarrow> None
                | Some (Inl rc) \<Rightarrow> Some (Inl rc)
                | Some (Inr found) \<Rightarrow>
                    Some (dk_attempt E ''neighbors malloc'' rowid
                     (rbind (diskann_robust_prune E col rowid found (dk_alpha cfg) (col_n col) g) (\<lambda>selected.
                      rbind (diskann_write_pruned_neighbors E col rowid selected g) (\<lambda>g.
                      Inr (add_reverse_edges E col selected rowid vector g)))))))"

section \<open>The buffer\<close>

definition diskann_buffer_write ::
  "diskann_env \<Rightarrow> int \<Rightarrow> bytes \<Rightarrow> nat \<Rightarrow> diskann_state \<Rightarrow> diskann_state result"
where
  "diskann_buffer_write E rowid vector vectorSize g = dk_attempt E ''buffer write'' rowid
     (case tbl_insert (dg_buffer g) rowid (take vectorSize vector) of
        Inl _ \<Rightarrow> Inl SQLITE_ERROR
      | Inr t \<Rightarrow> Inr (g\<lparr>dg_buffer := t\<rparr>))"

definition diskann_buffer_delete :: "diskann_env \<Rightarrow> int \<Rightarrow> diskann_state \<Rightarrow> diskann_state result" where
  "diskann_buffer_delete E rowid g = dk_attempt E ''buffer delete'' rowid
     (Inr (g\<lparr>dg_buffer := tbl_del (dg_buffer g) rowid\<rparr>))"

text \<open>A step that fails counts as "no such row".\<close>

definition diskann_buffer_exists :: "diskann_env \<Rightarrow> int \<Rightarrow> diskann_state \<Rightarrow> bool result" where
  "diskann_buffer_exists E rowid g = dk_attempt E ''buffer exists'' rowid
     (Inr (ev_fault E ''buffer exists step'' rowid = None \<and> tbl_get (dg_buffer g) rowid \<noteq> None))"

definition diskann_buffer_count :: "diskann_env \<Rightarrow> diskann_state \<Rightarrow> int result" where
  "diskann_buffer_count E g = dk_attempt E ''buffer count'' 0 (Inr (int (length (dg_buffer g))))"

primrec flush_rows ::
  "diskann_env \<Rightarrow> VectorColumnDefinition \<Rightarrow> (int \<times> bytes) list \<Rightarrow> diskann_state \<Rightarrow> diskann_state result option"
where
  "flush_rows E col [] g = Some (Inr g)"
| "flush_rows E col (row # rows) g =
     (case row of (rowid, vector) \<Rightarrow>
        if vector = [] then flush_rows E col rows g
        else (case diskann_insert_graph E col rowid vector g of
                None \<Rightarrow> None
              | Some (Inl rc) \<Rightarrow> Some (Inl rc)
              | Some (Inr g) \<Rightarrow> flush_rows E col rows g))"

text \<open>A step that fails ends the loop like the end of the table does; the buffer is cleared all the same.\<close>

definition diskann_flush_buffer ::
  "diskann_env \<Rightarrow> VectorColumnDefinition \<Rightarrow> diskann_state \<Rightarrow> diskann_state result option"
where
  "diskann_flush_buffer E col g =
     (case ev_fault E ''flush select'' 0 of
        Some rc \<Rightarrow> Some (Inl rc)
      | None \<Rightarrow>
         (case flush_rows E col
                (takeWhile (\<lambda>(rowid, vector). ev_fault E ''flush step'' rowid = None) (dg_buffer g)) g of
            None \<Rightarrow> None
          | Some (Inl rc) \<Rightarrow> Some (Inl rc)
          | Some (Inr g) \<Rightarrow> Some (dk_attempt E ''flush delete'' 0 (Inr (g\<lparr>dg_buffer := []\<rparr>)))))"

definition diskann_insert ::
  "diskann_env \<Rightarrow> VectorColumnDefinition \<Rightarrow> int \<Rightarrow> bytes \<Rightarrow> diskann_state \<Rightarrow> diskann_state result option"
where
  "diskann_insert E col rowid vector g =
    (let vectorSize = vector_column_byte_size col; threshold = dk_buffer_threshold (vc_diskann col)
     in case diskann_vector_write E rowid vector vectorSize g of
          Inl rc \<Rightarrow> Some (Inl rc)
        | Inr g \<Rightarrow>
            if 0 < threshold then
              (case rbind (diskann_buffer_write E rowid vector vectorSize g) (\<lambda>g.
                      rbind (diskann_buffer_count E g) (\<lambda>n. Inr (g, n))) of
                 Inl rc \<Rightarrow> Some (Inl rc)
               | Inr (g, n) \<Rightarrow> if threshold \<le> n then diskann_flush_buffer E col g else Some (Inr g))
            else diskann_insert_graph E col rowid vector g)"

section \<open>Deletion\<close>

text \<open>The first of the deleted node's other neighbours that can take the cleared slot.\<close>

definition repair_candidate ::
  "diskann_env \<Rightarrow> VectorColumnDefinition \<Rightarrow> int \<Rightarrow> int \<Rightarrow> int list \<Rightarrow> diskann_node \<Rightarrow> diskann_state \<Rightarrow> int option"
where
  "repair_candidate E col nodeRowid deleted_rowid deleted_neighbors node g =
     List.find (\<lambda>candidate. candidate \<noteq> nodeRowid \<and> candidate \<noteq> deleted_rowid \<and>
         \<not> (\<exists>ni \<in> set [0..<col_n col]. has_neighbor col node candidate ni) \<and>
         \<not> isl (diskann_vector_read E candidate g))
       deleted_neighbors"

definition repair_fill ::
  "diskann_env \<Rightarrow> VectorColumnDefinition \<Rightarrow> int \<Rightarrow> int \<Rightarrow> int list \<Rightarrow> nat \<Rightarrow> diskann_node \<Rightarrow> diskann_state \<Rightarrow> diskann_node"
where
  "repair_fill E col nodeRowid deleted_rowid deleted_neighbors clearedSlot node g =
     (case repair_candidate E col nodeRowid deleted_rowid deleted_neighbors node g of
        None \<Rightarrow> node
      | Some candidate \<Rightarrow>
          if ev_fault E ''repair malloc'' candidate \<noteq> None then node
          else diskann_node_set_neighbor node clearedSlot candidate
                 (column_quantize E col (projr (diskann_vector_read E candidate g)) (ev_junk E))
                 (col_quant col) (vc_dimensions col))"

definition repair_edge ::
  "diskann_env \<Rightarrow> VectorColumnDefinition \<Rightarrow> int \<Rightarrow> int list \<Rightarrow> int \<Rightarrow> diskann_state \<Rightarrow> diskann_state result"
where
  "repair_edge E col deleted_rowid deleted_neighbors nodeRowid g =
     (case diskann_node_read E col nodeRowid g of
        Inl _ \<Rightarrow> Inr g
      | Inr node \<Rightarrow>
         (case List.find (has_neighbor col node deleted_rowid) [0..<col_n col] of
            None \<Rightarrow> Inr g
          | Some clearedSlot \<Rightarrow>
              diskann_node_write E nodeRowid
                (repair_fill E col nodeRowid deleted_rowid deleted_neighbors clearedSlot
                   (diskann_node_clear_neighbor node clearedSlot (col_quant col) (vc_dimensions col)) g) g))"

definition diskann_repair_reverse_edges ::
  "diskann_env \<Rightarrow> VectorColumnDefinition \<Rightarrow> int \<Rightarrow> int list \<Rightarrow> diskann_state \<Rightarrow> diskann_state result"
where
  "diskann_repair_reverse_edges E col deleted_rowid deleted_neighbors g =
     fold_result (repair_edge E col deleted_rowid deleted_neighbors) deleted_neighbors g"

text \<open>The nodes that reference the deleted rowid; blobs of the wrong size are read as far as they
  go, and a step that fails ends the scan like its end does.\<close>

definition scrub_dirty :: "diskann_env \<Rightarrow> VectorColumnDefinition \<Rightarrow> int \<Rightarrow> diskann_state \<Rightarrow> int list" where
  "scrub_dirty E col deleted_rowid g =
     map fst (filter (\<lambda>(rowid, node).
       dn_validity node \<noteq> [] \<and> dn_ids node \<noteq> [] \<and>
       (\<exists>i \<in> set [0..<min (length (dn_ids node) div 8) (col_n col)]. has_neighbor col node deleted_rowid i))
     (takeWhile (\<lambda>(rowid, node). ev_fault E ''scrub step'' rowid = None) (dg_nodes g)))"

definition scrub_node :: "VectorColumnDefinition \<Rightarrow> int \<Rightarrow> diskann_node \<Rightarrow> diskann_node" where
  "scrub_node col deleted_rowid node =
     fold (\<lambda>i node. if has_neighbor col node deleted_rowid i
                    then diskann_node_clear_neighbor node i (col_quant col) (vc_dimensions col) else node)
       [0..<col_n col] node"

text \<open>\<open>rc\<close> is the code of the last read or write: a read that fails is skipped, but if it is the last
  one its code is the result; a write that fails ends the loop.\<close>

primrec scrub_loop ::
  "diskann_env \<Rightarrow> VectorColumnDefinition \<Rightarrow> int \<Rightarrow> int list \<Rightarrow> sqlite_rc option \<Rightarrow> diskann_state \<Rightarrow> diskann_state result"
where
  "scrub_loop E col deleted_rowid [] rc g = (case rc of Some e \<Rightarrow> Inl e | None \<Rightarrow> Inr g)"
| "scrub_loop E col deleted_rowid (d # dirty) rc g =
     (case diskann_node_read E col d g of
        Inl e \<Rightarrow> scrub_loop E col deleted_rowid dirty (Some e) g
      | Inr node \<Rightarrow>
          if \<exists>i \<in> set [0..<col_n col]. has_neighbor col node deleted_rowid i then
            (case diskann_node_write E d (scrub_node col deleted_rowid node) g of
               Inl e \<Rightarrow> Inl e
             | Inr g' \<Rightarrow> scrub_loop E col deleted_rowid dirty None g')
          else scrub_loop E col deleted_rowid dirty None g)"

definition diskann_scrub_deleted_rowid ::
  "diskann_env \<Rightarrow> VectorColumnDefinition \<Rightarrow> int \<Rightarrow> diskann_state \<Rightarrow> diskann_state result"
where
  "diskann_scrub_deleted_rowid E col deleted_rowid g =
     dk_attempt E ''scrub select'' deleted_rowid
       (let dirty = scrub_dirty E col deleted_rowid g
        in if dirty \<noteq> [] \<and> ev_fault E ''scrub realloc'' deleted_rowid \<noteq> None then Inl SQLITE_NOMEM
           else scrub_loop E col deleted_rowid dirty None g)"

definition node_neighbors :: "VectorColumnDefinition \<Rightarrow> diskann_node \<Rightarrow> int list" where
  "node_neighbors col node =
     map (diskann_neighbor_id_get (dn_ids node))
       (filter (diskann_validity_get (dn_validity node)) [0..<col_n col])"

definition diskann_delete ::
  "diskann_env \<Rightarrow> VectorColumnDefinition \<Rightarrow> int \<Rightarrow> diskann_state \<Rightarrow> diskann_state result"
where
  "diskann_delete E col rowid g =
     rbind (if 0 < dk_buffer_threshold (vc_diskann col) then diskann_buffer_exists E rowid g else Inr False) (\<lambda>inBuffer.
       if inBuffer then
         rbind (diskann_buffer_delete E rowid g) (diskann_vector_delete E rowid)
       else case diskann_node_read E col rowid g of
         Inl _ \<Rightarrow> Inr g
       | Inr node \<Rightarrow>
           if ev_fault E ''delete malloc'' rowid \<noteq> None then Inl SQLITE_NOMEM
           else
             rbind (diskann_repair_reverse_edges E col rowid (node_neighbors col node) g) (\<lambda>g.
             rbind (diskann_node_delete E rowid g) (\<lambda>g.
             rbind (diskann_vector_delete E rowid g) (\<lambda>g.
             rbind (diskann_medoid_handle_delete E rowid g) (\<lambda>g.
             diskann_scrub_deleted_rowid E col rowid g)))))"

section \<open>The interface of \<open>xUpdate\<close>\<close>

text \<open>A call that does not return has no result; it is an error here, so that what is proved of a
  successful \<open>xUpdate\<close> says nothing about it.\<close>

definition diskann_index :: "diskann_env \<Rightarrow> vec0_vtab \<Rightarrow> (nat \<Rightarrow> diskann_state) diskann_api" where
  "diskann_index E p = \<lparr>
     api_insert = \<lambda>i rowid vector g.
       (case diskann_insert E (vector_columns p ! i) rowid vector (g i) of
          None \<Rightarrow> Inl SQLITE_ERROR
        | Some r \<Rightarrow> rbind r (\<lambda>gi. Inr (g(i := gi)))),
     api_delete = \<lambda>i rowid g.
       rbind (diskann_delete E (vector_columns p ! i) rowid (g i)) (\<lambda>gi. Inr (g(i := gi))),
     api_vector_read = \<lambda>i rowid g. diskann_vector_read E rowid (g i)\<rparr>"

section \<open>The command\<close>

definition diskann_handle_command :: "vec0_vtab \<Rightarrow> string \<Rightarrow> vec0_vtab result" where
  "diskann_handle_command p command =
    (let store = (\<lambda>col_idx f. Inr (p\<lparr>vector_columns := (vector_columns p)
           [col_idx := (vector_columns p ! col_idx)\<lparr>vc_diskann := f (vc_diskann (vector_columns p ! col_idx))\<rparr>]\<rparr>));
         option = (\<lambda>col_idx n f. let val = atoi (drop n command) in
                     if val < 1 then Inl SQLITE_ERROR else store col_idx (f (\<lambda>_. val)))
     in case List.find (\<lambda>i. vc_index_type (vector_columns p ! i) = VEC0_INDEX_TYPE_DISKANN)
               [0..<length (vector_columns p)] of
          None \<Rightarrow> Inl SQLITE_EMPTY
        | Some col_idx \<Rightarrow>
            if take 24 command = ''search_list_size_search='' then option col_idx 24 dk_search_list_size_search_update
            else if take 24 command = ''search_list_size_insert='' then option col_idx 24 dk_search_list_size_insert_update
            else if take 17 command = ''search_list_size='' then option col_idx 17 dk_search_list_size_update
            else Inl SQLITE_EMPTY)"

end
