(* ===== verification/NodeFacts.thy ===== *)
theory NodeFacts
  imports DiskannGraph Distances
begin

text \<open>Reading a node's slots after writing one of them, and the invariant of a single node.\<close>

section \<open>Slots\<close>

lemma copy_at_write: "offset + length data \<le> length buf \<Longrightarrow> blob_write buf data offset = Some (copy_at buf offset data)"
  by (simp add: blob_write_def copy_at_def)

lemma length_copy_at: "offset + length data \<le> length buf \<Longrightarrow> length (copy_at buf offset data) = length buf"
  by (simp add: copy_at_def)

lemma validity_get_bit: "diskann_validity_get v i \<longleftrightarrow> bit (v ! (i div 8)) (i mod 8)"
  by (simp add: diskann_validity_get_def and_one_eq bit_iff_odd_drop_bit mod_2_eq_odd)

lemma validity_get_set:
  assumes "i < 8 * length v"
  shows "diskann_validity_get (diskann_validity_set v i b) j = (if j = i then b else diskann_validity_get v j)"
proof -
  have same: "j div 8 = i div 8 \<Longrightarrow> j mod 8 = i mod 8 \<longleftrightarrow> j = i" by (metis div_mult_mod_eq)
  have len: "i div 8 < length v" using assms by auto
  have b1: "bit (push_bit (i mod 8) 1 :: u8) (j mod 8) = (j mod 8 = i mod 8)"
    by (auto simp: bit_push_bit_iff bit_1_iff bit_exp_iff)
  have b0: "bit (NOT (push_bit (i mod 8) 1) :: u8) (j mod 8) = (j mod 8 \<noteq> i mod 8)"
    by (auto simp: bit_not_iff bit_push_bit_iff bit_1_iff bit_exp_iff)
  show ?thesis using same len b0 b1
    by (cases "j div 8 = i div 8") (auto simp: validity_get_bit diskann_validity_set_def bit_or_iff bit_and_iff)
qed

lemma length_validity_set [simp]: "length (diskann_validity_set v i b) = length v"
  by (simp add: diskann_validity_set_def)

text \<open>The validity bitmap is a bitmap like those of the scans.\<close>

interpretation dv: bitset diskann_validity_get diskann_validity_set "\<lambda>v. 8 * length v"
  by unfold_locales (simp_all add: validity_get_set)

lemma neighbor_id_i64_at: "diskann_neighbor_id_get ids i = i64_at ids i"
  by (simp add: diskann_neighbor_id_get_def i64_at_def mult.commute)

lemma neighbor_id_is_i64: "is_i64 (diskann_neighbor_id_get ids i)"
  by (simp add: diskann_neighbor_id_get_def i64_of_bytes_range)

lemma neighbor_id_get_set:
  assumes "length ids = n * 8" and "i < n" and "j < n" and "is_i64 r"
  shows "diskann_neighbor_id_get (diskann_neighbor_id_set ids i r) j = (if j = i then r else diskann_neighbor_id_get ids j)"
proof -
  have "i * 8 + 8 \<le> n * 8" using assms(2) by (metis Suc_leI add.commute mult_Suc mult_le_mono1)
  then have "blob_write ids (i64_bytes r) (i * 8) = Some (diskann_neighbor_id_set ids i r)"
    unfolding diskann_neighbor_id_set_def using assms(1) by (intro copy_at_write) simp
  moreover have "8 * j + 8 \<le> length ids" using assms(1,3) by simp
  ultimately show ?thesis unfolding neighbor_id_i64_at using i64_at_write assms(4) by blast
qed

section \<open>Nodes\<close>

text \<open>A configuration \<open>vec0_init\<close> accepts: whole bytes of validity bits, vectors that quantize to at
  least a byte.\<close>

definition dcol_ok :: "VectorColumnDefinition \<Rightarrow> bool" where
  "dcol_ok col \<longleftrightarrow> 8 dvd col_n col \<and> 0 < col_n col \<and>
     0 < diskann_quantized_vector_byte_size (col_quant col) (vc_dimensions col)"

definition neighbor_of :: "VectorColumnDefinition \<Rightarrow> diskann_node \<Rightarrow> int \<Rightarrow> bool" where
  "neighbor_of col node r \<longleftrightarrow> (\<exists>i < col_n col. has_neighbor col node r i)"

text \<open>A node's valid slots name different rows, none of them the node's own.\<close>

definition node_ok :: "VectorColumnDefinition \<Rightarrow> int \<Rightarrow> diskann_node \<Rightarrow> bool" where
  "node_ok col self node \<longleftrightarrow> node_sized col node \<and> \<not> neighbor_of col node self \<and>
     (\<forall>i < col_n col. \<forall>j < col_n col. \<forall>r. has_neighbor col node r i \<and> has_neighbor col node r j \<longrightarrow> i = j)"

lemma slot_end: "i < n \<Longrightarrow> i * k + k \<le> n * (k :: nat)"
  by (metis Suc_leI add.commute mult_Suc mult_le_mono1)

lemma node_sizedD:
  assumes "node_sized col node" and "8 dvd col_n col"
  shows "8 * length (dn_validity node) = col_n col" and "length (dn_ids node) = col_n col * 8"
    and "length (dn_qvecs node) = col_n col * diskann_quantized_vector_byte_size (col_quant col) (vc_dimensions col)"
  using assms by (simp_all add: node_sized_def diskann_validity_byte_size_def diskann_neighbor_ids_byte_size_def
      diskann_neighbor_qvecs_byte_size_def)

abbreviation put_neighbor :: "VectorColumnDefinition \<Rightarrow> diskann_node \<Rightarrow> nat \<Rightarrow> int \<Rightarrow> bytes \<Rightarrow> diskann_node" where
  "put_neighbor col node i r q \<equiv> diskann_node_set_neighbor node i r q (col_quant col) (vc_dimensions col)"

abbreviation drop_neighbor :: "VectorColumnDefinition \<Rightarrow> diskann_node \<Rightarrow> nat \<Rightarrow> diskann_node" where
  "drop_neighbor col node i \<equiv> diskann_node_clear_neighbor node i (col_quant col) (vc_dimensions col)"

lemma put_neighbor_slots:
  assumes "node_sized col node" and "8 dvd col_n col" and "i < col_n col" and "j < col_n col" and "is_i64 r"
  shows "has_neighbor col (put_neighbor col node i r q) x j = (if j = i then x = r else has_neighbor col node x j)"
proof -
  note S = node_sizedD [OF assms(1,2)]
  have "i < 8 * length (dn_validity node)" using S assms(3) by simp
  then show ?thesis
    using neighbor_id_get_set [OF S(2) assms(3,4,5)] validity_get_set [of i "dn_validity node" True j]
    by (auto simp: has_neighbor_def diskann_node_set_neighbor_def)
qed

lemma drop_neighbor_slots:
  assumes "node_sized col node" and "8 dvd col_n col" and "i < col_n col" and "j < col_n col"
  shows "has_neighbor col (drop_neighbor col node i) x j = (j \<noteq> i \<and> has_neighbor col node x j)"
proof -
  note S = node_sizedD [OF assms(1,2)]
  have "i < 8 * length (dn_validity node)" using S assms(3) by simp
  then show ?thesis
    using neighbor_id_get_set [OF S(2) assms(3,4), of 0] validity_get_set [of i "dn_validity node" False j]
    by (auto simp: has_neighbor_def diskann_node_clear_neighbor_def Let_def is_i64_def)
qed

lemma put_neighbor_sized:
  assumes "node_sized col node" and "8 dvd col_n col" and "i < col_n col"
  shows "node_sized col (put_neighbor col node i r q)"
proof -
  note S = node_sizedD [OF assms(1,2)]
  let ?k = "diskann_quantized_vector_byte_size (col_quant col) (vc_dimensions col)"
  have q: "i * ?k + ?k \<le> col_n col * ?k" using assms(3) by (rule slot_end)
  have "i * ?k + length (take ?k q) \<le> col_n col * ?k" by (rule order_trans [OF _ q]) simp
  moreover have "i * 8 + 8 \<le> col_n col * 8" using assms(3) by (rule slot_end)
  ultimately show ?thesis using assms(1) S
    by (simp add: node_sized_def diskann_node_set_neighbor_def diskann_neighbor_id_set_def
        diskann_neighbor_qvec_set_def Let_def length_copy_at)
qed

lemma drop_neighbor_sized:
  assumes "node_sized col node" and "8 dvd col_n col" and "i < col_n col"
  shows "node_sized col (drop_neighbor col node i)"
proof -
  note S = node_sizedD [OF assms(1,2)]
  let ?k = "diskann_quantized_vector_byte_size (col_quant col) (vc_dimensions col)"
  have "i * ?k + ?k \<le> col_n col * ?k" "i * 8 + 8 \<le> col_n col * 8" using assms(3) by (simp_all add: slot_end)
  then show ?thesis using assms(1) S
    by (simp add: node_sized_def diskann_node_clear_neighbor_def diskann_neighbor_id_set_def Let_def length_copy_at)
qed

lemma node_okI:
  assumes "node_sized col node" and "\<And>i. i < col_n col \<Longrightarrow> \<not> has_neighbor col node self i"
    and "\<And>i j r. i < col_n col \<Longrightarrow> j < col_n col \<Longrightarrow> has_neighbor col node r i \<Longrightarrow> has_neighbor col node r j \<Longrightarrow> i = j"
  shows "node_ok col self node"
  unfolding node_ok_def neighbor_of_def using assms by blast

lemma node_okD:
  assumes "node_ok col self node"
  shows "node_sized col node" and "i < col_n col \<Longrightarrow> \<not> has_neighbor col node self i"
    and "i < col_n col \<Longrightarrow> j < col_n col \<Longrightarrow> has_neighbor col node r i \<Longrightarrow> has_neighbor col node r j \<Longrightarrow> i = j"
  using assms unfolding node_ok_def neighbor_of_def by blast+

lemma put_neighbor_of:
  assumes "node_sized col node" and "8 dvd col_n col" and "i < col_n col" and "is_i64 r"
    and "neighbor_of col (put_neighbor col node i r q) x"
  shows "x = r \<or> neighbor_of col node x"
proof -
  obtain j where "j < col_n col" "has_neighbor col (put_neighbor col node i r q) x j"
    using assms(5) unfolding neighbor_of_def by blast
  then show ?thesis unfolding neighbor_of_def using put_neighbor_slots [OF assms(1,2,3) _ assms(4)] by (cases "j = i") auto
qed

lemma put_neighbor_ok:
  assumes "node_ok col self node" and "8 dvd col_n col" and "i < col_n col" and "is_i64 r" and "r \<noteq> self"
    and "\<not> neighbor_of col node r \<or> has_neighbor col node r i"
  shows "node_ok col self (put_neighbor col node i r q)"
proof (rule node_okI)
  note N = node_okD [OF assms(1)]
  note slots = put_neighbor_slots [OF N(1) assms(2,3) _ assms(4)]
  show "node_sized col (put_neighbor col node i r q)" using put_neighbor_sized [OF N(1) assms(2,3)] .
  show "\<not> has_neighbor col (put_neighbor col node i r q) self j" if "j < col_n col" for j
    using slots [OF that] N(2) [OF that] assms(5) by simp
  have new: "j = i" if "j < col_n col" "has_neighbor col node r j" for j
  proof -
    have "neighbor_of col node r" unfolding neighbor_of_def using that by (intro exI conjI)
    then have "has_neighbor col node r i" using assms(6) by simp
    then show ?thesis by (rule N(3) [OF that(1) assms(3) that(2)])
  qed
  show "a = b" if "a < col_n col" "b < col_n col" "has_neighbor col (put_neighbor col node i r q) y a"
    "has_neighbor col (put_neighbor col node i r q) y b" for a b y
  proof -
    have A: "if a = i then y = r else has_neighbor col node y a" using that(3) unfolding slots [OF that(1)] .
    have B: "if b = i then y = r else has_neighbor col node y b" using that(4) unfolding slots [OF that(2)] .
    show ?thesis
    proof (cases "a = i")
      case True
      then show ?thesis using A B new [OF that(2)] by (cases "b = i") simp_all
    next
      case False
      then show ?thesis using A B new [OF that(1)] N(3) [OF that(1,2), of y] by (cases "b = i") simp_all
    qed
  qed
qed

lemma drop_neighbor_of:
  assumes "node_sized col node" and "8 dvd col_n col" and "i < col_n col" and "neighbor_of col (drop_neighbor col node i) x"
  shows "neighbor_of col node x"
proof -
  obtain j where j: "j < col_n col" "has_neighbor col (drop_neighbor col node i) x j"
    using assms(4) unfolding neighbor_of_def by blast
  have "has_neighbor col node x j" using j(2) unfolding drop_neighbor_slots [OF assms(1,2,3) j(1)] by (rule conjunct2)
  then show ?thesis unfolding neighbor_of_def using j(1) by (intro exI conjI)
qed

lemma drop_neighbor_ok:
  assumes "node_ok col self node" and "8 dvd col_n col" and "i < col_n col"
  shows "node_ok col self (drop_neighbor col node i)"
proof (rule node_okI)
  note N = node_okD [OF assms(1)]
  note slots = drop_neighbor_slots [OF N(1) assms(2,3)]
  show "node_sized col (drop_neighbor col node i)" using drop_neighbor_sized [OF N(1) assms(2,3)] .
  show "\<not> has_neighbor col (drop_neighbor col node i) self j" if "j < col_n col" for j
    using slots [OF that] N(2) [OF that] by simp
  show "a = b" if "a < col_n col" "b < col_n col" "has_neighbor col (drop_neighbor col node i) y a"
    "has_neighbor col (drop_neighbor col node i) y b" for a b y
    using that(3,4) N(3) [OF that(1,2), of y] unfolding slots [OF that(1)] slots [OF that(2)] by blast
qed

lemma node_init_ok:
  assumes "diskann_node_init F (col_n col) (col_quant col) (vc_dimensions col) = Inr node"
    and "8 dvd col_n col"
  shows "node_sized col node \<and> (\<forall>i < col_n col. \<not> diskann_validity_get (dn_validity node) i)"
proof -
  let ?v = "diskann_validity_byte_size (col_n col)"
  have n: "node = \<lparr>dn_validity = replicate ?v 0, dn_ids = replicate (diskann_neighbor_ids_byte_size (col_n col)) 0,
      dn_qvecs = replicate (diskann_neighbor_qvecs_byte_size (col_n col) (col_quant col) (vc_dimensions col)) 0\<rparr>" "0 < ?v"
    using assms(1) by (auto simp: diskann_node_init_def Let_def split: if_splits)
  have "\<not> diskann_validity_get (replicate ?v 0) i" if "i < 8 * ?v" for i
    using that by (simp add: validity_get_bit)
  moreover have "col_n col = 8 * ?v" using assms(2) by (simp add: diskann_validity_byte_size_def)
  ultimately have "\<forall>i < col_n col. \<not> diskann_validity_get (replicate ?v 0) i" by metis
  then show ?thesis using n(1) by (simp add: node_sized_def)
qed

end
