(* ===== verification/DiskannFacts.thy ===== *)
theory DiskannFacts
  imports Diskann Topk
begin

text \<open>
  The candidate list of the beam search stays sorted, holds a rowid once and keeps the nearest
  candidates.
\<close>

section \<open>The candidate list\<close>

abbreviation cd_le :: "Vec0DiskannCandidate \<Rightarrow> Vec0DiskannCandidate \<Rightarrow> bool" where
  "cd_le x y \<equiv> fp_le (cd_distance x) (cd_distance y)"

definition cl_ok :: "DiskannCandidateList \<Rightarrow> bool" where
  "cl_ok l \<longleftrightarrow> sorted_wrt cd_le (cl_items l) \<and> distinct (map cd_rowid (cl_items l)) \<and>
     (\<forall>c \<in> set (cl_items l). \<not> isnan (cd_distance c)) \<and> length (cl_items l) \<le> cl_capacity l \<and> 0 < cl_capacity l"

lemma resort_split:
  "j < length items \<Longrightarrow> \<exists>A B. take j items = A @ B \<and> (\<forall>b \<in> set B. fp_gt (cd_distance b) (cd_distance tmp))
     \<and> (A = [] \<or> \<not> fp_gt (cd_distance (last A)) (cd_distance tmp))
     \<and> candidate_resort items j tmp = A @ [tmp] @ B @ drop (Suc j) items"
proof (induction items j tmp rule: candidate_resort.induct)
  case (1 items tmp)
  then show ?case by (cases items) auto
next
  case (2 items j tmp)
  show ?case
  proof (cases "fp_gt (cd_distance (items ! j)) (cd_distance tmp)")
    case True
    let ?i = "items[Suc j := items ! j]"
    obtain A B where ab: "take j ?i = A @ B" "\<forall>b \<in> set B. fp_gt (cd_distance b) (cd_distance tmp)"
      "A = [] \<or> \<not> fp_gt (cd_distance (last A)) (cd_distance tmp)"
      "candidate_resort ?i j tmp = A @ [tmp] @ B @ drop (Suc j) ?i"
      using 2 True by auto
    have "take (Suc j) items = A @ (B @ [items ! j])" using ab(1) 2(2) by (simp add: take_Suc_conv_app_nth)
    moreover have "drop (Suc j) ?i = items ! j # drop (Suc (Suc j)) items"
      using 2(2) by (simp add: drop_update_swap Cons_nth_drop_Suc [symmetric] list_update_append)
    ultimately show ?thesis using ab True
      by (intro exI [of _ A] exI [of _ "B @ [items ! j]"]) simp
  next
    case False
    have "items[Suc j := tmp] = take (Suc j) items @ tmp # drop (Suc (Suc j)) items"
      using 2(2) by (simp add: upd_conv_take_nth_drop)
    then show ?thesis using False 2(2)
      by (intro exI [of _ "take (Suc j) items"] exI [of _ "[]"]) (simp add: last_conv_nth take_Suc_conv_app_nth)
  qed
qed

lemma fp_lt_below: "fp_le a b \<Longrightarrow> fp_lt b c \<Longrightarrow> fp_lt a c"
  unfolding fp_lt_def by (meson fp_le_trans)

lemma candidate_search_spec:
  assumes "lo \<le> hi" and "hi \<le> length items" and "sorted_wrt cd_le items"
    and "\<forall>c \<in> set items. \<not> isnan (cd_distance c)" and "\<not> isnan d"
    and "\<forall>i < lo. fp_lt (cd_distance (items ! i)) d"
    and "\<forall>i. hi \<le> i \<and> i < length items \<longrightarrow> \<not> fp_lt (cd_distance (items ! i)) d"
  shows "candidate_search items d lo hi \<le> length items
    \<and> (\<forall>i < candidate_search items d lo hi. fp_lt (cd_distance (items ! i)) d)
    \<and> (\<forall>i. candidate_search items d lo hi \<le> i \<and> i < length items \<longrightarrow> \<not> fp_lt (cd_distance (items ! i)) d)"
  using assms
proof (induction items d lo hi rule: candidate_search.induct)
  case (1 items d lo hi)
  show ?case
  proof (cases "lo < hi")
    case False
    then have e: "candidate_search items d lo hi = lo" by (subst candidate_search.simps) simp
    show ?thesis unfolding e using False 1(3,4,8,9) by simp
  next
    case True
    define mid where "mid = (lo + hi) div 2"
    have mid: "lo \<le> mid" "mid < hi" "mid < length items" using True 1(4) by (auto simp: mid_def)
    have mono: "fp_le (cd_distance (items ! i)) (cd_distance (items ! j))" if "i \<le> j" "j < length items" for i j
      using that 1(5,6) sorted_wrt_nth_less [OF 1(5), of i j] by (cases "i = j") (auto simp: fp_le_refl)
    show ?thesis
    proof (cases "fp_lt (cd_distance (items ! mid)) d")
      case lt: True
      have "\<forall>i < mid + 1. fp_lt (cd_distance (items ! i)) d"
        using fp_lt_below [OF mono [of _ mid] lt] mid by simp
      moreover have "candidate_search items d lo hi = candidate_search items d (mid + 1) hi"
        using True lt by (subst candidate_search.simps) (simp add: mid_def Let_def)
      ultimately show ?thesis using mid by (simp only:) (rule 1(1) [OF True mid_def lt _ 1(4-7) _ 1(9)], simp_all)
    next
      case nl: False
      have "\<forall>i. mid \<le> i \<and> i < length items \<longrightarrow> \<not> fp_lt (cd_distance (items ! i)) d"
        using nl mono [of mid] mid 1(6,7) by (auto simp: fp_lt_iff intro: fp_le_trans)
      moreover have "candidate_search items d lo hi = candidate_search items d lo mid"
        using True nl by (subst candidate_search.simps) (simp add: mid_def Let_def)
      ultimately show ?thesis using mid by (simp only:) (rule 1(2) [OF True mid_def nl _ _ 1(5-8)], simp_all)
    qed
  qed
qed

definition cd_pairs :: "Vec0DiskannCandidate list \<Rightarrow> (f32 \<times> int) list" where
  "cd_pairs items = map (\<lambda>c. (cd_distance c, cd_rowid c)) items"

abbreviation new_candidate :: "int \<Rightarrow> f32 \<Rightarrow> Vec0DiskannCandidate" where
  "new_candidate r d \<equiv> \<lparr>cd_rowid = r, cd_distance = d, cd_visited = False, cd_confirmed = False\<rparr>"

lemma find_rowid:
  "List.find (\<lambda>i. cd_rowid (items ! i) = r) [0..<length items] = None \<longleftrightarrow> r \<notin> cd_rowid ` set items"
  unfolding find_None_iff in_set_conv_nth image_iff by (auto simp: Bex_def in_set_conv_nth)

text \<open>Putting a new candidate at the place the binary search finds.\<close>

definition put_candidate :: "Vec0DiskannCandidate list \<Rightarrow> int \<Rightarrow> f32 \<Rightarrow> Vec0DiskannCandidate list" where
  "put_candidate items r d =
     (let lo = candidate_search items d 0 (length items) in take lo items @ [new_candidate r d] @ drop lo items)"

lemma put_candidate_mset: "mset (put_candidate items r d) = add_mset (new_candidate r d) (mset items)"
  by (simp add: put_candidate_def Let_def) (metis append_take_drop_id mset_append)

lemma put_candidate_pairs: "mset (cd_pairs (put_candidate items r d)) = add_mset (d, r) (mset (cd_pairs items))"
  unfolding cd_pairs_def mset_map put_candidate_mset by simp

lemma put_candidate_set: "set (put_candidate items r d) = insert (new_candidate r d) (set items)"
  by (metis put_candidate_mset set_mset_add_mset_insert set_mset_mset)

lemma put_candidate_length: "length (put_candidate items r d) = Suc (length items)"
  by (metis put_candidate_mset size_add_mset size_mset)

lemma put_candidate_distinct:
  "distinct (map cd_rowid items) \<Longrightarrow> r \<notin> cd_rowid ` set items \<Longrightarrow> distinct (map cd_rowid (put_candidate items r d))"
  using mset_eq_imp_distinct_iff [of "map cd_rowid (put_candidate items r d)" "r # map cd_rowid items"]
  by (simp add: put_candidate_mset)

lemma put_candidate_sorted:
  assumes "sorted_wrt cd_le items" and "\<forall>c \<in> set items. \<not> isnan (cd_distance c)" and "\<not> isnan d"
  shows "sorted_wrt cd_le (put_candidate items r d)"
proof -
  define lo where "lo = candidate_search items d 0 (length items)"
  have "lo \<le> length items \<and> (\<forall>i < lo. fp_lt (cd_distance (items ! i)) d)
    \<and> (\<forall>i. lo \<le> i \<and> i < length items \<longrightarrow> \<not> fp_lt (cd_distance (items ! i)) d)"
    unfolding lo_def by (rule candidate_search_spec [OF le0 order_refl assms(1-3)]) auto
  then have sp: "lo \<le> length items" "\<forall>i < lo. fp_lt (cd_distance (items ! i)) d"
    "\<forall>i. lo \<le> i \<and> i < length items \<longrightarrow> \<not> fp_lt (cd_distance (items ! i)) d"
    by blast+
  have le: "fp_le (cd_distance c) d" if "c \<in> set (take lo items)" for c
    using that sp(1,2) by (auto simp: in_set_conv_nth fp_lt_def)
  have ge: "fp_le d (cd_distance c)" if "c \<in> set (drop lo items)" for c
  proof -
    obtain i where "i < length (drop lo items)" "c = drop lo items ! i" using \<open>c \<in> set (drop lo items)\<close> by (metis in_set_conv_nth)
    then have "lo + i < length items" "c = items ! (lo + i)" by simp_all
    then have "\<not> fp_lt (cd_distance c) d" "\<not> isnan (cd_distance c)" using sp(3) assms(2) by simp_all
    then show ?thesis using assms(3) by (simp add: fp_lt_iff)
  qed
  have "sorted_wrt cd_le (take lo items @ drop lo items)" using assms(1) by simp
  then have "sorted_wrt cd_le (take lo items)" "sorted_wrt cd_le (drop lo items)"
    "\<forall>x \<in> set (take lo items). \<forall>y \<in> set (drop lo items). cd_le x y"
    unfolding sorted_wrt_append by blast+
  then show ?thesis using le ge unfolding put_candidate_def Let_def lo_def [symmetric] by (simp add: sorted_wrt_append)
qed

lemma insert_cases:
  assumes "r \<notin> cd_rowid ` set (cl_items l)"
  shows "diskann_candidate_list_insert l r d =
    (let items = cl_items l; full = cl_capacity l \<le> length items
     in if full \<and> fp_ge d (cd_distance (items ! (length items - 1))) then (l, False)
        else (l\<lparr>cl_items := put_candidate (if full then take (length items - 1) items else items) r d\<rparr>, True))"
proof -
  have "List.find (\<lambda>i. cd_rowid (cl_items l ! i) = r) [0..<length (cl_items l)] = None"
    using assms by (simp add: find_rowid)
  then show ?thesis by (simp add: diskann_candidate_list_insert_def put_candidate_def Let_def)
qed

lemma insert_new:
  assumes "cl_ok l" and "r \<notin> cd_rowid ` set (cl_items l)" and "\<not> isnan d"
  defines "l' \<equiv> fst (diskann_candidate_list_insert l r d)"
  shows "cl_ok l' \<and> cl_capacity l' = cl_capacity l \<and>
    is_topk fp_le (cl_capacity l) (add_mset (d, r) (mset (cd_pairs (cl_items l)))) (cd_pairs (cl_items l'))"
proof -
  let ?items = "cl_items l"
  have ok: "sorted_wrt cd_le ?items" "distinct (map cd_rowid ?items)" "\<forall>c \<in> set ?items. \<not> isnan (cd_distance c)"
    "length ?items \<le> cl_capacity l" "0 < cl_capacity l" using assms(1) by (simp_all add: cl_ok_def)
  have srt: "sorted_wrt (\<lambda>x y. fp_le (fst x) (fst y)) (cd_pairs xs) = sorted_wrt cd_le xs" for xs
    by (simp add: cd_pairs_def sorted_wrt_map)
  note ins = insert_cases [OF assms(2), of d]
  show ?thesis
  proof (cases "cl_capacity l \<le> length ?items")
    case full: True
    then have "?items \<noteq> []" using ok(5) by auto
    then obtain ys z where yz: "?items = ys @ [z]" by (metis append_butlast_last_id)
    have top: "fp_le (cd_distance y) (cd_distance z)" if "y \<in> set ?items" for y
      using that ok(1,3) by (auto simp: yz sorted_wrt_append fp_le_refl)
    show ?thesis
    proof (cases "fp_ge d (cd_distance z)")
      case True
      then have l': "l' = l" using full by (simp add: l'_def ins Let_def yz)
      have "fp_le (fst y) d" if "y \<in> set (cd_pairs ?items)" for y
        using that fp_le_trans [OF top True] by (auto simp: cd_pairs_def)
      then show ?thesis using assms(1) full ok(1,4)
        by (simp add: l' is_topk_def srt) (simp add: cd_pairs_def)
    next
      case False
      have l': "l' = l\<lparr>cl_items := put_candidate ys r d\<rparr>" using full False by (simp add: l'_def ins Let_def yz)
      have ys: "sorted_wrt cd_le ys" "\<forall>c \<in> set ys. \<not> isnan (cd_distance c)" "distinct (map cd_rowid ys)"
        "r \<notin> cd_rowid ` set ys" "Suc (length ys) = cl_capacity l"
        using ok full assms(2) by (auto simp: yz sorted_wrt_append)
      have ok': "cl_ok l'"
        using ys ok(5) put_candidate_sorted [OF ys(1,2) assms(3)] put_candidate_distinct [OF ys(3,4)]
        by (simp add: l' cl_ok_def put_candidate_length put_candidate_set assms(3))
      have dz: "fp_le d (cd_distance z)" using False assms(3) ok(3) fp_le_total by (auto simp: yz)
      have m: "add_mset (d, r) (mset (cd_pairs ?items)) = add_mset (cd_distance z, cd_rowid z) (mset (cd_pairs (cl_items l')))"
        by (simp add: l' put_candidate_pairs) (simp add: cd_pairs_def yz)
      have "fp_le (fst y) (cd_distance z)" if "y \<in> set (cd_pairs (cl_items l'))" for y
        using that top dz by (auto simp: l' cd_pairs_def put_candidate_set yz)
      then show ?thesis using ok' ys(5)
        unfolding is_topk_def m srt by (simp add: cl_ok_def) (simp add: cd_pairs_def l' put_candidate_length)
    qed
  next
    case room: False
    have l': "l' = l\<lparr>cl_items := put_candidate ?items r d\<rparr>" using room by (simp add: l'_def ins Let_def)
    have "cl_ok l'"
      using ok room put_candidate_sorted [OF ok(1,3) assms(3)] put_candidate_distinct [OF ok(2) assms(2)]
      by (simp add: l' cl_ok_def put_candidate_length put_candidate_set assms(3))
    moreover have "mset (cd_pairs (cl_items l')) = add_mset (d, r) (mset (cd_pairs ?items))"
      by (simp add: l' put_candidate_pairs)
    ultimately show ?thesis using room
      by (simp add: is_topk_def srt cl_ok_def) (simp add: cd_pairs_def l' put_candidate_length)
  qed
qed

text \<open>A candidate that is in the list keeps the smaller of its two distances.\<close>

lemma resort_ok:
  assumes "sorted_wrt cd_le items" and "i < length items" and "fp_lt (cd_distance tmp) (cd_distance (items ! i))"
    and "\<forall>c \<in> set items. \<not> isnan (cd_distance c)"
  shows "sorted_wrt cd_le (candidate_resort (items[i := tmp]) i tmp)
    \<and> mset (candidate_resort (items[i := tmp]) i tmp) = mset (items[i := tmp])"
proof -
  let ?js = "items[i := tmp]"
  obtain A B where ab: "take i ?js = A @ B" "\<forall>b \<in> set B. fp_gt (cd_distance b) (cd_distance tmp)"
    "A = [] \<or> \<not> fp_gt (cd_distance (last A)) (cd_distance tmp)"
    "candidate_resort ?js i tmp = A @ [tmp] @ B @ drop (Suc i) ?js"
    using resort_split [of i ?js tmp] assms(2) by auto
  have AB: "take i items = A @ B" using ab(1) by simp
  have items: "items = (A @ B) @ items ! i # drop (Suc i) items"
    unfolding AB [symmetric] by (rule id_take_nth_drop [OF assms(2)])
  have js: "?js = (A @ B) @ tmp # drop (Suc i) items"
    unfolding AB [symmetric] by (rule upd_conv_take_nth_drop [OF assms(2)])
  define D where "D = drop (Suc i) items"
  define x where "x = items ! i"
  have srt: "sorted_wrt cd_le ((A @ B) @ x # D)" using assms(1) items unfolding D_def x_def by simp
  have xt: "cd_le tmp x" using assms(3) unfolding x_def fp_lt_def by blast
  then have nan: "\<not> isnan (cd_distance tmp)" using fp_le_notnan by blast
  have A: "cd_le a tmp" if a: "a \<in> set A" for a
  proof -
    obtain A0 z where A0: "A = A0 @ [z]" using a by (metis append_butlast_last_id empty_iff list.set(1))
    have "z \<in> set items" using AB A0 by (metis UnCI in_set_takeD list.set_intros(1) set_append)
    then have "\<not> isnan (cd_distance z)" using assms(4) by blast
    then have zt: "cd_le z tmp" using ab(3) nan A0 fp_lt_iff by auto
    have "sorted_wrt cd_le A" using srt unfolding sorted_wrt_append by blast
    then have "a = z \<or> cd_le a z" using a unfolding A0 sorted_wrt_append by auto
    then show ?thesis using zt fp_le_trans by blast
  qed
  have D: "cd_le tmp c" if "c \<in> set D" for c
  proof -
    have "cd_le x c" using srt that unfolding sorted_wrt_append by simp
    with xt show ?thesis by (rule fp_le_trans)
  qed
  have B: "cd_le tmp b" if "b \<in> set B" for b using ab(2) that unfolding fp_lt_def by blast
  have parts: "sorted_wrt cd_le A" "sorted_wrt cd_le B" "sorted_wrt cd_le D"
    "\<forall>a \<in> set A. \<forall>b \<in> set B. cd_le a b" "\<forall>a \<in> set A. \<forall>b \<in> set D. cd_le a b" "\<forall>a \<in> set B. \<forall>b \<in> set D. cd_le a b"
    using srt unfolding sorted_wrt_append by simp_all
  have "sorted_wrt cd_le (A @ [tmp] @ B @ D)"
    unfolding sorted_wrt_append using parts A B D by auto
  moreover have "candidate_resort ?js i tmp = A @ [tmp] @ B @ D" using ab(4) by (simp add: D_def)
  moreover have "mset ?js = mset (A @ [tmp] @ B @ D)" unfolding js by (simp add: D_def)
  ultimately show ?thesis by simp
qed

lemma find_rowid_Some:
  assumes "distinct (map cd_rowid items)" and "i < length items"
  shows "List.find (\<lambda>j. cd_rowid (items ! j) = cd_rowid (items ! i)) [0..<length items] = Some i"
proof -
  have "cd_rowid (items ! j) \<noteq> cd_rowid (items ! i)" if "j < i" for j
    using that nth_eq_iff_index_eq [OF assms(1), of j i] assms(2) by simp
  then show ?thesis unfolding find_Some_iff using assms(2) by (intro exI [of _ i]) simp
qed

lemma insert_known:
  assumes "cl_ok l" and "\<not> isnan d" and "i < length (cl_items l)" and "cd_rowid (cl_items l ! i) = r"
  defines "l' \<equiv> fst (diskann_candidate_list_insert l r d)" and "e \<equiv> cd_distance (cl_items l ! i)"
  shows "cl_ok l' \<and> cl_capacity l' = cl_capacity l \<and>
    mset (cl_items l') = mset ((cl_items l)[i := (cl_items l ! i)\<lparr>cd_distance := if fp_lt d e then d else e\<rparr>])"
proof -
  let ?items = "cl_items l"
  let ?tmp = "(?items ! i)\<lparr>cd_distance := d\<rparr>"
  have ok: "sorted_wrt cd_le ?items" "distinct (map cd_rowid ?items)" "\<forall>c \<in> set ?items. \<not> isnan (cd_distance c)"
    "length ?items \<le> cl_capacity l" "0 < cl_capacity l" using assms(1) by (simp_all add: cl_ok_def)
  have "List.find (\<lambda>i. cd_rowid (?items ! i) = r) [0..<length ?items] = Some i"
    using find_rowid_Some [OF ok(2) assms(3)] assms(4) by simp
  then have ins: "diskann_candidate_list_insert l r d =
      (if fp_lt d e then (l\<lparr>cl_items := candidate_resort (?items[i := ?tmp]) i ?tmp\<rparr>, True) else (l, True))"
    by (simp add: diskann_candidate_list_insert_def Let_def e_def)
  show ?thesis
  proof (cases "fp_lt d e")
    case False
    then have "l' = l" by (simp add: l'_def ins)
    moreover have "?items[i := (?items ! i)\<lparr>cd_distance := e\<rparr>] = ?items" by (simp add: e_def)
    ultimately show ?thesis using assms(1) False by simp
  next
    case True
    have l': "l' = l\<lparr>cl_items := candidate_resort (?items[i := ?tmp]) i ?tmp\<rparr>" using True by (simp add: l'_def ins)
    have R: "sorted_wrt cd_le (cl_items l')" "mset (cl_items l') = mset (?items[i := ?tmp])"
      using resort_ok [OF ok(1) assms(3), of ?tmp] ok(3) True by (simp_all add: l' e_def)
    have "cd_rowid ?tmp = map cd_rowid ?items ! i" using assms(3) by simp
    then have "map cd_rowid (?items[i := ?tmp]) = map cd_rowid ?items" by (simp only: map_update list_update_id)
    moreover have "mset (map cd_rowid (cl_items l')) = mset (map cd_rowid (?items[i := ?tmp]))"
      unfolding mset_map R(2) by (rule refl)
    ultimately have dst: "distinct (map cd_rowid (cl_items l'))"
      using mset_eq_imp_distinct_iff ok(2) by metis
    have len: "length (cl_items l') = length ?items" using R(2) by (metis length_list_update size_mset)
    have "set (cl_items l') \<subseteq> insert ?tmp (set ?items)"
      using R(2) by (metis set_mset_mset set_update_subset_insert)
    moreover have "\<not> isnan (cd_distance ?tmp)" using assms(2) by simp
    ultimately have nan: "\<forall>c \<in> set (cl_items l'). \<not> isnan (cd_distance c)" using ok(3) by blast
    have "cl_capacity l' = cl_capacity l" by (simp add: l')
    then show ?thesis using R(1) dst nan len ok(4,5) unfolding cl_ok_def R(2) by (simp add: True)
  qed
qed

section \<open>What the search relies on\<close>

definition ex_candidates :: DiskannCandidateList where
  "ex_candidates = \<lparr>cl_items = [\<lparr>cd_rowid = 5, cd_distance = FFin False 3 0, cd_visited = True, cd_confirmed = False\<rparr>,
     \<lparr>cd_rowid = 6, cd_distance = FFin False 8 0, cd_visited = False, cd_confirmed = False\<rparr>], cl_capacity = 2\<rparr>"

lemma ex_candidates_ok: "cl_ok ex_candidates"
  unfolding cl_ok_def ex_candidates_def by code_simp

text \<open>C18. A candidate that is not in the list yet: of the candidates in the list and the new one, the
  list then holds the nearest, as many as its capacity, in order of distance and each rowid once.\<close>

theorem candidate_list_keeps_nearest:
  assumes "cl_ok l" and "r \<notin> cd_rowid ` set (cl_items l)" and "\<not> isnan d"
  shows "cl_ok (fst (diskann_candidate_list_insert l r d)) \<and>
    is_topk fp_le (cl_capacity l) (add_mset (d, r) (mset (cd_pairs (cl_items l))))
      (cd_pairs (cl_items (fst (diskann_candidate_list_insert l r d))))"
  using insert_new [OF assms] by blast

theorem candidate_list_keeps_nearest_witness:
  "is_topk fp_le 2 {#(FFin False 4 0, 9), (FFin False 3 0, 5), (FFin False 8 0, 6)#}
     (cd_pairs (cl_items (fst (diskann_candidate_list_insert ex_candidates 9 (FFin False 4 0)))))"
  using candidate_list_keeps_nearest [OF ex_candidates_ok, of 9 "FFin False 4 0"]
  by (simp add: ex_candidates_def cd_pairs_def)



end
