(* ===== verification/DiskannSearch.thy ===== *)
theory DiskannSearch
  imports DiskannGraph DiskannFacts
begin

text \<open>
  The beam search: what its candidate list holds at every step, why it ends when no distance is a
  NaN, and an input on which it does not.
\<close>

section \<open>Inserting a candidate\<close>

lemma resort_mset:
  assumes "j < length items"
  shows "mset (candidate_resort items j tmp) = mset (items[j := tmp])"
proof -
  obtain A B where ab: "take j items = A @ B" "candidate_resort items j tmp = A @ [tmp] @ B @ drop (Suc j) items"
    using resort_split [OF assms] by blast
  then show ?thesis by (simp add: upd_conv_take_nth_drop [OF assms])
qed

text \<open>Every insertion leaves the list, replaces an entry by one with a smaller distance, or puts in a
  new entry, in place of the last one when the list is full.\<close>

lemma insert_effect:
  obtains (same) "fst (diskann_candidate_list_insert l r d) = l"
  | (lower) i where "i < length (cl_items l)" and "cd_rowid (cl_items l ! i) = r"
      and "fp_lt d (cd_distance (cl_items l ! i))"
      and "cl_capacity (fst (diskann_candidate_list_insert l r d)) = cl_capacity l"
      and "mset (cl_items (fst (diskann_candidate_list_insert l r d)))
        = mset ((cl_items l)[i := (cl_items l ! i)\<lparr>cd_distance := d\<rparr>])"
  | (fresh) items where "r \<notin> cd_rowid ` set (cl_items l)"
      and "items = (if cl_capacity l \<le> length (cl_items l) then butlast (cl_items l) else cl_items l)"
      and "cl_capacity l \<le> length (cl_items l) \<Longrightarrow> \<not> fp_ge d (cd_distance (last (cl_items l))) \<or> cl_items l = []"
      and "cl_capacity (fst (diskann_candidate_list_insert l r d)) = cl_capacity l"
      and "mset (cl_items (fst (diskann_candidate_list_insert l r d))) = add_mset (new_candidate r d) (mset items)"
proof (cases "List.find (\<lambda>i. cd_rowid (cl_items l ! i) = r) [0..<length (cl_items l)]")
  case (Some i)
  then have i: "i < length (cl_items l)" "cd_rowid (cl_items l ! i) = r" by (auto simp: find_Some_iff)
  show thesis
  proof (cases "fp_lt d (cd_distance (cl_items l ! i))")
    case True
    then show thesis using i Some lower [OF i]
      by (simp add: diskann_candidate_list_insert_def Let_def resort_mset)
  next
    case False
    then show thesis using same Some by (simp add: diskann_candidate_list_insert_def Let_def)
  qed
next
  case None
  then have r: "r \<notin> cd_rowid ` set (cl_items l)" by (simp add: find_rowid)
  note ins = insert_cases [OF r, of d, unfolded Let_def]
  show thesis
  proof (cases "cl_capacity l \<le> length (cl_items l) \<and> fp_ge d (cd_distance (cl_items l ! (length (cl_items l) - 1)))")
    case True
    then show thesis using same by (simp add: ins)
  next
    case False
    define xs where "xs = (if cl_capacity l \<le> length (cl_items l) then butlast (cl_items l) else cl_items l)"
    have e: "fst (diskann_candidate_list_insert l r d) = l\<lparr>cl_items := put_candidate xs r d\<rparr>"
      unfolding ins xs_def using False by (simp add: butlast_conv_take)
    have "\<not> fp_ge d (cd_distance (last (cl_items l))) \<or> cl_items l = []" if "cl_capacity l \<le> length (cl_items l)"
      using False that by (cases "cl_items l = []") (simp_all add: last_conv_nth)
    then show thesis using fresh [OF r xs_def] by (simp add: e put_candidate_mset)
  qed
qed

text \<open>What an insertion keeps of each entry.\<close>

definition sound_items :: "(int \<Rightarrow> bool) \<Rightarrow> Vec0DiskannCandidate list \<Rightarrow> bool" where
  "sound_items ok items \<longleftrightarrow> distinct (map cd_rowid items) \<and> (\<forall>c \<in> set items. cd_confirmed c \<longrightarrow> ok (cd_rowid c))"

lemma sound_mset: "mset xs = mset ys \<Longrightarrow> sound_items ok ys \<Longrightarrow> sound_items ok xs"
  unfolding sound_items_def by (metis mset_eq_imp_distinct_iff mset_eq_setD mset_map)

lemma sound_update:
  assumes "sound_items ok items" and "i < length items" and "cd_rowid c = cd_rowid (items ! i)"
    and "cd_confirmed c \<Longrightarrow> ok (cd_rowid c)"
  shows "sound_items ok (items[i := c])"
proof -
  have "map cd_rowid (items[i := c]) = map cd_rowid items"
    using assms(2,3) by (simp add: map_update) (metis length_map list_update_id nth_map)
  moreover have "c' = c \<or> c' \<in> set items" if "c' \<in> set (items[i := c])" for c'
    using that set_update_subset_insert by fastforce
  ultimately show ?thesis using assms(1,4) unfolding sound_items_def by metis
qed

lemma insert_sound:
  assumes "sound_items ok (cl_items l)"
  shows "sound_items ok (cl_items (fst (diskann_candidate_list_insert l r d)))"
proof (cases rule: insert_effect [of l r d])
  case same
  then show ?thesis using assms by simp
next
  case (lower i)
  have "cl_items l ! i \<in> set (cl_items l)" using lower(1) by simp
  then have "sound_items ok ((cl_items l)[i := (cl_items l ! i)\<lparr>cd_distance := d\<rparr>])"
    using assms by (intro sound_update [OF assms lower(1)]) (auto simp: sound_items_def)
  then show ?thesis using lower(5) sound_mset by blast
next
  case (fresh items)
  have "sound_items ok items"
    using fresh(2) assms by (auto simp: sound_items_def map_butlast distinct_butlast dest: in_set_butlastD)
  moreover have "cd_rowid ` set items \<subseteq> cd_rowid ` set (cl_items l)"
    using fresh(2) by (auto dest: in_set_butlastD split: if_splits)
  ultimately have "sound_items ok (new_candidate r d # items)"
    using fresh(1) by (auto simp: sound_items_def)
  moreover have "mset (cl_items (fst (diskann_candidate_list_insert l r d))) = mset (new_candidate r d # items)"
    using fresh(5) by simp
  ultimately show ?thesis using sound_mset by blast
qed

section \<open>The loop\<close>

lemma search_loop_inv:
  assumes "search_loop visit l v = Some l'" and "P l v"
    and "\<And>i l v. diskann_candidate_list_next_unvisited l = Some i \<Longrightarrow> P l v \<Longrightarrow>
      P (fst (visit i l v)) (snd (visit i l v))"
  shows "\<exists>v'. P l' v' \<and> diskann_candidate_list_next_unvisited l' = None"
proof -
  define step where "step f \<longleftrightarrow> (\<forall>i l v. diskann_candidate_list_next_unvisited l = Some i \<longrightarrow> P l v \<longrightarrow>
      P (fst (f i l v)) (snd (f i l v)))"
    for f :: "nat \<Rightarrow> DiskannCandidateList \<Rightarrow> DiskannVisitedSet \<Rightarrow> DiskannCandidateList \<times> DiskannVisitedSet"
  have "step visit \<longrightarrow> P l v \<longrightarrow> (\<exists>v'. P l' v' \<and> diskann_candidate_list_next_unvisited l' = None)"
  proof (induction rule: search_loop.raw_induct [OF _ assms(1)])
    case (1 loop f l v l')
    show ?case
    proof (cases "diskann_candidate_list_next_unvisited l")
      case None
      then show ?thesis using 1(2) by auto
    next
      case (Some i)
      then have "loop f (fst (f i l v)) (snd (f i l v)) = Some l'" using 1(2) by (simp add: split_beta)
      then show ?thesis using 1(1) Some unfolding step_def by blast
    qed
  qed
  moreover have "step visit" using assms(3) unfolding step_def by blast
  ultimately show ?thesis using assms(2) by blast
qed

text \<open>A loop that comes back to a state it was in does not end.\<close>

lemma search_loop_cycle:
  assumes "diskann_candidate_list_next_unvisited l = Some i" and "visit i l v = (l, v)"
  shows "search_loop visit l v = None"
proof (rule ccontr)
  assume "search_loop visit l v \<noteq> None"
  then obtain l' where "search_loop visit l v = Some l'" by blast
  then have "\<exists>v'. (l' = l \<and> v' = v) \<and> diskann_candidate_list_next_unvisited l' = None"
    by (rule search_loop_inv) (use assms in auto)
  then show False using assms(1) by auto
qed

lemma search_loop_next:
  assumes "diskann_candidate_list_next_unvisited l = Some i" and "visit i l v = (l', v')"
  shows "search_loop visit l v = search_loop visit l' v'"
  by (subst search_loop.simps) (simp add: assms)

text \<open>A loop whose rounds decrease a measure ends.\<close>

lemma search_loop_ends:
  assumes "wf R" and "P l v"
    and "\<And>i l v. diskann_candidate_list_next_unvisited l = Some i \<Longrightarrow> P l v \<Longrightarrow>
      P (fst (visit i l v)) (snd (visit i l v)) \<and> (m (fst (visit i l v)), m l) \<in> R"
  shows "\<exists>l'. search_loop visit l v = Some l'"
  using assms(2)
proof (induction "m l" arbitrary: l v rule: wf_induct_rule [OF assms(1)])
  case (1 l)
  show ?case
  proof (cases "diskann_candidate_list_next_unvisited l")
    case None
    then show ?thesis by (subst search_loop.simps) simp
  next
    case (Some i)
    have "\<exists>l'. search_loop visit (fst (visit i l v)) (snd (visit i l v)) = Some l'"
      using assms(3) [OF Some] 1 by blast
    then show ?thesis using search_loop_next [OF Some surjective_pairing] by simp
  qed
qed

section \<open>A round\<close>

text \<open>The distances the search can compute: exact ones of the stored vectors, approximate ones of the
  slots of the nodes.\<close>

definition search_distances ::
  "diskann_env \<Rightarrow> VectorColumnDefinition \<Rightarrow> bytes \<Rightarrow> nat \<Rightarrow> VectorElementType \<Rightarrow> bytes option \<Rightarrow> diskann_state \<Rightarrow> f32 set"
where
  "search_distances E col q dims et qq g =
     (\<lambda>(r, v). vec0_distance_full q v dims et (vc_distance_metric col)) ` set (dg_vectors g) \<union>
     (\<lambda>((r, node), i). approx_distance E col q dims qq (diskann_neighbor_qvec_get (dn_qvecs node) i (col_quant col) dims))
       ` (set (dg_nodes g) \<times> set [0..<col_n col])"

lemma finite_search_distances: "finite (search_distances E col q dims et qq g)"
  by (simp add: search_distances_def)

lemma vector_read_Inr:
  "diskann_vector_read E r g = Inr v \<longleftrightarrow> ev_fault E ''vector read'' r = None \<and> tbl_get (dg_vectors g) r = Some v \<and> v \<noteq> []"
  by (auto simp: diskann_vector_read_def split: option.splits)

lemma node_read_Inr: "diskann_node_read E col r g = Inr node \<longleftrightarrow>
  ev_fault E ''node read'' r = None \<and> tbl_get (dg_nodes g) r = Some node \<and> node_sized col node \<and>
  dn_validity node \<noteq> [] \<and> dn_ids node \<noteq> [] \<and> dn_qvecs node \<noteq> []"
  by (auto simp: diskann_node_read_def split: option.splits)

definition readable :: "diskann_env \<Rightarrow> diskann_state \<Rightarrow> int \<Rightarrow> bool" where
  "readable E g r \<longleftrightarrow> (\<exists>v. diskann_vector_read E r g = Inr v)"

lemma visit_rule:
  assumes "P (candidate_update (cd_visited_update (\<lambda>_. True)) idx l)"
    and ins: "\<And>l r d. P l \<Longrightarrow> d \<in> search_distances E col q dims et qq g \<Longrightarrow> P (fst (diskann_candidate_list_insert l r d))"
    and con: "\<And>l r. P l \<Longrightarrow> readable E g r \<Longrightarrow> P (confirm_rowid r l)"
  shows "P (fst (search_visit E col q dims et qq g idx l v))"
proof -
  define r where "r = cd_rowid (cl_items l ! idx)"
  define l1 where "l1 = candidate_update (cd_visited_update (\<lambda>_. True)) idx l"
  show ?thesis
  proof (cases "diskann_node_read E col r g")
    case (Inl e)
    then show ?thesis using assms(1) by (simp add: search_visit_def r_def)
  next
    case (Inr node)
    define approx where "approx = (\<lambda>i. approx_distance E col q dims qq
        (diskann_neighbor_qvec_get (dn_qvecs node) i (col_quant col) dims))"
    define l2 where "l2 = fold (insert_neighbor approx v node) [0..<col_n col] l1"
    have "(r, node) \<in> set (dg_nodes g)"
      using Inr unfolding node_read_Inr tbl_get_def by (blast dest: map_of_SomeD)
    then have D: "approx i \<in> search_distances E col q dims et qq g" if "i < col_n col" for i
      using that unfolding search_distances_def approx_def by force
    have 2: "P l2" unfolding l2_def
    proof (rule fold_invariant [where Q = "\<lambda>i. i < col_n col"])
      show "P l1" using assms(1) by (simp add: l1_def)
      show "P (insert_neighbor approx v node i l)" if "i < col_n col" "P l" for i l
        using ins [OF that(2) D [OF that(1)]] that(2) by (simp add: insert_neighbor_def Let_def)
    qed simp
    show ?thesis
    proof (cases "diskann_vector_read E r g")
      case (Inl e)
      then show ?thesis using 2 Inr
        by (simp add: search_visit_def r_def [symmetric] l1_def [symmetric] Let_def approx_def [symmetric] l2_def [symmetric])
    next
      case v: (Inr vec)
      then have "(r, vec) \<in> set (dg_vectors g)"
        unfolding vector_read_Inr tbl_get_def by (blast dest: map_of_SomeD)
      then have "vec0_distance_full q vec dims et (vc_distance_metric col) \<in> search_distances E col q dims et qq g"
        unfolding search_distances_def by force
      from con [OF ins [OF 2 this, of r]] v Inr show ?thesis
        by (simp add: search_visit_def r_def [symmetric] l1_def [symmetric] Let_def approx_def [symmetric] l2_def [symmetric]
            readable_def)
    qed
  qed
qed

lemma next_unvisited_Some:
  "diskann_candidate_list_next_unvisited l = Some i \<Longrightarrow> i < length (cl_items l) \<and> \<not> cd_visited (cl_items l ! i)"
  by (auto simp: diskann_candidate_list_next_unvisited_def find_Some_iff)

lemma update_sound:
  assumes "sound_items ok (cl_items l)" and "i < length (cl_items l)"
    and "cd_rowid (f (cl_items l ! i)) = cd_rowid (cl_items l ! i)"
    and "cd_confirmed (f (cl_items l ! i)) \<Longrightarrow> ok (cd_rowid (cl_items l ! i))"
  shows "sound_items ok (cl_items (candidate_update f i l))"
  using sound_update [OF assms(1,2), of "f (cl_items l ! i)"] assms(3,4) by (simp add: candidate_update_def)

lemma confirm_cases:
  obtains "confirm_rowid r l = l"
  | i where "i < length (cl_items l)" and "cd_rowid (cl_items l ! i) = r"
      and "confirm_rowid r l = candidate_update (cd_confirmed_update (\<lambda>_. True)) i l"
  by (cases "List.find (\<lambda>i. cd_rowid (cl_items l ! i) = r) [0..<length (cl_items l)]")
    (auto simp: confirm_rowid_def find_Some_iff)

lemma confirm_sound:
  assumes "sound_items ok (cl_items l)" and "ok r"
  shows "sound_items ok (cl_items (confirm_rowid r l))"
  using assms by (cases rule: confirm_cases [of r l]) (auto intro!: update_sound)

lemma visit_sound:
  assumes "diskann_candidate_list_next_unvisited l = Some idx" and "sound_items (readable E g) (cl_items l)"
  shows "sound_items (readable E g) (cl_items (fst (search_visit E col q dims et qq g idx l v)))"
proof (rule visit_rule)
  have i: "idx < length (cl_items l)" using next_unvisited_Some [OF assms(1)] by blast
  then have "cl_items l ! idx \<in> set (cl_items l)" by simp
  then show "sound_items (readable E g) (cl_items (candidate_update (cd_visited_update (\<lambda>_. True)) idx l))"
    using assms(2) by (intro update_sound [OF assms(2) i]) (auto simp: sound_items_def)
qed (auto intro: insert_sound confirm_sound)

section \<open>Results\<close>

lemma seed_items:
  assumes "diskann_candidate_list_init F n = Inr l"
  shows "cl_items (candidate_update (cd_confirmed_update (\<lambda>_. True)) 0 (fst (diskann_candidate_list_insert l m d)))
      = [(new_candidate m d)\<lparr>cd_confirmed := True\<rparr>]
    \<and> cl_capacity (candidate_update (cd_confirmed_update (\<lambda>_. True)) 0 (fst (diskann_candidate_list_insert l m d))) = n
    \<and> 0 < n"
proof -
  have l: "l = \<lparr>cl_items = [], cl_capacity = n\<rparr>" "0 < n"
    using assms by (cases "n = 0"; auto simp: diskann_candidate_list_init_def int32_of_def split: if_splits)+
  then show ?thesis
    by (simp add: diskann_candidate_list_insert_def candidate_update_def candidate_search.simps)
qed

text \<open>The start of the loop: the state it is in when \<open>diskann_search\<close> reaches it.\<close>

lemma search_starts:
  assumes "diskann_search E col q dims et k s g = res"
  obtains "\<exists>r. res = Some r \<and> (r = Inr [] \<or> isl r)"
  | l v qq where "qq = query_quantized E col q dims et"
      and "\<exists>m d. cl_items l = [(new_candidate m d)\<lparr>cd_confirmed := True\<rparr>] \<and> readable E g m
            \<and> d \<in> search_distances E col q dims et qq g"
      and "0 < cl_capacity l"
      and "res = map_option (\<lambda>l. Inr (search_results (nat k) l)) (search_loop (search_visit E col q dims et qq g) l v)"
proof -
  define n where "n = nat (effective_list_size col k s)"
  define qq where "qq = query_quantized E col q dims et"
  note unf = assms [unfolded diskann_search_def Let_def, folded n_def qq_def]
  show thesis
  proof (cases "\<exists>r. res = Some r \<and> (r = Inr [] \<or> isl r)")
    case False
    then obtain m vec l0 v where m: "diskann_medoid_get E g = Inr (Some m)" "diskann_vector_read E m g = Inr vec"
      "diskann_candidate_list_init (env_faults E) n = Inr l0" "diskann_visited_set_init (env_faults E) (n * 4) = Inr v"
      using unf by (auto split: sum.splits option.splits)
    define d where "d = vec0_distance_full q vec dims et (vc_distance_metric col)"
    define l where "l = candidate_update (cd_confirmed_update (\<lambda>_. True)) 0 (fst (diskann_candidate_list_insert l0 m d))"
    have "(m, vec) \<in> set (dg_vectors g)"
      using m(2) unfolding vector_read_Inr tbl_get_def by (blast dest: map_of_SomeD)
    then have D: "d \<in> search_distances E col q dims et qq g" unfolding search_distances_def d_def by force
    have "res = map_option (\<lambda>l. Inr (search_results (nat k) l)) (search_loop (search_visit E col q dims et qq g) l v)"
      using unf unfolding m sum.case option.case d_def [symmetric] l_def [symmetric]
      by (cases "search_loop (search_visit E col q dims et qq g) l v") simp_all
    with seed_items [OF m(3), of m d] D m(2) show thesis
      by (intro that(2) [OF qq_def]) (auto simp: l_def [symmetric] readable_def)
  qed (use that(1) in blast)
qed

lemma search_results_sound:
  assumes "sound_items ok (cl_items l)"
  shows "distinct (map fst (search_results k l)) \<and> length (search_results k l) \<le> k
    \<and> (\<forall>x \<in> set (search_results k l). ok (fst x))"
proof -
  have "distinct (map cd_rowid (filter cd_confirmed (cl_items l)))"
    using assms by (simp add: sound_items_def distinct_map_filter)
  then have "distinct (take k (map cd_rowid (filter cd_confirmed (cl_items l))))" by (rule distinct_take)
  then have "distinct (map fst (search_results k l))"
    by (simp add: search_results_def take_map comp_def)
  moreover have "ok (fst x)" if "x \<in> set (search_results k l)" for x
    using that assms by (auto simp: search_results_def sound_items_def dest!: in_set_takeD)
  ultimately show ?thesis by (simp add: search_results_def)
qed

lemma search_sound:
  assumes "diskann_search E col q dims et k s g = Some (Inr found)"
  shows "distinct (map fst found) \<and> length found \<le> nat k \<and> (\<forall>x \<in> set found. readable E g (fst x))"
proof (cases rule: search_starts [OF assms])
  case 1
  then show ?thesis by auto
next
  case (2 l v qq)
  let ?P = "\<lambda>l v. sound_items (readable E g) (cl_items l)"
  obtain l' where l': "search_loop (search_visit E col q dims et qq g) l v = Some l'" "found = search_results (nat k) l'"
    using 2(4) by (cases "search_loop (search_visit E col q dims et qq g) l v") auto
  have "?P l v" using 2(2) by (auto simp: sound_items_def)
  then have "\<exists>v' :: DiskannVisitedSet. ?P l' v' \<and> diskann_candidate_list_next_unvisited l' = None"
    by (rule search_loop_inv [where P = ?P, OF l'(1)]) (simp add: visit_sound)
  then show ?thesis using search_results_sound l'(2) by blast
qed

section \<open>Termination\<close>

definition rank :: "f32 set \<Rightarrow> f32 \<Rightarrow> nat" where
  "rank D d = card {x \<in> D. fp_lt x d}"

lemma rank_le: "finite D \<Longrightarrow> rank D d \<le> card D"
  unfolding rank_def by (intro card_mono) auto

lemma rank_less:
  assumes "finite D" and "d \<in> D" and "fp_lt d e"
  shows "rank D d < rank D e"
  unfolding rank_def
proof (rule psubset_card_mono)
  have "fp_lt x e" if "fp_lt x d" for x
    using that assms(3) fp_lt_below [of x d e] unfolding fp_lt_def by blast
  moreover have "\<not> fp_lt d d" unfolding fp_lt_def by simp
  ultimately show "{x \<in> D. fp_lt x d} \<subset> {x \<in> D. fp_lt x e}" using assms(2,3) by blast
qed (use assms(1) in simp)

text \<open>Every change of the list lowers the sum of the ranks, a free place counting more than any.\<close>

definition potential :: "f32 set \<Rightarrow> DiskannCandidateList \<Rightarrow> nat" where
  "potential D l = (\<Sum>c \<in># mset (cl_items l). rank D (cd_distance c))
     + (cl_capacity l - length (cl_items l)) * Suc (card D)"

definition in_range :: "f32 set \<Rightarrow> DiskannCandidateList \<Rightarrow> bool" where
  "in_range D l \<longleftrightarrow> (\<forall>c \<in> set (cl_items l). cd_distance c \<in> D) \<and> length (cl_items l) \<le> cl_capacity l \<and> 0 < cl_capacity l"

lemma sum_mset_update:
  assumes "i < length xs"
  shows "(\<Sum>c \<in># mset (xs[i := x]). f c) + f (xs ! i) = (\<Sum>c \<in># mset xs. f c) + (f x :: nat)"
proof -
  have "mset xs = add_mset (xs ! i) (mset (take i xs @ drop (Suc i) xs))"
    by (subst id_take_nth_drop [OF assms]) simp
  moreover have "mset (xs[i := x]) = add_mset x (mset (take i xs @ drop (Suc i) xs))"
    by (simp add: upd_conv_take_nth_drop [OF assms])
  ultimately show ?thesis by simp
qed

lemma insert_potential:
  fixes r :: int
  assumes "finite D" and "\<forall>d \<in> D. \<not> isnan d" and "d \<in> D" and "in_range D l"
  defines "l' \<equiv> fst (diskann_candidate_list_insert l r d)"
  shows "in_range D l' \<and> (l' = l \<or> potential D l' < potential D l)"
proof (cases rule: insert_effect [of l r d])
  case same
  then show ?thesis using assms(4) by (simp add: l'_def)
next
  case (lower i)
  let ?items = "(cl_items l)[i := (cl_items l ! i)\<lparr>cd_distance := d\<rparr>]"
  have m: "mset (cl_items l') = mset ?items" and cap: "cl_capacity l' = cl_capacity l"
    using lower by (simp_all add: l'_def)
  have len: "length (cl_items l') = length (cl_items l)" using m by (metis length_list_update size_mset)
  have "set (cl_items l') \<subseteq> insert ((cl_items l ! i)\<lparr>cd_distance := d\<rparr>) (set (cl_items l))"
    using m by (metis set_mset_mset set_update_subset_insert)
  then have "in_range D l'" using assms(3,4) cap len by (auto simp: in_range_def)
  moreover have "rank D d < rank D (cd_distance (cl_items l ! i))" by (rule rank_less [OF assms(1,3) lower(3)])
  then have "potential D l' < potential D l"
    using sum_mset_update [OF lower(1), of "\<lambda>c. rank D (cd_distance c)" "(cl_items l ! i)\<lparr>cd_distance := d\<rparr>"] cap len
    unfolding potential_def m by simp
  ultimately show ?thesis by blast
next
  case (fresh items)
  have m: "mset (cl_items l') = add_mset (new_candidate r d) (mset items)" and cap: "cl_capacity l' = cl_capacity l"
    using fresh by (simp_all add: l'_def)
  have len: "length (cl_items l') = Suc (length items)" using m by (metis size_add_mset size_mset)
  have st: "set (cl_items l') = insert (new_candidate r d) (set items)" using m by (metis set_mset_add_mset_insert set_mset_mset)
  have sub: "set items \<subseteq> set (cl_items l)" using fresh(2) by (auto dest: in_set_butlastD split: if_splits)
  have sum: "(\<Sum>c \<in># mset (cl_items l'). rank D (cd_distance c))
      = rank D d + (\<Sum>c \<in># mset items. rank D (cd_distance c))" by (simp add: m)
  show ?thesis
  proof (cases "cl_capacity l \<le> length (cl_items l)")
    case True
    then have ne: "cl_items l \<noteq> []" "items = butlast (cl_items l)" using assms(4) fresh(2) by (auto simp: in_range_def)
    have sz: "Suc (length items) = length (cl_items l)" using ne by simp
    then have "in_range D l'" using assms(3,4) cap len st sub by (auto simp: in_range_def)
    moreover have "last (cl_items l) \<in> set (cl_items l)" using ne by simp
    then have "cd_distance (last (cl_items l)) \<in> D" using assms(4) by (auto simp: in_range_def)
    then have "fp_lt d (cd_distance (last (cl_items l)))"
      using fresh(3) [OF True] ne(1) assms(2,3) by (auto simp: fp_lt_iff)
    then have "rank D d < rank D (cd_distance (last (cl_items l)))" by (rule rank_less [OF assms(1,3)])
    moreover have "mset (cl_items l) = add_mset (last (cl_items l)) (mset items)"
      using ne by (metis append_butlast_last_id mset.simps(2) mset_append union_mset_add_mset_right add.right_neutral mset.simps(1))
    then have "(\<Sum>c \<in># mset (cl_items l). rank D (cd_distance c))
        = rank D (cd_distance (last (cl_items l))) + (\<Sum>c \<in># mset items. rank D (cd_distance c))" by simp
    ultimately show ?thesis using True len cap sz by (simp add: potential_def sum)
  next
    case False
    then have it: "items = cl_items l" using fresh(2) by simp
    then have "in_range D l'" using assms(3,4) cap len st False by (auto simp: in_range_def)
    moreover have "rank D d \<le> card D" by (rule rank_le [OF assms(1)])
    moreover obtain k where k: "cl_capacity l - length (cl_items l) = Suc k" "cl_capacity l - Suc (length (cl_items l)) = k"
      using False by (metis Suc_diff_Suc not_le)
    ultimately show ?thesis unfolding potential_def sum it len cap k by simp
  qed
qed

lemma update_in_range:
  assumes "in_range D l" and "i < length (cl_items l)" and "cd_distance (f (cl_items l ! i)) = cd_distance (cl_items l ! i)"
  shows "in_range D (candidate_update f i l) \<and> potential D (candidate_update f i l) = potential D l"
proof -
  let ?l = "candidate_update f i l"
  have m: "map cd_distance (cl_items ?l) = map cd_distance (cl_items l)"
    using assms(2,3) by (simp add: candidate_update_def map_update) (metis length_map list_update_id nth_map)
  have "cd_distance ` set (cl_items ?l) = cd_distance ` set (cl_items l)" using m by (metis set_map)
  then have "\<forall>c \<in> set (cl_items ?l). cd_distance c \<in> D"
    using assms(1) unfolding in_range_def by (metis imageE imageI)
  then have "in_range D ?l" using assms(1) by (simp add: in_range_def) (simp add: candidate_update_def)
  moreover have S: "(\<Sum>c \<in># mset xs. rank D (cd_distance c)) = sum_list (map (rank D) (map cd_distance xs))" for xs
    by (simp add: sum_mset_sum_list comp_def flip: mset_map)
  have "potential D ?l = potential D l" unfolding potential_def S m by (simp add: candidate_update_def)
  ultimately show ?thesis by blast
qed

definition unvisited :: "DiskannCandidateList \<Rightarrow> nat" where
  "unvisited l = length (filter (\<lambda>c. \<not> cd_visited c) (cl_items l))"

lemma unvisited_update:
  assumes "i < length (cl_items l)"
  shows "unvisited (candidate_update f i l) + (if cd_visited (cl_items l ! i) then 0 else 1)
    = unvisited l + (if cd_visited (f (cl_items l ! i)) then 0 else 1)"
  unfolding unvisited_def candidate_update_def
  by (subst (2) id_take_nth_drop [OF assms]) (simp add: upd_conv_take_nth_drop [OF assms])

text \<open>A round visits one more candidate or lowers the potential.\<close>

lemma visit_progress:
  fixes v :: DiskannVisitedSet
  assumes "\<forall>d \<in> search_distances E col q dims et qq g. \<not> isnan d"
    and "diskann_candidate_list_next_unvisited l = Some idx" and "in_range (search_distances E col q dims et qq g) l"
  defines "D \<equiv> search_distances E col q dims et qq g" and "l' \<equiv> fst (search_visit E col q dims et qq g idx l v)"
  shows "in_range D l' \<and> ((potential D l', unvisited l'), (potential D l, unvisited l)) \<in> less_than <*lex*> less_than"
proof -
  let ?P = "\<lambda>l'. in_range D l' \<and> (potential D l' < potential D l \<or> (potential D l' = potential D l \<and> unvisited l' < unvisited l))"
  have i: "idx < length (cl_items l)" "\<not> cd_visited (cl_items l ! idx)" using next_unvisited_Some [OF assms(2)] by auto
  have fin: "finite D" by (simp add: D_def finite_search_distances)
  have "?P l'" unfolding l'_def
  proof (rule visit_rule [where P = ?P])
    have "unvisited (candidate_update (cd_visited_update (\<lambda>_. True)) idx l) < unvisited l"
      using unvisited_update [OF i(1), of "cd_visited_update (\<lambda>_. True)"] i(2) by simp
    then show "?P (candidate_update (cd_visited_update (\<lambda>_. True)) idx l)"
      using update_in_range [OF assms(3) i(1), of "cd_visited_update (\<lambda>_. True)"] by (simp add: D_def)
  next
    fix l1 r d assume "?P l1" "d \<in> search_distances E col q dims et qq g"
    then show "?P (fst (diskann_candidate_list_insert l1 r d))"
      using insert_potential [OF fin _ _ , of d l1 r] assms(1) by (auto simp: D_def)
  next
    fix l1 r assume P: "?P l1"
    show "?P (confirm_rowid r l1)"
    proof (cases rule: confirm_cases [of r l1])
      case 1
      then show ?thesis using P by simp
    next
      case (2 i)
      then show ?thesis using P update_in_range [of D l1 i "cd_confirmed_update (\<lambda>_. True)"]
          unvisited_update [OF 2(1), of "cd_confirmed_update (\<lambda>_. True)"] by (auto split: if_splits)
    qed
  qed
  then show ?thesis by auto
qed

lemma search_ends:
  assumes "\<forall>d \<in> search_distances E col q dims et (query_quantized E col q dims et) g. \<not> isnan d"
  shows "\<exists>r. diskann_search E col q dims et k s g = Some r"
proof (cases rule: search_starts [OF refl, of E col q dims et k s g])
  case (2 l v qq)
  define D where "D = search_distances E col q dims et qq g"
  have "in_range D l" using 2(2,3) by (auto simp: in_range_def D_def)
  then have "\<exists>l'. search_loop (search_visit E col q dims et qq g) l v = Some l'"
    by (intro search_loop_ends [where P = "\<lambda>l v. in_range D l" and m = "\<lambda>l. (potential D l, unvisited l)",
          OF wf_lex_prod [OF wf_less_than wf_less_than]])
      (use visit_progress [OF assms [folded 2(1)]] in \<open>auto simp: D_def\<close>)
  then show ?thesis using 2(4) by auto
qed auto

section \<open>Order of the results\<close>

lemma update_cl_ok:
  assumes "cl_ok l" and "i < length (cl_items l)" and "cd_distance (f (cl_items l ! i)) = cd_distance (cl_items l ! i)"
    and "cd_rowid (f (cl_items l ! i)) = cd_rowid (cl_items l ! i)"
  shows "cl_ok (candidate_update f i l)"
proof -
  let ?items = "(cl_items l)[i := f (cl_items l ! i)]"
  have m: "map cd_distance ?items = map cd_distance (cl_items l)" "map cd_rowid ?items = map cd_rowid (cl_items l)"
    using assms(2-4) by (simp_all add: map_update) (metis length_map list_update_id nth_map)+
  have S: "sorted_wrt cd_le xs = sorted_wrt fp_le (map cd_distance xs)" for xs by (simp add: sorted_wrt_map)
  have N: "(\<forall>c \<in> set xs. \<not> isnan (cd_distance c)) = (\<forall>d \<in> set (map cd_distance xs). \<not> isnan d)" for xs by simp
  have u: "cl_items (candidate_update f i l) = ?items" "cl_capacity (candidate_update f i l) = cl_capacity l"
    by (simp_all add: candidate_update_def)
  show ?thesis using assms(1) unfolding cl_ok_def u S N m by simp
qed

lemma insert_cl_ok:
  assumes "cl_ok l" and "\<not> isnan d"
  shows "cl_ok (fst (diskann_candidate_list_insert l r d))"
proof (cases "r \<in> cd_rowid ` set (cl_items l)")
  case True
  then obtain i where "i < length (cl_items l)" "cd_rowid (cl_items l ! i) = r" by (auto simp: in_set_conv_nth)
  from insert_known [OF assms this] show ?thesis by blast
next
  case False
  from insert_new [OF assms(1) False assms(2)] show ?thesis by blast
qed

lemma search_sorted:
  assumes "diskann_search E col q dims et k s g = Some (Inr found)"
    and "\<forall>d \<in> search_distances E col q dims et (query_quantized E col q dims et) g. \<not> isnan d"
  shows "sorted_wrt (\<lambda>x y. fp_le (snd x) (snd y)) found"
proof (cases rule: search_starts [OF assms(1)])
  case (2 l v qq)
  let ?P = "\<lambda>l (v :: DiskannVisitedSet). cl_ok l"
  obtain l' where l': "search_loop (search_visit E col q dims et qq g) l v = Some l'" "found = search_results (nat k) l'"
    using 2(4) by (cases "search_loop (search_visit E col q dims et qq g) l v") auto
  have "?P l v" using 2(1-3) assms(2) by (auto simp: cl_ok_def)
  then have "\<exists>v'. ?P l' v' \<and> diskann_candidate_list_next_unvisited l' = None"
  proof (rule search_loop_inv [where P = ?P, OF l'(1)])
    fix i l v assume i: "diskann_candidate_list_next_unvisited l = Some i" "cl_ok l"
    show "cl_ok (fst (search_visit E col q dims et qq g i l v))"
    proof (rule visit_rule)
      show "cl_ok (candidate_update (cd_visited_update (\<lambda>_. True)) i l)"
        using i next_unvisited_Some by (intro update_cl_ok) auto
    next
      fix l r d assume "cl_ok l" "d \<in> search_distances E col q dims et qq g"
      then show "cl_ok (fst (diskann_candidate_list_insert l r d))" using assms(2) 2(1) insert_cl_ok by blast
    next
      fix l r assume "cl_ok l"
      then show "cl_ok (confirm_rowid r l)" by (cases rule: confirm_cases [of r l]) (auto intro: update_cl_ok)
    qed
  qed
  then have "sorted_wrt cd_le (cl_items l')" by (auto simp: cl_ok_def)
  then show ?thesis unfolding l'(2) search_results_def
    by (intro sorted_wrt_take) (simp add: sorted_wrt_map sorted_wrt_filter)
qed (use assms in auto)

end
