(* ===== verification/GraphInvariant.thy ===== *)
theory GraphInvariant
  imports NodeFacts DiskannSearch Prune
begin

text \<open>
  The invariant of an index: nodes have blobs of the configured size, a node's valid slots name
  different rows other than the node itself, and every row a slot names has a stored vector.
  Insertion and deletion keep it, which is why a deleted row leaves no trace in the graph.
\<close>

section \<open>The invariant\<close>

definition linked :: "VectorColumnDefinition \<Rightarrow> diskann_state \<Rightarrow> int \<Rightarrow> bool" where
  "linked col g x \<longleftrightarrow> (\<exists>r node. tbl_get (dg_nodes g) r = Some node \<and> neighbor_of col node x)"

definition stored :: "diskann_state \<Rightarrow> int \<Rightarrow> bool" where
  "stored g x \<longleftrightarrow> tbl_get (dg_vectors g) x \<noteq> None"

text \<open>\<open>gone\<close> are rows whose vectors are deleted while slots may still name them.\<close>

definition graph_base :: "VectorColumnDefinition \<Rightarrow> int set \<Rightarrow> diskann_state \<Rightarrow> bool" where
  "graph_base col gone g \<longleftrightarrow>
     tbl_ok (dg_vectors g) \<and> tbl_ok (dg_nodes g) \<and> tbl_ok (dg_buffer g) \<and>
     (\<forall>x. stored g x \<longrightarrow> is_i64 x) \<and>
     (\<forall>r node. tbl_get (dg_nodes g) r = Some node \<longrightarrow> node_ok col r node \<and> stored g r) \<and>
     (\<forall>x. linked col g x \<longrightarrow> stored g x \<or> x \<in> gone) \<and>
     (\<forall>x. tbl_get (dg_buffer g) x \<noteq> None \<longrightarrow> stored g x)"

text \<open>Rows in the buffer are not in the graph yet.\<close>

definition graph_ok :: "VectorColumnDefinition \<Rightarrow> diskann_state \<Rightarrow> bool" where
  "graph_ok col g \<longleftrightarrow> graph_base col {} g \<and>
     (\<forall>x. tbl_get (dg_buffer g) x \<noteq> None \<longrightarrow> \<not> linked col g x \<and> tbl_get (dg_nodes g) x = None) \<and>
     (dk_buffer_threshold (vc_diskann col) \<le> 0 \<longrightarrow> dg_buffer g = [])"

lemma graph_baseD:
  assumes "graph_base col gone g"
  shows "tbl_ok (dg_vectors g)" and "tbl_ok (dg_nodes g)" and "tbl_ok (dg_buffer g)"
    and "stored g x \<Longrightarrow> is_i64 x" and "tbl_get (dg_nodes g) r = Some node \<Longrightarrow> node_ok col r node"
    and "tbl_get (dg_nodes g) r = Some node \<Longrightarrow> stored g r"
    and "linked col g x \<Longrightarrow> stored g x \<or> x \<in> gone" and "tbl_get (dg_buffer g) x \<noteq> None \<Longrightarrow> stored g x"
  using assms unfolding graph_base_def by blast+

lemma linkedI: "tbl_get (dg_nodes g) r = Some node \<Longrightarrow> neighbor_of col node x \<Longrightarrow> linked col g x"
  unfolding linked_def by blast

lemma stored_simps [simp]:
  "stored (g\<lparr>dg_nodes := n\<rparr>) = stored g" "stored (g\<lparr>dg_buffer := b\<rparr>) = stored g" "stored (g\<lparr>dg_medoid := m\<rparr>) = stored g"
  by (simp_all add: stored_def fun_eq_iff)

lemma linked_simps [simp]:
  "linked col (g\<lparr>dg_vectors := v\<rparr>) = linked col g" "linked col (g\<lparr>dg_buffer := b\<rparr>) = linked col g"
  "linked col (g\<lparr>dg_medoid := m\<rparr>) = linked col g"
  by (simp_all add: linked_def fun_eq_iff)

text \<open>What changes a graph only by writing nodes: the vectors and the buffer stay.\<close>

definition same_rows :: "diskann_state \<Rightarrow> diskann_state \<Rightarrow> bool" where
  "same_rows g g' \<longleftrightarrow> dg_vectors g' = dg_vectors g \<and> dg_buffer g' = dg_buffer g"

lemma same_rows_refl [simp]: "same_rows g g"
  by (simp add: same_rows_def)

lemma same_rows_trans: "same_rows g g' \<Longrightarrow> same_rows g' g'' \<Longrightarrow> same_rows g g''"
  by (simp add: same_rows_def)

lemma same_rows_stored: "same_rows g g' \<Longrightarrow> stored g' = stored g"
  by (simp add: same_rows_def stored_def fun_eq_iff)

lemma put_node_links:
  assumes "tbl_ok (dg_nodes g)" and "linked col (g\<lparr>dg_nodes := tbl_put (dg_nodes g) r node\<rparr>) x"
  shows "neighbor_of col node x \<or> linked col g x"
  using assms(2) unfolding linked_def by (auto simp: tb.get_put [OF assms(1)] split: if_splits)

lemma put_node_base:
  assumes "graph_base col gone g" and "node_ok col r node" and "stored g r"
    and "\<And>x. neighbor_of col node x \<Longrightarrow> stored g x \<or> x \<in> gone"
  shows "graph_base col gone (g\<lparr>dg_nodes := tbl_put (dg_nodes g) r node\<rparr>)"
proof -
  note B = graph_baseD [OF assms(1)]
  have "node_ok col k n \<and> stored g k" if "tbl_get (tbl_put (dg_nodes g) r node) k = Some n" for k n
    using that assms(2,3) B(5,6) by (auto simp: tb.get_put [OF B(2)] split: if_splits)
  moreover have "stored g x \<or> x \<in> gone" if "linked col (g\<lparr>dg_nodes := tbl_put (dg_nodes g) r node\<rparr>) x" for x
    using put_node_links [OF B(2) that] assms(4) B(7) by blast
  ultimately show ?thesis using assms(1) B(2) unfolding graph_base_def by (simp add: tb.ok_put)
qed

lemma readable_stored: "diskann_vector_read E x g = Inr v \<Longrightarrow> stored g x"
  by (simp add: vector_read_Inr stored_def)

section \<open>Pruning\<close>

lemma remove_self_set:
  assumes "distinct (map fst cs)"
  shows "distinct (map fst (remove_self p cs)) \<and> fst ` set (remove_self p cs) = fst ` set cs - {p}"
proof (cases "List.find (\<lambda>i. fst (cs ! i) = p) [0..<length cs]")
  case None
  then have "\<forall>i < length cs. fst (cs ! i) \<noteq> p" by (auto simp: find_None_iff)
  then have "p \<notin> fst ` set cs" by (metis imageE in_set_conv_nth)
  then show ?thesis using None assms by (simp add: remove_self_def)
next
  case (Some i)
  then have i: "i < length cs" "fst (cs ! i) = p" by (auto simp: find_Some_iff)
  then obtain ys z where yz: "cs = ys @ [z]" by (metis append_butlast_last_id length_0_conv not_less_zero)
  have e: "remove_self p cs = (if i = length ys then ys else ys[i := z])"
    using Some i(1) by (auto simp: remove_self_def yz list_update_append)
  show ?thesis
  proof (cases "i = length ys")
    case True
    then have "z = cs ! i" by (simp add: yz)
    then show ?thesis using e True i(2) assms by (auto simp: yz)
  next
    case False
    then have il: "i < length ys" using i(1) yz by simp
    have p: "fst (ys ! i) = p" using i(2) il by (simp add: yz nth_append)
    have split: "ys = take i ys @ ys ! i # drop (Suc i) ys" by (rule id_take_nth_drop [OF il])
    have u: "ys[i := z] = take i ys @ z # drop (Suc i) ys" by (rule upd_conv_take_nth_drop [OF il])
    have m: "mset (map fst ys) = add_mset p (mset (map fst (take i ys @ drop (Suc i) ys)))"
      by (subst split) (simp add: p)
    have d: "distinct (map fst ys)" "fst z \<notin> fst ` set ys" using assms by (auto simp: yz)
    have m2: "mset (map fst (ys[i := z])) = add_mset (fst z) (mset (map fst (take i ys @ drop (Suc i) ys)))"
      unfolding u by simp
    have rest: "set (map fst (take i ys @ drop (Suc i) ys)) = fst ` set ys - {p}"
      "distinct (map fst (take i ys @ drop (Suc i) ys))"
    proof -
      have "distinct (p # map fst (take i ys @ drop (Suc i) ys))"
        using mset_eq_imp_distinct_iff [of "map fst ys" "p # map fst (take i ys @ drop (Suc i) ys)"] m d(1) by simp
      then show "distinct (map fst (take i ys @ drop (Suc i) ys))" by simp
      have "fst ` set ys = insert p (set (map fst (take i ys @ drop (Suc i) ys)))"
        using m by (metis list.set_map set_mset_add_mset_insert set_mset_mset)
      then show "set (map fst (take i ys @ drop (Suc i) ys)) = fst ` set ys - {p}"
        using \<open>distinct (p # _)\<close> by auto
    qed
    have "set (map fst (ys[i := z])) = insert (fst z) (fst ` set ys - {p})"
      using m2 rest(1) by (metis set_mset_add_mset_insert set_mset_mset)
    moreover have "distinct (map fst (ys[i := z]))"
      using mset_eq_imp_distinct_iff [of "map fst (ys[i := z])" "fst z # map fst (take i ys @ drop (Suc i) ys)"]
        m2 rest d(2) by auto
    moreover have "fst z \<noteq> p" using d(2) p il by (metis imageI nth_mem)
    ultimately show ?thesis using e False by (auto simp: yz)
  qed
qed

lemma prune_shift_mset: "j < length cs \<Longrightarrow> mset (prune_shift cs j tmp) = mset (cs[j := tmp])"
proof (induction cs j tmp rule: prune_shift.induct)
  case (2 cs j tmp)
  show ?case
  proof (cases "fp_gt (snd (cs ! j)) (snd tmp)")
    case True
    let ?ds = "cs[Suc j := cs ! j]"
    have "mset (prune_shift cs (Suc j) tmp) = mset (?ds[j := tmp])" using 2 True by simp
    also have "\<dots> = mset (cs[Suc j := tmp])"
    proof -
      have "?ds[j := tmp] = (cs[Suc j := tmp])[j := (cs[Suc j := tmp]) ! Suc j, Suc j := (cs[Suc j := tmp]) ! j]"
        using 2(2) by (simp add: list_update_swap)
      then show ?thesis using 2(2) by (simp only: mset_swap length_list_update)
    qed
    finally show ?thesis .
  qed simp
qed simp

lemma prune_sort_mset: "mset (prune_sort cs) = mset cs"
proof -
  have "mset (fold (\<lambda>i cs. prune_shift cs i (cs ! i)) is ds) = mset ds"
    if "\<forall>i \<in> set is. i < length ds" for "is" and ds :: "(int \<times> f32) list"
    using that
  proof (induction "is" arbitrary: ds)
    case (Cons i "is")
    have m: "mset (prune_shift ds i (ds ! i)) = mset ds" using Cons.prems by (simp add: prune_shift_mset)
    then have "length (prune_shift ds i (ds ! i)) = length ds" by (metis size_mset)
    then show ?case using Cons m by simp
  qed simp
  then show ?thesis unfolding prune_sort_def by simp
qed

lemma robust_prune_rows:
  assumes "diskann_robust_prune E col p cs alpha m g = Inr sel" and "distinct (map fst cs)"
  shows "distinct sel \<and> set sel \<subseteq> fst ` set cs - {p}"
proof (cases "remove_self p cs = []")
  case False
  define ds where "ds = prune_sort (remove_self p cs)"
  define is' where "is' = prune_rounds (robust_covers E col alpha ds g) m (length ds) (replicate (length ds) True) []"
  have sel: "sel = map (\<lambda>i. fst (ds ! i)) is'"
    using assms(1) False by (auto simp: diskann_robust_prune_def Let_def ds_def is'_def)
  have "is' = greedy (robust_covers E col alpha ds g) m (length ds)"
    unfolding is'_def greedy_def by (rule prune_rounds_greedy) (simp_all add: map_replicate_trivial)
  then have i: "distinct is'" "\<forall>i \<in> set is'. i < length ds" using greedy_props by blast+
  have ms: "mset ds = mset (remove_self p cs)" by (simp add: ds_def prune_sort_mset)
  have d: "distinct (map fst ds)" "fst ` set ds = fst ` set cs - {p}"
    using remove_self_set [OF assms(2), of p] ms
    by (metis mset_eq_imp_distinct_iff mset_map, metis mset_eq_setD)
  have "inj_on (\<lambda>i. fst (ds ! i)) (set is')"
  proof (rule inj_onI)
    fix a b assume "a \<in> set is'" "b \<in> set is'" "fst (ds ! a) = fst (ds ! b)"
    then show "a = b" using i(2) nth_eq_iff_index_eq [OF d(1), of a b] by simp
  qed
  then have "distinct sel" using i(1) by (simp add: sel distinct_map)
  moreover have "set sel \<subseteq> fst ` set ds" using i(2) by (auto simp: sel)
  ultimately show ?thesis using d(2) by simp
qed (use assms in \<open>simp add: diskann_robust_prune_def Let_def\<close>)

end
