(* ===== verification/GraphInsert.thy ===== *)
theory GraphInsert
  imports GraphInvariant
begin

text \<open>Inserting a vector keeps the invariant of the index.\<close>

section \<open>Writing a node with its neighbours\<close>

lemma neighbors_loop:
  fixes E :: diskann_env and g :: diskann_state and q :: bytes
  assumes "8 dvd col_n col" and "k \<le> col_n col" and "k \<le> length ns" and "distinct ns" and "self \<notin> set ns"
    and "node_sized col node" and "\<forall>i < col_n col. \<not> diskann_validity_get (dn_validity node) i"
    and "\<forall>x \<in> set ns. is_i64 x"
  defines "f \<equiv> \<lambda>i (node, qvec). case diskann_vector_read E (ns ! i) g of
                Inl _ \<Rightarrow> (node, qvec)
              | Inr neighborVec \<Rightarrow>
                  let qvec = column_quantize E col neighborVec qvec
                  in (put_neighbor col node i (ns ! i) qvec, qvec)"
  defines "node' \<equiv> fst (fold f [0..<k] (node, q))"
  shows "node_ok col self node' \<and> (\<forall>x. neighbor_of col node' x \<longrightarrow> x \<in> set (take k ns) \<and> stored g x)"
  using assms(2,3) unfolding node'_def
proof (induction k)
  case 0
  have "\<not> has_neighbor col node x i" if "i < col_n col" for x i
    using that assms(7) by (simp add: has_neighbor_def)
  then show ?case using assms(6) by (simp add: node_ok_def neighbor_of_def)
next
  case (Suc k)
  define s where "s = fold f [0..<k] (node, q)"
  have IH: "node_ok col self (fst s)" "\<forall>x. neighbor_of col (fst s) x \<longrightarrow> x \<in> set (take k ns) \<and> stored g x"
    using Suc by (simp_all add: s_def)
  have k: "k < col_n col" "k < length ns" using Suc.prems by simp_all
  have fold: "fold f [0..<Suc k] (node, q) = f k s" by (simp add: s_def)
  have tk: "set (take (Suc k) ns) = insert (ns ! k) (set (take k ns))"
    using k(2) by (simp add: take_Suc_conv_app_nth)
  have new: "ns ! k \<notin> set (take k ns)"
    using assms(4) k(2) by (auto simp: in_set_conv_nth nth_eq_iff_index_eq)
  show ?case
  proof (cases "diskann_vector_read E (ns ! k) g")
    case (Inl e)
    then have "f k s = s" by (simp add: f_def split_beta)
    then show ?thesis using IH tk unfolding fold by auto
  next
    case (Inr vec)
    define qv where "qv = column_quantize E col vec (snd s)"
    have fk: "fst (f k s) = put_neighbor col (fst s) k (ns ! k) qv"
      using Inr by (simp add: f_def split_beta qv_def Let_def)
    have i64: "is_i64 (ns ! k)" "ns ! k \<noteq> self" using assms(5,8) k(2) by (auto simp: nth_mem)
    have "\<not> neighbor_of col (fst s) (ns ! k)" using IH(2) new by blast
    then have "node_ok col self (fst (f k s))"
      unfolding fk by (intro put_neighbor_ok [OF IH(1) assms(1) k(1) i64]) simp
    moreover have "x \<in> set (take (Suc k) ns) \<and> stored g x" if "neighbor_of col (fst (f k s)) x" for x
      using put_neighbor_of [OF node_okD(1) [OF IH(1)] assms(1) k(1) i64(1) that [unfolded fk]] IH(2) tk
        readable_stored [OF Inr] by auto
    ultimately show ?thesis unfolding fold by blast
  qed
qed

lemma write_pruned_base:
  assumes "diskann_write_pruned_neighbors E col self ns g = Inr g'" and "graph_base col gone g" and "8 dvd col_n col"
    and "distinct ns" and "self \<notin> set ns" and "\<forall>x \<in> set ns. is_i64 x" and "stored g self"
  shows "graph_base col gone g' \<and> same_rows g g'"
proof -
  obtain node where n: "diskann_node_init (env_faults E) (col_n col) (col_quant col) (vc_dimensions col) = Inr node"
    using assms(1) by (auto simp: diskann_write_pruned_neighbors_def rbind_Inr)
  note N = node_init_ok [OF n assms(3)]
  define node' where "node' = fst (fold (\<lambda>i (node, qvec). case diskann_vector_read E (ns ! i) g of
                Inl _ \<Rightarrow> (node, qvec)
              | Inr neighborVec \<Rightarrow>
                  let qvec = column_quantize E col neighborVec qvec
                  in (put_neighbor col node i (ns ! i) qvec, qvec)) [0..<min (length ns) (col_n col)] (node, ev_junk E))"
  have L: "node_ok col self node' \<and> (\<forall>x. neighbor_of col node' x \<longrightarrow> x \<in> set (take (min (length ns) (col_n col)) ns) \<and> stored g x)"
    unfolding node'_def using N assms(4-6) by (intro neighbors_loop [OF assms(3)]) simp_all
  have "g' = g\<lparr>dg_nodes := tbl_put (dg_nodes g) self node'\<rparr>"
    using assms(1) n by (auto simp: diskann_write_pruned_neighbors_def node'_def diskann_node_write_def split_beta)
  then show ?thesis using put_node_base [OF assms(2), of self node'] L assms(7) by (simp add: same_rows_def)
qed

section \<open>Reverse edges\<close>

lemma validity_count: "diskann_validity_count v n = card {i. i < n \<and> diskann_validity_get v i}"
proof (induction n)
  case (Suc n)
  have "{i. i < Suc n \<and> diskann_validity_get v i} = (if diskann_validity_get v n then insert n else id) {i. i < n \<and> diskann_validity_get v i}"
    by (auto simp: less_Suc_eq)
  then show ?case using Suc by (simp add: diskann_validity_count_def)
qed (simp add: diskann_validity_count_def)

lemma worst_loop:
  fixes h :: "nat \<Rightarrow> f32" and valid :: "nat \<Rightarrow> bool"
  defines "f \<equiv> \<lambda>i (w, d). if \<not> valid i then (w, d) else let e = h i in if fp_gt e d then (Some i, e) else (w, d)"
  shows "fst (fold f [0..<n] (None, d0)) = Some k \<Longrightarrow> k < n \<and> valid k"
proof (induction n)
  case (Suc n)
  obtain w d where s: "fold f [0..<n] (None, d0) = (w, d)" by (cases "fold f [0..<n] (None, d0)")
  then have e: "fold f [0..<Suc n] (None, d0) = f n (w, d)" by simp
  have "w = Some k \<or> (k = n \<and> valid n)"
    using Suc.prems unfolding e by (auto simp: f_def Let_def split: if_splits)
  then show ?case using Suc.IH s by auto
qed simp

lemma worst_valid:
  assumes "worst_neighbor col node q = (Some i, d)"
  shows "i < col_n col \<and> diskann_validity_get (dn_validity node) i"
proof (rule worst_loop)
  show "fst (fold (\<lambda>j (w, d). if \<not> diskann_validity_get (dn_validity node) j then (w, d)
      else let e = diskann_distance_quantized_precomputed q
                        (diskann_neighbor_qvec_get (dn_qvecs node) j (col_quant col) (vc_dimensions col))
                        (vc_dimensions col) (col_quant col) (vc_distance_metric col)
           in if fp_gt e d then (Some j, e) else (w, d)) [0..<col_n col] (None, fp_of_int binary32 (- 1))) = Some i"
    using assms unfolding worst_neighbor_def by simp
qed

lemma reverse_edge_base:
  assumes "diskann_add_reverse_edge E col r target vec g = Inr g'" and "graph_base col gone g" and "8 dvd col_n col"
    and "stored g target" and "target \<noteq> r"
  shows "graph_base col gone g' \<and> same_rows g g'"
proof -
  note B = graph_baseD [OF assms(2)]
  obtain node where node: "tbl_get (dg_nodes g) r = Some node"
    and run: "(if \<exists>i \<in> set [0..<col_n col]. has_neighbor col node target i then Inr g
       else if diskann_validity_count (dn_validity node) (col_n col) < col_n col then
         (case List.find (\<lambda>i. \<not> diskann_validity_get (dn_validity node) i) [0..<col_n col] of
            None \<Rightarrow> diskann_node_write E r node g
          | Some i \<Rightarrow>
              dk_attempt E ''qvec malloc'' r
                (diskann_node_write E r (put_neighbor col node i target (column_quantize E col vec (ev_junk E))) g))
       else
         rbind (diskann_vector_read E r g) (\<lambda>nodeVector.
         dk_attempt E ''qvec malloc'' r
           (let targetQ = column_quantize E col vec (ev_junk E);
                nodeQ = column_quantize E col nodeVector (ev_junk E);
                targetDist = diskann_distance_quantized_precomputed nodeQ targetQ (vc_dimensions col)
                               (col_quant col) (vc_distance_metric col)
            in case worst_neighbor col node nodeQ of
                 (Some worstIdx, worstDist) \<Rightarrow>
                   if fp_lt targetDist worstDist then
                     diskann_node_write E r (put_neighbor col node worstIdx target targetQ) g
                   else Inr g
               | (None, _) \<Rightarrow> Inr g))) = Inr g'"
    using assms(1) unfolding diskann_add_reverse_edge_def rbind_Inr node_read_Inr by blast
  have ok: "node_ok col r node" "stored g r" "is_i64 target" using B(4,5,6) node assms(4) by auto
  have put: "graph_base col gone (g\<lparr>dg_nodes := tbl_put (dg_nodes g) r (put_neighbor col node i target q)\<rparr>)"
    if "i < col_n col" "\<not> neighbor_of col node target" for i q
  proof (rule put_node_base [OF assms(2) _ ok(2)])
    show "node_ok col r (put_neighbor col node i target q)"
      using that(2) by (intro put_neighbor_ok [OF ok(1) assms(3) that(1) ok(3) assms(5)]) simp
    show "stored g x \<or> x \<in> gone" if x: "neighbor_of col (put_neighbor col node i target q) x" for x
      using put_neighbor_of [OF node_okD(1) [OF ok(1)] assms(3) \<open>i < col_n col\<close> ok(3) x] assms(4) B(7) linkedI [OF node]
      by blast
  qed
  have same: "same_rows g (g\<lparr>dg_nodes := n\<rparr>)" for n by (simp add: same_rows_def)
  show ?thesis
  proof (cases "g' = g")
    case False
    have none: "\<not> (\<exists>i \<in> set [0..<col_n col]. has_neighbor col node target i)"
    proof
      assume "\<exists>i \<in> set [0..<col_n col]. has_neighbor col node target i"
      then have "g' = g" using run by (simp only: if_True) simp
      then show False using False by simp
    qed
    then have no: "\<not> neighbor_of col node target" by (simp add: neighbor_of_def)
    note run' = run [unfolded if_not_P [OF none]]
    consider "g' = g\<lparr>dg_nodes := tbl_put (dg_nodes g) r node\<rparr>"
      | i q where "i < col_n col" "g' = g\<lparr>dg_nodes := tbl_put (dg_nodes g) r (put_neighbor col node i target q)\<rparr>"
    proof (cases "diskann_validity_count (dn_validity node) (col_n col) < col_n col")
      case True
      then show thesis using run' that
        by (cases "List.find (\<lambda>i. \<not> diskann_validity_get (dn_validity node) i) [0..<col_n col]")
          (auto simp: diskann_node_write_def find_Some_iff)
    next
      case full: False
      then obtain nv where nv: "(let targetQ = column_quantize E col vec (ev_junk E);
                nodeQ = column_quantize E col nv (ev_junk E);
                targetDist = diskann_distance_quantized_precomputed nodeQ targetQ (vc_dimensions col)
                               (col_quant col) (vc_distance_metric col)
            in case worst_neighbor col node nodeQ of
                 (Some worstIdx, worstDist) \<Rightarrow>
                   if fp_lt targetDist worstDist then
                     diskann_node_write E r (put_neighbor col node worstIdx target targetQ) g
                   else Inr g
               | (None, _) \<Rightarrow> Inr g) = Inr g'"
        using run' by (auto simp: rbind_Inr)
      obtain w d where wn: "worst_neighbor col node (column_quantize E col nv (ev_junk E)) = (w, d)"
        by (cases "worst_neighbor col node (column_quantize E col nv (ev_junk E))")
      show thesis
      proof (cases w)
        case None
        then show thesis using nv False wn by (simp add: Let_def)
      next
        case (Some i)
        then have "i < col_n col" using worst_valid wn by blast
        then show thesis using nv False wn Some that(2) by (auto simp: Let_def diskann_node_write_def split: if_splits)
      qed
    qed
    then show ?thesis
    proof cases
      case 1
      have "graph_base col gone g'"
        unfolding 1 by (rule put_node_base [OF assms(2) ok(1,2)]) (use B(7) linkedI [OF node] in blast)
      then show ?thesis using 1 same by simp
    next
      case 2
      then show ?thesis using put [OF 2(1) no] same by simp
    qed
  qed (use assms(2) in simp)
qed

lemma reverse_edges_base:
  assumes "graph_base col gone g" and "8 dvd col_n col" and "stored g target" and "target \<notin> set ns"
  shows "graph_base col gone (add_reverse_edges E col ns target vec g) \<and> same_rows g (add_reverse_edges E col ns target vec g)"
  using assms(1,3,4) unfolding add_reverse_edges_def
proof (induction ns arbitrary: g)
  case (Cons n ns)
  define g1 where "g1 = (case diskann_add_reverse_edge E col n target vec g of Inl _ \<Rightarrow> g | Inr g' \<Rightarrow> g')"
  have "graph_base col gone g1 \<and> same_rows g g1"
    using reverse_edge_base [of E col n target vec g _ gone] Cons.prems assms(2)
    by (auto simp: g1_def split: sum.split)
  moreover from this have "stored g1 target" using same_rows_stored Cons.prems(2) by metis
  ultimately show ?case using Cons.IH [of g1] Cons.prems(3) same_rows_trans by (auto simp: g1_def [symmetric])
qed simp

section \<open>Insertion\<close>

lemma insert_graph_base:
  assumes "diskann_insert_graph E col r vec g = Some (Inr g')" and "graph_base col {} g" and "8 dvd col_n col"
    and "stored g r"
  shows "graph_base col {} g' \<and> same_rows g g'"
proof -
  note B = graph_baseD [OF assms(2)]
  consider (empty) node where "diskann_node_init (env_faults E) (col_n col) (col_quant col) (vc_dimensions col) = Inr node"
      "rbind (diskann_node_write E r node g) (diskann_medoid_set E (Some r)) = Inr g'"
    | (search) found sel g1 k s where
      "diskann_search E col vec (vc_dimensions col) (vc_element_type col) k s g = Some (Inr found)"
      "diskann_robust_prune E col r found (dk_alpha (vc_diskann col)) (col_n col) g = Inr sel"
      "diskann_write_pruned_neighbors E col r sel g = Inr g1" "g' = add_reverse_edges E col sel r vec g1"
    using assms(1) by (auto simp: diskann_insert_graph_def Let_def rbind_Inr split: sum.splits option.splits if_splits)
  then show ?thesis
  proof cases
    case empty
    note N = node_init_ok [OF empty(1) assms(3)]
    have "\<not> has_neighbor col node x i" if "i < col_n col" for x i
      using that N by (simp add: has_neighbor_def)
    then have ok: "node_ok col r node" "\<And>x. \<not> neighbor_of col node x"
      using N by (auto simp: node_ok_def neighbor_of_def)
    have "graph_base col {} (g\<lparr>dg_nodes := tbl_put (dg_nodes g) r node\<rparr>)"
      by (rule put_node_base [OF assms(2) ok(1) assms(4)]) (use ok(2) in blast)
    moreover have "graph_base col {} (h\<lparr>dg_medoid := m\<rparr>) = graph_base col {} h" for h m
      by (simp add: graph_base_def)
    ultimately show ?thesis using empty(2)
      by (auto simp: rbind_Inr diskann_node_write_def diskann_medoid_set_def same_rows_def split: option.splits)
  next
    case search
    note F = search_sound [OF search(1)]
    have st: "stored g x" if "x \<in> fst ` set found" for x
      using F that readable_stored by (fastforce simp: readable_def)
    have sel: "distinct sel" "set sel \<subseteq> fst ` set found - {r}" using robust_prune_rows [OF search(2)] F by blast+
    have "graph_base col {} g1 \<and> same_rows g g1"
      using write_pruned_base [OF search(3) assms(2,3) sel(1) _ _ assms(4)] sel(2) st B(4) by blast
    moreover from this have "stored g1 r" using assms(4) same_rows_stored by metis
    ultimately show ?thesis
      using reverse_edges_base [of col "{}" g1 r sel E vec] assms(3) sel(2) search(4) same_rows_trans by blast
  qed
qed

lemma flush_rows_base:
  assumes "flush_rows E col rows g = Some (Inr g')" and "graph_base col {} g" and "8 dvd col_n col"
    and "\<forall>x \<in> fst ` set rows. stored g x"
  shows "graph_base col {} g' \<and> same_rows g g'"
  using assms(1,2,4)
proof (induction rows arbitrary: g)
  case (Cons row rows)
  obtain r v where row: "row = (r, v)" by (cases row)
  show ?case
  proof (cases "v = []")
    case True
    then show ?thesis using Cons by (simp add: row)
  next
    case False
    then obtain g1 where g1: "diskann_insert_graph E col r v g = Some (Inr g1)" "flush_rows E col rows g1 = Some (Inr g')"
      using Cons.prems(1) by (auto simp: row split: option.splits sum.splits)
    have 1: "graph_base col {} g1 \<and> same_rows g g1"
      using Cons.prems(3) by (intro insert_graph_base [OF g1(1) Cons.prems(2) assms(3)]) (simp add: row)
    then have "\<forall>x \<in> fst ` set rows. stored g1 x" using same_rows_stored [of g g1] Cons.prems(3) by simp
    with 1 show ?thesis using Cons.IH [OF g1(2)] same_rows_trans by blast
  qed
qed simp

lemma buffer_cleared:
  assumes "graph_base col {} g"
  shows "graph_ok col (g\<lparr>dg_buffer := []\<rparr>)"
  using assms by (simp add: graph_ok_def graph_base_def tbl_get_def)

text \<open>Storing the vector of a new row, and putting the row into the buffer.\<close>

lemma vector_write_base:
  fixes v :: bytes
  assumes "graph_base col {} g" and "is_i64 r" and "\<not> stored g r"
  defines "g1 \<equiv> g\<lparr>dg_vectors := tbl_put (dg_vectors g) r v\<rparr>"
  shows "graph_base col {} g1" and "stored g1 x \<longleftrightarrow> x = r \<or> stored g x"
    and "\<not> linked col g1 r" and "tbl_get (dg_nodes g1) r = None" and "tbl_get (dg_buffer g1) r = None"
    and "tbl_get (dg_vectors g1) x = (if x = r then Some v else tbl_get (dg_vectors g) x)"
proof -
  note B = graph_baseD [OF assms(1)]
  have st: "stored g1 x \<longleftrightarrow> x = r \<or> stored g x" for x
    by (auto simp: stored_def g1_def tb.get_put [OF B(1)])
  then show "stored g1 x \<longleftrightarrow> x = r \<or> stored g x" .
  show "graph_base col {} g1"
    using assms(1,2) st B(1) unfolding graph_base_def by (simp add: g1_def tb.ok_put)
  have "\<not> linked col g r" using B(7) assms(3) by blast
  then show "\<not> linked col g1 r" by (simp add: g1_def)
  show "tbl_get (dg_nodes g1) r = None" using B(6) [of r] assms(3) by (cases "tbl_get (dg_nodes g) r") (auto simp: g1_def)
  show "tbl_get (dg_buffer g1) r = None" using B(8) [of r] assms(3) by (cases "tbl_get (dg_buffer g) r") (auto simp: g1_def)
  show "tbl_get (dg_vectors g1) x = (if x = r then Some v else tbl_get (dg_vectors g) x)"
    by (simp add: g1_def tb.get_put [OF B(1)])
qed

lemma buffer_write_ok:
  assumes "graph_base col {} g" and "0 < dk_buffer_threshold (vc_diskann col)" and "stored g r" and "\<not> linked col g r"
    and "tbl_get (dg_nodes g) r = None"
    and "\<forall>x. tbl_get (dg_buffer g) x \<noteq> None \<longrightarrow> \<not> linked col g x \<and> tbl_get (dg_nodes g) x = None"
  shows "graph_ok col (g\<lparr>dg_buffer := tbl_put (dg_buffer g) r v\<rparr>)"
proof -
  note B = graph_baseD [OF assms(1)]
  have buf: "tbl_get (tbl_put (dg_buffer g) r v) x \<noteq> None \<longleftrightarrow> x = r \<or> tbl_get (dg_buffer g) x \<noteq> None" for x
    by (simp add: tb.get_put [OF B(3)])
  have "graph_base col {} (g\<lparr>dg_buffer := tbl_put (dg_buffer g) r v\<rparr>)"
    using assms(1,3) unfolding graph_base_def by (simp add: buf tb.ok_put del: not_None_eq)
  then show ?thesis using assms(2,4,5,6) unfolding graph_ok_def by (auto simp: buf simp del: not_None_eq)
qed

lemma flush_ok:
  assumes "diskann_flush_buffer E col g = Some (Inr g')" and "graph_base col {} g" and "8 dvd col_n col"
  shows "graph_ok col g' \<and> dg_vectors g' = dg_vectors g"
proof -
  obtain rows g3 where 3: "flush_rows E col rows g = Some (Inr g3)"
    "rows = takeWhile (\<lambda>(rowid, vector). ev_fault E ''flush step'' rowid = None) (dg_buffer g)" "g' = g3\<lparr>dg_buffer := []\<rparr>"
    using assms(1) by (auto simp: diskann_flush_buffer_def split: option.splits sum.splits)
  have "stored g x" if "x \<in> fst ` set rows" for x
  proof -
    have "x \<in> fst ` set (dg_buffer g)" using that 3(2) by (auto dest: set_takeWhileD)
    then have "tbl_get (dg_buffer g) x \<noteq> None" by (simp add: tbl_get_def map_of_eq_None_iff)
    then show ?thesis by (rule graph_baseD(8) [OF assms(2)])
  qed
  then have "graph_base col {} g3 \<and> same_rows g g3" by (intro flush_rows_base [OF 3(1) assms(2,3)]) blast
  then show ?thesis using buffer_cleared [of col g3] 3(3) by (simp add: same_rows_def)
qed

lemma insert_runs:
  assumes "diskann_insert E col r vec g = Some (Inr g')"
  defines "v \<equiv> take (vector_column_byte_size col) vec"
  defines "g1 \<equiv> g\<lparr>dg_vectors := tbl_put (dg_vectors g) r v\<rparr>"
  shows "if 0 < dk_buffer_threshold (vc_diskann col)
    then g' = g1\<lparr>dg_buffer := tbl_put (dg_buffer g) r v\<rparr>
      \<or> diskann_flush_buffer E col (g1\<lparr>dg_buffer := tbl_put (dg_buffer g) r v\<rparr>) = Some (Inr g')
    else diskann_insert_graph E col r vec g1 = Some (Inr g')"
proof -
  have w: "diskann_vector_write E r vec (vector_column_byte_size col) g = Inr g1"
    using assms(1) by (auto simp: diskann_insert_def Let_def diskann_vector_write_def g1_def v_def split: sum.splits)
  note ins = assms(1) [unfolded diskann_insert_def Let_def w sum.case]
  show ?thesis
  proof (cases "0 < dk_buffer_threshold (vc_diskann col)")
    case True
    have b: "diskann_buffer_write E r vec (vector_column_byte_size col) g1 = Inr g2 \<Longrightarrow>
        g2 = g1\<lparr>dg_buffer := tbl_put (dg_buffer g) r v\<rparr>" for g2
      by (auto simp: diskann_buffer_write_def tbl_insert_def v_def g1_def split: if_splits sum.splits)
    show ?thesis using ins [unfolded if_P [OF True]] True
      by (auto simp: rbind_Inr dest!: b split: sum.splits if_splits)
  qed (use ins in simp)
qed

lemma insert_graph_ok:
  assumes "diskann_insert E col r vec g = Some (Inr g')" and "graph_ok col g" and "dcol_ok col"
    and "is_i64 r" and "\<not> stored g r"
  shows "graph_ok col g' \<and> tbl_get (dg_vectors g') x
    = (if x = r then Some (take (vector_column_byte_size col) vec) else tbl_get (dg_vectors g) x)"
proof -
  define v where "v = take (vector_column_byte_size col) vec"
  define g1 where "g1 = g\<lparr>dg_vectors := tbl_put (dg_vectors g) r v\<rparr>"
  have dvd: "8 dvd col_n col" using assms(3) by (simp add: dcol_ok_def)
  have base: "graph_base col {} g" using assms(2) by (simp add: graph_ok_def)
  note V = vector_write_base [OF base assms(4,5), of v, folded g1_def]
  note runs = insert_runs [OF assms(1), folded v_def, folded g1_def]
  show ?thesis
  proof (cases "0 < dk_buffer_threshold (vc_diskann col)")
    case False
    then have i: "diskann_insert_graph E col r vec g1 = Some (Inr g')" using runs by simp
    have R: "graph_base col {} g' \<and> same_rows g1 g'" by (rule insert_graph_base [OF i V(1) dvd]) (simp add: V(2))
    then have "dg_buffer g' = []" using assms(2) False by (simp add: graph_ok_def same_rows_def g1_def)
    then have "graph_ok col g'" using R by (simp add: graph_ok_def tbl_get_def)
    then show ?thesis using R V(6) [of x] by (simp add: same_rows_def v_def)
  next
    case True
    define g2 where "g2 = g1\<lparr>dg_buffer := tbl_put (dg_buffer g) r v\<rparr>"
    have "graph_ok col (g1\<lparr>dg_buffer := tbl_put (dg_buffer g1) r v\<rparr>)"
      using assms(2) by (intro buffer_write_ok [OF V(1) True _ V(3,4)]) (simp_all add: V(2) graph_ok_def, simp add: g1_def)
    then have 2: "graph_ok col g2" by (simp add: g2_def g1_def)
    have vec: "tbl_get (dg_vectors g2) x = (if x = r then Some v else tbl_get (dg_vectors g) x)"
      using V(6) [of x] by (simp add: g2_def)
    consider "g' = g2" | "diskann_flush_buffer E col g2 = Some (Inr g')" using runs True by (auto simp: g2_def)
    then show ?thesis
    proof cases
      case 1
      then show ?thesis using 2 vec by (simp add: v_def)
    next
      case fl: 2
      have "graph_base col {} g2" using 2 by (simp add: graph_ok_def)
      then show ?thesis using flush_ok [OF fl _ dvd] vec by (simp add: v_def)
    qed
  qed
qed

end
