(* ===== verification/GraphDelete.thy ===== *)
theory GraphDelete
  imports GraphInsert
begin

text \<open>Deleting a vector keeps the invariant of the index and leaves no trace of the row.\<close>

section \<open>Repairing the neighbours\<close>

text \<open>No step of a deletion adds a link to a row that nothing linked to before.\<close>

definition fewer_links :: "VectorColumnDefinition \<Rightarrow> diskann_state \<Rightarrow> diskann_state \<Rightarrow> bool" where
  "fewer_links col g g' \<longleftrightarrow> (\<forall>x. linked col g' x \<longrightarrow> linked col g x) \<and>
     (\<forall>r. tbl_get (dg_nodes g') r \<noteq> None \<longrightarrow> tbl_get (dg_nodes g) r \<noteq> None)"

lemma fewer_links_refl [simp]: "fewer_links col g g"
  by (simp add: fewer_links_def)

lemma fewer_links_trans: "fewer_links col g g' \<Longrightarrow> fewer_links col g' g'' \<Longrightarrow> fewer_links col g g''"
  by (simp add: fewer_links_def)

lemma repair_fill_ok:
  fixes ns :: "int list" and deleted :: int and E :: diskann_env
  assumes "node_ok col self node" and "8 dvd col_n col" and "i < col_n col" and "\<forall>x. stored g x \<longrightarrow> is_i64 x"
  defines "node' \<equiv> repair_fill E col self deleted ns i node g"
  shows "node_ok col self node' \<and>
    (\<forall>x. neighbor_of col node' x \<longrightarrow> neighbor_of col node x \<or> (x \<in> set ns \<and> stored g x \<and> x \<noteq> deleted))"
proof (cases "repair_candidate E col self deleted ns node g")
  case None
  then show ?thesis using assms(1) by (simp add: node'_def repair_fill_def)
next
  case (Some c)
  then have c: "c \<in> set ns" "c \<noteq> self" "c \<noteq> deleted" "\<not> neighbor_of col node c" "\<not> isl (diskann_vector_read E c g)"
    by (auto simp: repair_candidate_def find_Some_iff neighbor_of_def)
  have st: "stored g c" using c(5) readable_stored by (cases "diskann_vector_read E c g") auto
  then have i64: "is_i64 c" using assms(4) by blast
  have "node' = node \<or> (\<exists>q. node' = put_neighbor col node i c q)" using Some by (auto simp: node'_def repair_fill_def)
  then show ?thesis
  proof
    assume "\<exists>q. node' = put_neighbor col node i c q"
    then obtain q where q: "node' = put_neighbor col node i c q" by blast
    have "node_ok col self node'" unfolding q using c(4) by (intro put_neighbor_ok [OF assms(1-3) i64 c(2)]) simp
    moreover have "neighbor_of col node x \<or> (x \<in> set ns \<and> stored g x \<and> x \<noteq> deleted)" if "neighbor_of col node' x" for x
      using put_neighbor_of [OF node_okD(1) [OF assms(1)] assms(2,3) i64 that [unfolded q]] c st by blast
    ultimately show ?thesis by blast
  qed (use assms(1) in simp)
qed

lemma repair_edge_cases:
  assumes "repair_edge E col deleted ns r g = Inr g'"
  obtains (same) "g' = g"
    | (put) node i where "tbl_get (dg_nodes g) r = Some node" and "i < col_n col"
      and "g' = g\<lparr>dg_nodes := tbl_put (dg_nodes g) r (repair_fill E col r deleted ns i (drop_neighbor col node i) g)\<rparr>"
proof (cases "diskann_node_read E col r g")
  case (Inl e)
  then show ?thesis using assms same by (simp add: repair_edge_def)
next
  case read: (Inr node)
  show ?thesis
  proof (cases "List.find (has_neighbor col node deleted) [0..<col_n col]")
    case None
    then show ?thesis using assms same read by (simp add: repair_edge_def)
  next
    case (Some i)
    then have i: "i < col_n col" by (auto simp: find_Some_iff)
    have node: "tbl_get (dg_nodes g) r = Some node" using read by (simp add: node_read_Inr)
    have "diskann_node_write E r (repair_fill E col r deleted ns i (drop_neighbor col node i) g) g = Inr g'"
      using assms read Some by (simp add: repair_edge_def)
    then have "g' = g\<lparr>dg_nodes := tbl_put (dg_nodes g) r (repair_fill E col r deleted ns i (drop_neighbor col node i) g)\<rparr>"
      by (auto simp: diskann_node_write_def dk_attempt_def split: option.splits)
    then show ?thesis using put [OF node i] by blast
  qed
qed

lemma repair_edge_base:
  assumes "repair_edge E col deleted ns r g = Inr g'" and "graph_base col {} g" and "8 dvd col_n col"
    and "\<forall>x \<in> set ns. x = deleted \<or> linked col g0 x" and "fewer_links col g0 g"
  shows "graph_base col {} g' \<and> same_rows g g' \<and> fewer_links col g0 g'"
  using assms(1)
proof (cases rule: repair_edge_cases)
  case same
  then show ?thesis using assms(2,5) by simp
next
  case (put node i)
  note B = graph_baseD [OF assms(2)]
  have ok: "node_ok col r node" "stored g r" using B(5,6) put(1) by auto
  define node' where "node' = repair_fill E col r deleted ns i (drop_neighbor col node i) g"
  have st: "\<forall>x. stored g x \<longrightarrow> is_i64 x" using B(4) by blast
  note drop = drop_neighbor_of [OF node_okD(1) [OF ok(1)] assms(3) put(2)]
  note F = repair_fill_ok [OF drop_neighbor_ok [OF ok(1) assms(3) put(2)] assms(3) put(2) st, of E deleted ns, folded node'_def]
  have nb: "linked col g x \<or> (linked col g0 x \<and> stored g x)" if "neighbor_of col node' x" for x
  proof (cases "neighbor_of col (drop_neighbor col node i) x")
    case True
    then show ?thesis using drop linkedI [OF put(1)] by blast
  next
    case False
    then have "x \<in> set ns" "stored g x" "x \<noteq> deleted" using F that by blast+
    then show ?thesis using assms(4) by blast
  qed
  have g': "g' = g\<lparr>dg_nodes := tbl_put (dg_nodes g) r node'\<rparr>" using put(3) by (simp add: node'_def)
  have "graph_base col {} g'" unfolding g'
  proof (rule put_node_base [OF assms(2) conjunct1 [OF F] ok(2)])
    show "stored g x \<or> x \<in> {}" if "neighbor_of col node' x" for x using nb [OF that] B(7) [of x] by blast
  qed
  moreover have "linked col g0 x" if "linked col g' x" for x
    using put_node_links [OF B(2) that [unfolded g']] nb [of x] assms(5) unfolding fewer_links_def by blast
  moreover have "tbl_get (dg_nodes g0) k \<noteq> None" if "tbl_get (dg_nodes g') k \<noteq> None" for k
  proof -
    have "tbl_get (dg_nodes g) k \<noteq> None" using that put(1) by (auto simp: g' tb.get_put [OF B(2)] split: if_splits)
    then show ?thesis using assms(5) unfolding fewer_links_def by blast
  qed
  ultimately show ?thesis by (simp add: fewer_links_def g' same_rows_def)
qed

lemma repair_base:
  assumes "diskann_repair_reverse_edges E col deleted ns g = Inr g'" and "graph_base col {} g" and "8 dvd col_n col"
    and "\<forall>x \<in> set ns. x = deleted \<or> linked col g x"
  shows "graph_base col {} g' \<and> same_rows g g' \<and> fewer_links col g g'"
proof -
  have "(\<lambda>h. graph_base col {} h \<and> same_rows g h \<and> fewer_links col g h) g'"
  proof (rule fold_result_inv [OF assms(1) [unfolded diskann_repair_reverse_edges_def]])
    fix r h h' assume "repair_edge E col deleted ns r h = Inr h'" "graph_base col {} h \<and> same_rows g h \<and> fewer_links col g h"
    then show "graph_base col {} h' \<and> same_rows g h' \<and> fewer_links col g h'"
      using repair_edge_base [of E col deleted ns r h h' g] assms(3,4) same_rows_trans by blast
  qed (use assms(2) in simp)
  then show ?thesis .
qed

section \<open>Scrubbing\<close>

lemma scrub_node_ok:
  assumes "node_ok col self node" and "8 dvd col_n col"
  shows "node_ok col self (scrub_node col x node) \<and> \<not> neighbor_of col (scrub_node col x node) x \<and>
    (\<forall>y. neighbor_of col (scrub_node col x node) y \<longrightarrow> neighbor_of col node y)"
proof -
  define f where "f = (\<lambda>i node. if has_neighbor col node x i then drop_neighbor col node i else node)"
  have "node_ok col self (fold f [0..<k] node) \<and> (\<forall>i < k. \<not> has_neighbor col (fold f [0..<k] node) x i) \<and>
    (\<forall>y. neighbor_of col (fold f [0..<k] node) y \<longrightarrow> neighbor_of col node y)" if "k \<le> col_n col" for k
    using that
  proof (induction k)
    case (Suc k)
    define s where "s = fold f [0..<k] node"
    have IH: "node_ok col self s" "\<forall>i < k. \<not> has_neighbor col s x i" "\<forall>y. neighbor_of col s y \<longrightarrow> neighbor_of col node y"
      using Suc by (simp_all add: s_def)
    have k: "k < col_n col" using Suc.prems by simp
    have e: "fold f [0..<Suc k] node = f k s" by (simp add: s_def)
    show ?case
    proof (cases "has_neighbor col s x k")
      case False
      then have "f k s = s" by (simp add: f_def)
      then show ?thesis using IH False unfolding e by (auto simp: less_Suc_eq)
    next
      case True
      then have fk: "f k s = drop_neighbor col s k" by (simp add: f_def)
      have "\<not> has_neighbor col (drop_neighbor col s k) x i" if "i < Suc k" for i
        using drop_neighbor_slots [OF node_okD(1) [OF IH(1)] assms(2) k, of i x] that k IH(2) by (auto simp: less_Suc_eq)
      then show ?thesis unfolding e fk
        using drop_neighbor_ok [OF IH(1) assms(2) k] drop_neighbor_of [OF node_okD(1) [OF IH(1)] assms(2) k] IH(3) by blast
    qed
  qed (use assms(1) in simp)
  from this [of "col_n col"] show ?thesis by (simp add: scrub_node_def f_def neighbor_of_def)
qed

text \<open>Reading a node succeeds when nothing fails.\<close>

definition reads_ok :: "diskann_env \<Rightarrow> bool" where
  "reads_ok E \<longleftrightarrow> (\<forall>r. ev_fault E ''node read'' r = None \<and> ev_fault E ''scrub step'' r = None \<and>
     ev_fault E ''buffer exists step'' r = None)"

lemma node_read_ok:
  assumes "reads_ok E" and "dcol_ok col" and "tbl_get (dg_nodes g) r = Some node" and "node_sized col node"
  shows "diskann_node_read E col r g = Inr node"
proof -
  note S = node_sizedD [OF assms(4)]
  have "8 dvd col_n col" "0 < col_n col" "0 < diskann_quantized_vector_byte_size (col_quant col) (vc_dimensions col)"
    using assms(2) by (simp_all add: dcol_ok_def)
  with S show ?thesis using assms(1,3,4) by (auto simp: node_read_Inr reads_ok_def)
qed

lemma scrub_dirty_iff:
  assumes "reads_ok E" and "dcol_ok col" and "graph_base col gone g"
  shows "r \<in> set (scrub_dirty E col x g) \<longleftrightarrow> (\<exists>node. tbl_get (dg_nodes g) r = Some node \<and> neighbor_of col node x)"
proof -
  note B = graph_baseD [OF assms(3)]
  have all: "takeWhile (\<lambda>(rowid, node). ev_fault E ''scrub step'' rowid = None) (dg_nodes g) = dg_nodes g"
    using assms(1) by (auto simp: takeWhile_eq_all_conv reads_ok_def)
  have sz: "dn_validity node \<noteq> [] \<and> dn_ids node \<noteq> [] \<and> min (length (dn_ids node) div 8) (col_n col) = col_n col"
    if "(r, node) \<in> set (dg_nodes g)" for r node
  proof -
    have "tbl_get (dg_nodes g) r = Some node" using that tbl_get_iff [OF B(2)] by blast
    then have "node_sized col node" using B(5) node_okD(1) by blast
    from node_sizedD [OF this] show ?thesis using assms(2) by (auto simp: dcol_ok_def)
  qed
  show ?thesis
    unfolding scrub_dirty_def all neighbor_of_def using sz tbl_get_iff [OF B(2)]
    by (auto simp: image_iff) force+
qed

lemma scrub_loop_base:
  assumes "scrub_loop E col x dirty rc g = Inr g'" and "graph_base col {x} g" and "reads_ok E" and "dcol_ok col"
    and "\<And>r node. tbl_get (dg_nodes g) r = Some node \<Longrightarrow> neighbor_of col node x \<Longrightarrow> r \<in> set dirty"
    and "\<forall>r \<in> set dirty. tbl_get (dg_nodes g) r \<noteq> None"
  shows "graph_base col {x} g' \<and> \<not> linked col g' x \<and> same_rows g g' \<and> fewer_links col g g'"
  using assms(1,2,5,6)
proof (induction dirty arbitrary: rc g)
  case Nil
  then have "g' = g" by (simp split: option.splits)
  then show ?case using Nil unfolding linked_def by auto
next
  case (Cons r dirty)
  note B = graph_baseD [OF Cons.prems(2)]
  have dvd: "8 dvd col_n col" using assms(4) by (simp add: dcol_ok_def)
  obtain node where node: "tbl_get (dg_nodes g) r = Some node" using Cons.prems(4) by auto
  have ok: "node_ok col r node" "stored g r" using B(5,6) node by auto
  have rd: "diskann_node_read E col r g = Inr node" by (rule node_read_ok [OF assms(3,4) node node_okD(1) [OF ok(1)]])
  show ?case
  proof (cases "neighbor_of col node x")
    case False
    then have "\<not> (\<exists>i \<in> set [0..<col_n col]. has_neighbor col node x i)" by (auto simp: neighbor_of_def)
    then have run: "scrub_loop E col x dirty None g = Inr g'" using Cons.prems(1) rd by simp
    have "k \<in> set dirty" if "tbl_get (dg_nodes g) k = Some n" "neighbor_of col n x" for k n
      using Cons.prems(3) [OF that] that False node by auto
    then show ?thesis using Cons.IH [OF run Cons.prems(2)] Cons.prems(4) by simp
  next
    case True
    then have ex: "\<exists>i \<in> set [0..<col_n col]. has_neighbor col node x i" by (auto simp: neighbor_of_def)
    define node' where "node' = scrub_node col x node"
    define g1 where "g1 = g\<lparr>dg_nodes := tbl_put (dg_nodes g) r node'\<rparr>"
    note S = scrub_node_ok [OF ok(1) dvd, of x, folded node'_def]
    have run: "scrub_loop E col x dirty None g1 = Inr g'"
      using Cons.prems(1) rd ex
      by (auto simp: diskann_node_write_def g1_def node'_def dk_attempt_def split: option.splits)
    have base1: "graph_base col {x} g1" unfolding g1_def
      by (rule put_node_base [OF Cons.prems(2) conjunct1 [OF S] ok(2)]) (use S B(7) linkedI [OF node] in blast)
    have get: "tbl_get (dg_nodes g1) k = (if k = r then Some node' else tbl_get (dg_nodes g) k)" for k
      by (simp add: g1_def tb.get_put [OF B(2)])
    have "linked col g y" if "linked col g1 y" for y
      using put_node_links [OF B(2) that [unfolded g1_def]] S linkedI [OF node] by blast
    then have few: "fewer_links col g g1" using node by (auto simp: fewer_links_def get)
    have "k \<in> set dirty" if "tbl_get (dg_nodes g1) k = Some n" "neighbor_of col n x" for k n
      using that Cons.prems(3) [of k n] S by (auto simp: get split: if_splits)
    moreover have "\<forall>k \<in> set dirty. tbl_get (dg_nodes g1) k \<noteq> None" using Cons.prems(4) by (simp add: get)
    ultimately have "graph_base col {x} g' \<and> \<not> linked col g' x \<and> same_rows g1 g' \<and> fewer_links col g1 g'"
      by (intro Cons.IH [OF run base1])
    then show ?thesis using few fewer_links_trans by (simp add: same_rows_def g1_def)
  qed
qed

lemma scrub_base:
  assumes "diskann_scrub_deleted_rowid E col x g = Inr g'" and "graph_base col {x} g" and "reads_ok E" and "dcol_ok col"
  shows "graph_base col {} g' \<and> \<not> linked col g' x \<and> same_rows g g' \<and> fewer_links col g g'"
proof -
  have run: "scrub_loop E col x (scrub_dirty E col x g) None g = Inr g'"
    using assms(1) by (auto simp: diskann_scrub_deleted_rowid_def Let_def split: if_splits)
  have "graph_base col {x} g' \<and> \<not> linked col g' x \<and> same_rows g g' \<and> fewer_links col g g'"
    by (rule scrub_loop_base [OF run assms(2,3,4)]) (use scrub_dirty_iff [OF assms(3,4,2)] in auto)
  then show ?thesis unfolding graph_base_def by blast
qed

section \<open>Deletion\<close>

lemma medoid_delete_rows:
  assumes "diskann_medoid_handle_delete E r g = Inr g'"
  shows "\<exists>m. g' = g\<lparr>dg_medoid := m\<rparr>"
proof -
  have "\<exists>m. h' = h\<lparr>dg_medoid := m\<rparr>" if "diskann_medoid_set E m h = Inr h'" for m h h'
    using that by (auto simp: diskann_medoid_set_def split: option.splits)
      (metis diskann_state.surjective diskann_state.update_convs(1) old.unit.exhaust)
  moreover have "\<exists>m. g = g\<lparr>dg_medoid := m\<rparr>" by (metis diskann_state.surjective diskann_state.update_convs(1) old.unit.exhaust)
  ultimately show ?thesis using assms
    by (auto simp: diskann_medoid_handle_delete_def rbind_Inr split: if_splits list.splits)
qed

lemma base_medoid [simp]: "graph_base col gone (h\<lparr>dg_medoid := m\<rparr>) = graph_base col gone h"
  by (simp add: graph_base_def)

lemma delete_row_base:
  assumes "graph_base col {} g" and "tbl_get (dg_buffer g) x = None"
  defines "g1 \<equiv> g\<lparr>dg_nodes := tbl_del (dg_nodes g) x, dg_vectors := tbl_del (dg_vectors g) x\<rparr>"
  shows "graph_base col {x} g1 \<and> fewer_links col g g1 \<and> \<not> stored g1 x \<and> tbl_get (dg_nodes g1) x = None"
proof -
  note B = graph_baseD [OF assms(1)]
  have st: "stored g1 k \<longleftrightarrow> k \<noteq> x \<and> stored g k" for k by (simp add: stored_def g1_def tb.get_del)
  have nd: "tbl_get (dg_nodes g1) k = (if k = x then None else tbl_get (dg_nodes g) k)" for k
    by (simp add: g1_def tb.get_del)
  have ln: "linked col g1 y \<Longrightarrow> linked col g y" for y unfolding linked_def nd by (metis option.distinct(1))
  have "graph_base col {x} g1"
    unfolding graph_base_def
  proof (intro conjI allI impI)
    show "tbl_ok (dg_vectors g1)" "tbl_ok (dg_nodes g1)" "tbl_ok (dg_buffer g1)"
      using B(1-3) by (simp_all add: g1_def tb.ok_del)
    show "is_i64 k" if "stored g1 k" for k using that B(4) st by blast
    show "node_ok col r node" "stored g1 r" if "tbl_get (dg_nodes g1) r = Some node" for r node
      using that B(5,6) st by (auto simp: nd split: if_splits)
    show "stored g1 y \<or> y \<in> {x}" if "linked col g1 y" for y using ln [OF that] B(7) st by blast
    show "stored g1 k" if "tbl_get (dg_buffer g1) k \<noteq> None" for k
    proof -
      have k: "tbl_get (dg_buffer g) k \<noteq> None" using that by (simp add: g1_def)
      then have "k \<noteq> x" using assms(2) by blast
      then show ?thesis using B(8) [OF k] st by blast
    qed
  qed
  then show ?thesis using ln st nd by (auto simp: fewer_links_def split: if_splits)
qed

text \<open>What is left of a deleted row: nothing.\<close>

definition deleted_row :: "VectorColumnDefinition \<Rightarrow> int \<Rightarrow> diskann_state \<Rightarrow> diskann_state \<Rightarrow> bool" where
  "deleted_row col x g g' \<longleftrightarrow> \<not> stored g' x \<and> tbl_get (dg_nodes g') x = None \<and> tbl_get (dg_buffer g') x = None \<and>
     \<not> linked col g' x \<and> (\<forall>k. k \<noteq> x \<longrightarrow> tbl_get (dg_vectors g') k = tbl_get (dg_vectors g) k)"

lemma graph_okD:
  assumes "graph_ok col g"
  shows "graph_base col {} g" and "tbl_get (dg_buffer g) x \<noteq> None \<Longrightarrow> \<not> linked col g x"
    and "tbl_get (dg_buffer g) x \<noteq> None \<Longrightarrow> tbl_get (dg_nodes g) x = None"
    and "dk_buffer_threshold (vc_diskann col) \<le> 0 \<Longrightarrow> dg_buffer g = []"
  using assms unfolding graph_ok_def by blast+

lemma delete_buffered_ok:
  assumes "graph_ok col g" and "tbl_get (dg_buffer g) x \<noteq> None"
  defines "g' \<equiv> g\<lparr>dg_buffer := tbl_del (dg_buffer g) x, dg_vectors := tbl_del (dg_vectors g) x\<rparr>"
  shows "graph_ok col g' \<and> deleted_row col x g g'"
proof -
  note G = graph_okD [OF assms(1)]
  note B = graph_baseD [OF G(1)]
  note no = G(2) [OF assms(2)] G(3) [OF assms(2)]
  have st: "stored g' k \<longleftrightarrow> k \<noteq> x \<and> stored g k" for k by (simp add: stored_def g'_def tb.get_del)
  have bf: "tbl_get (dg_buffer g') k = (if k = x then None else tbl_get (dg_buffer g) k)" for k
    by (simp add: g'_def tb.get_del)
  have bD: "k \<noteq> x \<and> tbl_get (dg_buffer g) k \<noteq> None" if "tbl_get (dg_buffer g') k \<noteq> None" for k
    using that unfolding bf by (auto split: if_splits)
  have same: "dg_nodes g' = dg_nodes g" by (simp add: g'_def)
  have ln: "linked col g' = linked col g" by (simp add: g'_def)
  have base: "graph_base col {} g'"
    unfolding graph_base_def
  proof (intro conjI allI impI)
    show "tbl_ok (dg_vectors g')" "tbl_ok (dg_nodes g')" "tbl_ok (dg_buffer g')"
      using B(1-3) by (simp_all add: g'_def tb.ok_del)
    show "is_i64 k" if "stored g' k" for k using that B(4) st by blast
    show "node_ok col r node" if "tbl_get (dg_nodes g') r = Some node" for r node
      using that B(5) unfolding same by blast
    show "stored g' r" if "tbl_get (dg_nodes g') r = Some node" for r node
    proof -
      have r: "tbl_get (dg_nodes g) r = Some node" using that unfolding same .
      then have "r \<noteq> x" using no(2) by auto
      then show ?thesis using B(6) [OF r] st by blast
    qed
    show "stored g' y \<or> y \<in> {}" if "linked col g' y" for y
      using that B(7) [of y] st no(1) unfolding ln by blast
    show "stored g' k" if "tbl_get (dg_buffer g') k \<noteq> None" for k
      using bD [OF that] B(8) [of k] st by blast
  qed
  have "graph_ok col g'"
    unfolding graph_ok_def
  proof (intro conjI allI impI base)
    fix k assume "tbl_get (dg_buffer g') k \<noteq> None"
    then have k: "tbl_get (dg_buffer g) k \<noteq> None" using bD by blast
    show "\<not> linked col g' k" using G(2) [OF k] unfolding ln .
    show "tbl_get (dg_nodes g') k = None" using G(3) [OF k] unfolding same .
  next
    assume "dk_buffer_threshold (vc_diskann col) \<le> 0"
    then have "dg_buffer g = []" by (rule G(4))
    then show "dg_buffer g' = []" by (simp add: g'_def tbl_del_def)
  qed
  then show ?thesis using st bf no unfolding deleted_row_def ln same by (simp add: g'_def tb.get_del)
qed

lemma delete_node_ok:
  assumes "graph_ok col g" and "dcol_ok col" and "reads_ok E" and "tbl_get (dg_nodes g) x = Some node"
    and "diskann_repair_reverse_edges E col x (node_neighbors col node) g = Inr g1"
    and "diskann_medoid_handle_delete E x (g1\<lparr>dg_nodes := tbl_del (dg_nodes g1) x,
          dg_vectors := tbl_del (dg_vectors g1) x\<rparr>) = Inr g4"
    and "diskann_scrub_deleted_rowid E col x g4 = Inr g'"
  shows "graph_ok col g' \<and> deleted_row col x g g'"
proof -
  note G = graph_okD [OF assms(1)]
  have dvd: "8 dvd col_n col" using assms(2) by (simp add: dcol_ok_def)
  have nobuf: "tbl_get (dg_buffer g) x = None"
    by (rule ccontr) (use G(3) [of x] assms(4) in simp)
  have "linked col g y" if "y \<in> set (node_neighbors col node)" for y
    using that by (intro linkedI [OF assms(4)]) (auto simp: node_neighbors_def neighbor_of_def has_neighbor_def)
  then have R: "graph_base col {} g1 \<and> same_rows g g1 \<and> fewer_links col g g1"
    by (intro repair_base [OF assms(5) G(1) dvd]) blast
  define g2 where "g2 = g1\<lparr>dg_nodes := tbl_del (dg_nodes g1) x, dg_vectors := tbl_del (dg_vectors g1) x\<rparr>"
  have D: "graph_base col {x} g2 \<and> fewer_links col g1 g2 \<and> \<not> stored g2 x \<and> tbl_get (dg_nodes g2) x = None"
    unfolding g2_def using R nobuf by (intro delete_row_base) (simp_all add: same_rows_def)
  obtain m where m: "g4 = g2\<lparr>dg_medoid := m\<rparr>" using medoid_delete_rows [OF assms(6)] by (auto simp: g2_def)
  have base4: "graph_base col {x} g4" "fewer_links col g2 g4" using D by (simp_all add: m fewer_links_def)
  note S = scrub_base [OF assms(7) base4(1) assms(3,2)]
  have few: "fewer_links col g g'" using R D base4(2) S fewer_links_trans by blast
  have rows: "dg_buffer g' = dg_buffer g" "dg_vectors g' = tbl_del (dg_vectors g) x"
    using R S by (simp_all add: m g2_def same_rows_def)
  have nx: "tbl_get (dg_nodes g') x = None"
  proof (rule ccontr)
    assume "tbl_get (dg_nodes g') x \<noteq> None"
    then have "tbl_get (dg_nodes g4) x \<noteq> None" using S unfolding fewer_links_def by blast
    then show False using D by (simp add: m)
  qed
  have "graph_ok col g'"
    unfolding graph_ok_def
  proof (intro conjI allI impI)
    show "graph_base col {} g'" using S by blast
    fix k assume k: "tbl_get (dg_buffer g') k \<noteq> None"
    show "\<not> linked col g' k" using G(2) [OF k [unfolded rows]] few unfolding fewer_links_def by blast
    show "tbl_get (dg_nodes g') k = None"
    proof (rule ccontr)
      assume "tbl_get (dg_nodes g') k \<noteq> None"
      then have "tbl_get (dg_nodes g) k \<noteq> None" using few unfolding fewer_links_def by blast
      then show False using G(3) [OF k [unfolded rows]] by blast
    qed
  next
    assume "dk_buffer_threshold (vc_diskann col) \<le> 0"
    then show "dg_buffer g' = []" using G(4) rows(1) by simp
  qed
  then show ?thesis using S nx nobuf unfolding deleted_row_def rows by (simp add: stored_def rows tb.get_del)
qed

lemma delete_graph_ok:
  assumes "diskann_delete E col x g = Inr g'" and "graph_ok col g" and "dcol_ok col" and "reads_ok E"
    and "tbl_get (dg_buffer g) x \<noteq> None \<or> tbl_get (dg_nodes g) x \<noteq> None"
  shows "graph_ok col g' \<and> deleted_row col x g g'"
proof (cases "tbl_get (dg_buffer g) x = None")
  case False
  have pos: "0 < dk_buffer_threshold (vc_diskann col)"
  proof (rule ccontr)
    assume "\<not> ?thesis"
    then have "dg_buffer g = []" using graph_okD(4) [OF assms(2)] by simp
    then show False using False by (simp add: tbl_get_def)
  qed
  have step: "ev_fault E ''buffer exists step'' x = None" using assms(4) by (simp add: reads_ok_def)
  have "g' = g\<lparr>dg_buffer := tbl_del (dg_buffer g) x, dg_vectors := tbl_del (dg_vectors g) x\<rparr>"
    using assms(1) False pos step unfolding diskann_delete_def if_P [OF pos] rbind_Inr
    by (auto simp: diskann_buffer_exists_def diskann_buffer_delete_def diskann_vector_delete_def rbind_Inr)
  then show ?thesis using delete_buffered_ok [OF assms(2) False] by simp
next
  case True
  then obtain node where node: "tbl_get (dg_nodes g) x = Some node" using assms(5) by auto
  have rd: "diskann_node_read E col x g = Inr node"
    using node_read_ok [OF assms(4,3) node] node_okD(1) [OF graph_baseD(5) [OF graph_okD(1) [OF assms(2)] node]] .
  have nb: "b = False" if "(if 0 < dk_buffer_threshold (vc_diskann col) then diskann_buffer_exists E x g else Inr False) = Inr b" for b
    using that True by (auto simp: diskann_buffer_exists_def dk_attempt_def split: if_splits option.splits)
  have "(case diskann_node_read E col x g of Inl e \<Rightarrow> Inr g | Inr node \<Rightarrow>
      if ev_fault E ''delete malloc'' x \<noteq> None then Inl SQLITE_NOMEM
      else rbind (diskann_repair_reverse_edges E col x (node_neighbors col node) g) (\<lambda>g.
        rbind (diskann_node_delete E x g) (\<lambda>g. rbind (diskann_vector_delete E x g) (\<lambda>g.
        rbind (diskann_medoid_handle_delete E x g) (\<lambda>g. diskann_scrub_deleted_rowid E col x g))))) = Inr g'"
    using assms(1) unfolding diskann_delete_def rbind_Inr by (elim exE conjE) (drule nb, simp)
  then obtain g1 g4 where "diskann_repair_reverse_edges E col x (node_neighbors col node) g = Inr g1"
    and "diskann_medoid_handle_delete E x (g1\<lparr>dg_nodes := tbl_del (dg_nodes g1) x,
        dg_vectors := tbl_del (dg_vectors g1) x\<rparr>) = Inr g4"
    and "diskann_scrub_deleted_rowid E col x g4 = Inr g'"
    by (auto simp: rd rbind_Inr diskann_node_delete_def diskann_vector_delete_def dk_attempt_def split: if_splits option.splits)
  then show ?thesis using delete_node_ok [OF assms(2-4) node] by blast
qed

end
