(* ===== verification/SearchProperties.thy ===== *)
theory SearchProperties
  imports DiskannSearch
begin

text \<open>
  What the beam search guarantees, on a small index for the witnesses: eight-dimensional float
  vectors with the binary quantizer and eight neighbours.
\<close>

section \<open>An index\<close>

text \<open>The cosine distance between zero vectors, for evaluation.\<close>

lemma fp_add_NaN: "fp_add f a FNaN = FNaN"
  by (cases a) simp_all

lemma cosine_result_zero: "cosine_result fp0 fp0 fp0 = FNaN"
  by (simp add: cosine_result_def fp_round_def fp_sub_def fp_add_NaN)

lemma cosine_result_code [code]: "cosine_result dot aMag bMag =
   (if dot = fp0 \<and> aMag = fp0 \<and> bMag = fp0 then FNaN
    else to_f32 (f64_sub (fp_of_int binary64 1)
       (f64_div (to_f64 dot) (f64_mul (f64_sqrt (to_f64 aMag)) (f64_sqrt (to_f64 bMag))))))"
  using cosine_result_zero by (simp add: cosine_result_def)

definition ex_dcolumn :: "Vec0DistanceMetrics \<Rightarrow> int \<Rightarrow> int \<Rightarrow> VectorColumnDefinition" where
  "ex_dcolumn metric list_size threshold = \<lparr>vc_name = ''v'', vc_dimensions = 8,
     vc_element_type = SQLITE_VEC_ELEMENT_TYPE_FLOAT32, vc_distance_metric = metric,
     vc_index_type = VEC0_INDEX_TYPE_DISKANN, vc_rescore = zero_rescore,
     vc_diskann = zero_diskann\<lparr>dk_quantizer_type := VEC0_DISKANN_QUANTIZER_BINARY, dk_n_neighbors := 8,
       dk_search_list_size := list_size, dk_alpha := FFin False 1 0, dk_buffer_threshold := threshold\<rparr>\<rparr>"

definition ex_env :: diskann_env where
  "ex_env = \<lparr>ev_fault = (\<lambda>_ _. None), ev_cast = (\<lambda>_. 0), ev_junk = [0]\<rparr>"

definition ex_graph0 :: diskann_state where
  "ex_graph0 = \<lparr>dg_medoid = Some None, dg_vectors = [], dg_nodes = [], dg_buffer = []\<rparr>"

text \<open>The index after inserting rows; an insertion that fails or does not end changes nothing here.\<close>

definition ex_graph :: "VectorColumnDefinition \<Rightarrow> (int \<times> bytes) list \<Rightarrow> diskann_state" where
  "ex_graph col rows = fold (\<lambda>(r, v) g. case diskann_insert ex_env col r v g of Some (Inr g') \<Rightarrow> g' | _ \<Rightarrow> g) rows ex_graph0"

definition ex_zero :: bytes where
  "ex_zero = replicate 32 0"

definition ex_two :: "Vec0DistanceMetrics \<Rightarrow> int \<Rightarrow> diskann_state" where
  "ex_two metric list_size = ex_graph (ex_dcolumn metric list_size 0) [(1, ex_zero), (2, ex_zero)]"

definition ex_search :: "Vec0DistanceMetrics \<Rightarrow> int \<Rightarrow> int \<Rightarrow> (int \<times> f32) list result option" where
  "ex_search metric list_size k = diskann_search ex_env (ex_dcolumn metric list_size 0) ex_zero 8
     SQLITE_VEC_ELEMENT_TYPE_FLOAT32 k 0 (ex_two metric list_size)"

lemma ex_search_found: "ex_search VEC0_DISTANCE_METRIC_L2 4 2 = Some (Inr [(2, fp0), (1, fp0)])"
  by code_simp

lemma ex_no_nan: "\<forall>d \<in> search_distances ex_env (ex_dcolumn VEC0_DISTANCE_METRIC_L2 4 0) ex_zero 8
    SQLITE_VEC_ELEMENT_TYPE_FLOAT32
    (query_quantized ex_env (ex_dcolumn VEC0_DISTANCE_METRIC_L2 4 0) ex_zero 8 SQLITE_VEC_ELEMENT_TYPE_FLOAT32)
    (ex_two VEC0_DISTANCE_METRIC_L2 4). \<not> isnan d"
  by code_simp

section \<open>Results\<close>



section \<open>Termination\<close>

text \<open>C16. The beam search ends when none of the distances it can compute is a NaN: every insertion that
  changes the candidate list lowers the ranks of its distances or fills a place, and a round that
  changes nothing visits one more candidate.\<close>

theorem search_terminates:
  assumes "\<forall>d \<in> search_distances E col q dims et (query_quantized E col q dims et) g. \<not> isnan d"
  shows "\<exists>r. diskann_search E col q dims et k s g = Some r"
  using assms by (rule search_ends)

theorem search_terminates_witness: "\<exists>r. ex_search VEC0_DISTANCE_METRIC_L2 4 2 = Some r"
  unfolding ex_search_def by (rule search_terminates [OF ex_no_nan])

text \<open>With a zero vector the cosine distance is a NaN, which is put at the front of the candidate list
  and pushes the last candidate out even when the list is full.\<close>

abbreviation ex_cos :: VectorColumnDefinition where
  "ex_cos \<equiv> ex_dcolumn VEC0_DISTANCE_METRIC_COSINE 1 0"

abbreviation ex_visit :: "nat \<Rightarrow> DiskannCandidateList \<Rightarrow> DiskannVisitedSet \<Rightarrow> DiskannCandidateList \<times> DiskannVisitedSet" where
  "ex_visit \<equiv> search_visit ex_env ex_cos ex_zero 8 SQLITE_VEC_ELEMENT_TYPE_FLOAT32
     (query_quantized ex_env ex_cos ex_zero 8 SQLITE_VEC_ELEMENT_TYPE_FLOAT32) (ex_two VEC0_DISTANCE_METRIC_COSINE 1)"

definition ex_start :: DiskannCandidateList where
  "ex_start = \<lparr>cl_items = [\<lparr>cd_rowid = 1, cd_distance = FNaN, cd_visited = False, cd_confirmed = True\<rparr>], cl_capacity = 1\<rparr>"

definition ex_seen :: "int \<Rightarrow> DiskannVisitedSet" where
  "ex_seen r = fst (diskann_visited_set_insert \<lparr>vs_slots = replicate 16 0, vs_count = 0\<rparr> r)"

lemma ex_visit_first: "ex_visit 0 ex_start \<lparr>vs_slots = replicate 16 0, vs_count = 0\<rparr> = (ex_start, ex_seen 1)"
  by code_simp

lemma ex_visit_again: "ex_visit 0 ex_start (ex_seen 1) = (ex_start, ex_seen 1)"
  by code_simp

lemma ex_search_prefix:
  "diskann_medoid_get ex_env (ex_two VEC0_DISTANCE_METRIC_COSINE 1) = Inr (Some 1)"
  "diskann_vector_read ex_env 1 (ex_two VEC0_DISTANCE_METRIC_COSINE 1) = Inr ex_zero"
  "diskann_candidate_list_init (env_faults ex_env) (nat (effective_list_size ex_cos 1 0)) = Inr \<lparr>cl_items = [], cl_capacity = 1\<rparr>"
  "diskann_visited_set_init (env_faults ex_env) (nat (effective_list_size ex_cos 1 0) * 4)
     = Inr \<lparr>vs_slots = replicate 16 0, vs_count = 0\<rparr>"
  "candidate_update (cd_confirmed_update (\<lambda>_. True)) 0 (fst (diskann_candidate_list_insert
     \<lparr>cl_items = [], cl_capacity = 1\<rparr> 1 (vec0_distance_full ex_zero ex_zero 8 SQLITE_VEC_ELEMENT_TYPE_FLOAT32
        (vc_distance_metric ex_cos)))) = ex_start"
  by code_simp+

lemma ex_start_next: "diskann_candidate_list_next_unvisited ex_start = Some 0"
  by code_simp

text \<open>C35. Without that condition the search need not end. Insert the zero vector twice into a column with
  the cosine metric and a search list of one: the search for it visits row 1, whose neighbour pushes it
  out of the list, puts it back with its exact distance, which is a NaN and so never too far, and
  visits it again, for ever.\<close>

theorem search_may_not_end:
  "diskann_search ex_env (ex_dcolumn VEC0_DISTANCE_METRIC_COSINE 1 0) ex_zero 8 SQLITE_VEC_ELEMENT_TYPE_FLOAT32 1 0
     (ex_graph (ex_dcolumn VEC0_DISTANCE_METRIC_COSINE 1 0) [(1, ex_zero), (2, ex_zero)]) = None"
proof -
  have "search_loop ex_visit ex_start \<lparr>vs_slots = replicate 16 0, vs_count = 0\<rparr> = search_loop ex_visit ex_start (ex_seen 1)"
    by (rule search_loop_next [where visit = ex_visit, OF ex_start_next ex_visit_first])
  also have "\<dots> = None" by (rule search_loop_cycle [where visit = ex_visit, OF ex_start_next ex_visit_again])
  finally show ?thesis
    unfolding ex_two_def [symmetric] diskann_search_def Let_def ex_search_prefix sum.case option.case by simp
qed

end
