(* ===== verification/GraphProperties.thy ===== *)
theory GraphProperties
  imports GraphDelete SearchProperties
begin

text \<open>
  What the whole index of a column promises: the invariant of the graph, kept by insertion and
  deletion, and the map from rowids to vectors it implements.
\<close>

section \<open>Runs of an index\<close>

lemma graph_ok_empty: "graph_ok col \<lparr>dg_medoid = m, dg_vectors = [], dg_nodes = [], dg_buffer = []\<rparr>"
  by (simp add: graph_ok_def graph_base_def linked_def stored_def tbl_get_def tbl_ok_def)

text \<open>The index after some successful operations (one that fails is rolled back), with the map it should
  be. Rows are inserted once; a deletion names a row the index holds, and its reads do not fail.\<close>

inductive diskann_run :: "VectorColumnDefinition \<Rightarrow> (int \<Rightarrow> bytes option) \<Rightarrow> diskann_state \<Rightarrow> bool"
  for col :: VectorColumnDefinition where
  created: "diskann_run col Map.empty \<lparr>dg_medoid = Some None, dg_vectors = [], dg_nodes = [], dg_buffer = []\<rparr>"
| inserted: "diskann_run col (m(r \<mapsto> take (vector_column_byte_size col) vec)) g'"
    if "diskann_run col m g" and "diskann_insert E col r vec g = Some (Inr g')" and "is_i64 r" and "m r = None"
| deleted: "diskann_run col (m(r := None)) g'"
    if "diskann_run col m g" and "diskann_delete E col r g = Inr g'" and "reads_ok E"
      and "tbl_get (dg_buffer g) r \<noteq> None \<or> tbl_get (dg_nodes g) r \<noteq> None"

lemma run_ok:
  assumes "diskann_run col m g" and "dcol_ok col"
  shows "graph_ok col g \<and> tbl_get (dg_vectors g) = m"
  using assms(1)
proof induction
  case created
  then show ?case by (simp add: graph_ok_empty fun_eq_iff tbl_get_def)
next
  case (inserted m g E r vec g')
  then have "\<not> stored g r" by (simp add: stored_def)
  then show ?case using insert_graph_ok [OF inserted.hyps(2) _ assms(2) inserted.hyps(3)] inserted.IH
    by (auto simp: fun_eq_iff)
next
  case (deleted m g E r g')
  then have "graph_ok col g' \<and> deleted_row col r g g'" using delete_graph_ok assms(2) by blast
  then show ?case using deleted.IH by (auto simp: deleted_row_def stored_def fun_eq_iff)
qed

section \<open>An index of three rows\<close>

abbreviation ex_l2 :: "int \<Rightarrow> VectorColumnDefinition" where
  "ex_l2 \<equiv> ex_dcolumn VEC0_DISTANCE_METRIC_L2 4"

lemma ex_dcol_ok: "dcol_ok (ex_dcolumn metric list_size threshold)"
  by (simp add: dcol_ok_def ex_dcolumn_def)

lemma ex_reads_ok: "reads_ok ex_env"
  by (simp add: reads_ok_def ex_env_def)

lemma ex_inserts:
  "diskann_insert ex_env (ex_l2 0) 1 ex_zero ex_graph0 = Some (Inr (ex_graph (ex_l2 0) [(1, ex_zero)]))"
  "diskann_insert ex_env (ex_l2 0) 2 ex_zero (ex_graph (ex_l2 0) [(1, ex_zero)]) = Some (Inr (ex_two VEC0_DISTANCE_METRIC_L2 4))"
  by code_simp+

definition ex_one :: diskann_state where
  "ex_one = projr (diskann_delete ex_env (ex_l2 0) 1 (ex_two VEC0_DISTANCE_METRIC_L2 4))"

lemma ex_deletes: "diskann_delete ex_env (ex_l2 0) 1 (ex_two VEC0_DISTANCE_METRIC_L2 4) = Inr ex_one"
  by code_simp

lemma ex_two_nodes: "tbl_get (dg_nodes (ex_two VEC0_DISTANCE_METRIC_L2 4)) 1 \<noteq> None"
  by code_simp


lemma ex_run_two: "diskann_run (ex_l2 0)
    (Map.empty(1 \<mapsto> take (vector_column_byte_size (ex_l2 0)) ex_zero, 2 \<mapsto> take (vector_column_byte_size (ex_l2 0)) ex_zero))
    (ex_two VEC0_DISTANCE_METRIC_L2 4)"
  by (rule inserted [OF inserted [OF created ex_inserts(1) [unfolded ex_graph0_def]] ex_inserts(2) [unfolded ex_graph0_def]])
    (simp_all add: is_i64_def)

lemma ex_run_one: "diskann_run (ex_l2 0)
    (Map.empty(1 \<mapsto> take (vector_column_byte_size (ex_l2 0)) ex_zero, 2 \<mapsto> take (vector_column_byte_size (ex_l2 0)) ex_zero, 1 := None))
    ex_one"
  by (rule deleted [OF ex_run_two ex_deletes ex_reads_ok]) (simp add: ex_two_nodes)

section \<open>Properties\<close>

text \<open>C12. A successful insertion of a new row keeps the invariant of the index: node blobs of the
  configured size, a node's valid slots naming different rows other than its own, every linked,
  indexed or buffered row stored, nothing linked to a buffered row. It adds the vector and leaves the
  vectors of the other rows as they are, whether the row goes to the graph, to the buffer, or fills the
  buffer and so flushes it.\<close>

theorem insert_keeps_graph:
  assumes "diskann_insert E col r vec g = Some (Inr g')" and "graph_ok col g" and "dcol_ok col"
    and "is_i64 r" and "tbl_get (dg_vectors g) r = None"
  shows "graph_ok col g' \<and>
    (\<forall>x. tbl_get (dg_vectors g') x = (if x = r then Some (take (vector_column_byte_size col) vec) else tbl_get (dg_vectors g) x))"
  using insert_graph_ok [OF assms(1-4)] assms(5) by (simp add: stored_def)

theorem insert_keeps_graph_witness: "graph_ok (ex_l2 0) (ex_graph (ex_l2 0) [(1, ex_zero)])"
  using insert_keeps_graph [OF ex_inserts(1) _ ex_dcol_ok] by (simp add: ex_graph0_def graph_ok_empty tbl_get_def is_i64_def)

text \<open>C13. A successful deletion leaves no trace of a row that is in the graph or in the buffer: no
  vector, no node, no buffered copy, and no edge to it from any node, also from those that linked to it
  without it linking back. The other vectors stay, and the invariant is kept.\<close>

theorem delete_leaves_no_trace:
  assumes "diskann_delete E col x g = Inr g'" and "graph_ok col g" and "dcol_ok col" and "reads_ok E"
    and "tbl_get (dg_buffer g) x \<noteq> None \<or> tbl_get (dg_nodes g) x \<noteq> None"
  shows "graph_ok col g' \<and> tbl_get (dg_vectors g') x = None \<and> tbl_get (dg_nodes g') x = None \<and>
    tbl_get (dg_buffer g') x = None \<and> \<not> linked col g' x \<and>
    (\<forall>k. k \<noteq> x \<longrightarrow> tbl_get (dg_vectors g') k = tbl_get (dg_vectors g) k)"
  using delete_graph_ok [OF assms] by (simp add: deleted_row_def stored_def)

theorem delete_leaves_no_trace_witness: "\<not> linked (ex_l2 0) ex_one 1"
  using delete_leaves_no_trace [OF ex_deletes _ ex_dcol_ok ex_reads_ok] run_ok [OF ex_run_two ex_dcol_ok] ex_two_nodes by blast



section \<open>Emptying a buffered index\<close>

text \<open>Rows 1 and 2 fill the buffer and go to the graph, row 3 stays in the buffer.\<close>

definition ex_buffered :: diskann_state where
  "ex_buffered = fold (\<lambda>r g. projr (diskann_delete ex_env (ex_l2 2) r g)) [1, 2, 3]
     (ex_graph (ex_l2 2) [(1, ex_zero), (2, ex_zero), (3, ex_zero)])"


end
