(* ===== verification/Plan.thy ===== *)
theory Plan
  imports Example
begin

text \<open>
  \<open>vec0BestIndex\<close>: how a query on a vec0 table becomes a query plan. The plan is a string, one
  character for its kind and four for every value SQLite will pass to \<open>vec0Filter\<close>.
\<close>

section \<open>The characters of a plan\<close>

datatype vec0_query_plan = VEC0_QUERY_PLAN_FULLSCAN | VEC0_QUERY_PLAN_POINT | VEC0_QUERY_PLAN_KNN

fun query_plan_char :: "vec0_query_plan \<Rightarrow> char" where
  "query_plan_char VEC0_QUERY_PLAN_FULLSCAN = CHR ''1''"
| "query_plan_char VEC0_QUERY_PLAN_POINT = CHR ''2''"
| "query_plan_char VEC0_QUERY_PLAN_KNN = CHR ''3''"

datatype vec0_idxstr_kind =
    VEC0_IDXSTR_KIND_KNN_MATCH
  | VEC0_IDXSTR_KIND_KNN_K
  | VEC0_IDXSTR_KIND_KNN_ROWID_IN
  | VEC0_IDXSTR_KIND_KNN_PARTITON_CONSTRAINT
  | VEC0_IDXSTR_KIND_KNN_DISTANCE_CONSTRAINT
  | VEC0_IDXSTR_KIND_POINT_ID
  | VEC0_IDXSTR_KIND_METADATA_CONSTRAINT

fun idxstr_kind_char :: "vec0_idxstr_kind \<Rightarrow> char" where
  "idxstr_kind_char VEC0_IDXSTR_KIND_KNN_MATCH = CHR ''{''"
| "idxstr_kind_char VEC0_IDXSTR_KIND_KNN_K = CHR ''}''"
| "idxstr_kind_char VEC0_IDXSTR_KIND_KNN_ROWID_IN = CHR ''[''"
| "idxstr_kind_char VEC0_IDXSTR_KIND_KNN_PARTITON_CONSTRAINT = CHR '']''"
| "idxstr_kind_char VEC0_IDXSTR_KIND_KNN_DISTANCE_CONSTRAINT = CHR ''*''"
| "idxstr_kind_char VEC0_IDXSTR_KIND_POINT_ID = CHR ''!''"
| "idxstr_kind_char VEC0_IDXSTR_KIND_METADATA_CONSTRAINT = CHR ''&''"

datatype vec0_partition_operator =
    VEC0_PARTITION_OPERATOR_EQ | VEC0_PARTITION_OPERATOR_GT | VEC0_PARTITION_OPERATOR_LE
  | VEC0_PARTITION_OPERATOR_LT | VEC0_PARTITION_OPERATOR_GE | VEC0_PARTITION_OPERATOR_NE

fun partition_operator_char :: "vec0_partition_operator \<Rightarrow> char" where
  "partition_operator_char VEC0_PARTITION_OPERATOR_EQ = CHR ''a''"
| "partition_operator_char VEC0_PARTITION_OPERATOR_GT = CHR ''b''"
| "partition_operator_char VEC0_PARTITION_OPERATOR_LE = CHR ''c''"
| "partition_operator_char VEC0_PARTITION_OPERATOR_LT = CHR ''d''"
| "partition_operator_char VEC0_PARTITION_OPERATOR_GE = CHR ''e''"
| "partition_operator_char VEC0_PARTITION_OPERATOR_NE = CHR ''f''"

datatype vec0_metadata_operator =
    VEC0_METADATA_OPERATOR_EQ | VEC0_METADATA_OPERATOR_GT | VEC0_METADATA_OPERATOR_LE
  | VEC0_METADATA_OPERATOR_LT | VEC0_METADATA_OPERATOR_GE | VEC0_METADATA_OPERATOR_NE
  | VEC0_METADATA_OPERATOR_IN

fun metadata_operator_char :: "vec0_metadata_operator \<Rightarrow> char" where
  "metadata_operator_char VEC0_METADATA_OPERATOR_EQ = CHR ''a''"
| "metadata_operator_char VEC0_METADATA_OPERATOR_GT = CHR ''b''"
| "metadata_operator_char VEC0_METADATA_OPERATOR_LE = CHR ''c''"
| "metadata_operator_char VEC0_METADATA_OPERATOR_LT = CHR ''d''"
| "metadata_operator_char VEC0_METADATA_OPERATOR_GE = CHR ''e''"
| "metadata_operator_char VEC0_METADATA_OPERATOR_NE = CHR ''f''"
| "metadata_operator_char VEC0_METADATA_OPERATOR_IN = CHR ''g''"

datatype vec0_distance_constraint_operator =
    VEC0_DISTANCE_CONSTRAINT_GT | VEC0_DISTANCE_CONSTRAINT_GE
  | VEC0_DISTANCE_CONSTRAINT_LT | VEC0_DISTANCE_CONSTRAINT_LE

fun distance_operator_char :: "vec0_distance_constraint_operator \<Rightarrow> char" where
  "distance_operator_char VEC0_DISTANCE_CONSTRAINT_GT = CHR ''a''"
| "distance_operator_char VEC0_DISTANCE_CONSTRAINT_GE = CHR ''b''"
| "distance_operator_char VEC0_DISTANCE_CONSTRAINT_LT = CHR ''c''"
| "distance_operator_char VEC0_DISTANCE_CONSTRAINT_LE = CHR ''d''"

section \<open>What SQLite tells about a query\<close>

text \<open>The operators of \<open>sqlite3_index_info\<close> the code tests for; any other one is \<open>OP_OTHER\<close>.\<close>

datatype index_op =
    OP_EQ | OP_GT | OP_LE | OP_LT | OP_GE | OP_NE | OP_MATCH | OP_LIMIT | OP_OFFSET | OP_OTHER int

text \<open>\<open>ic_in\<close> is what \<open>sqlite3_vtab_in(pIdxInfo, i, -1)\<close> returns: the constraint is an \<open>in (...)\<close>.\<close>

record index_constraint =
  ic_column :: int
  ic_op :: index_op
  ic_usable :: bool
  ic_in :: bool

text \<open>
  The answer: the plan, and the constraints whose right-hand sides are passed as values, in the order
  of their \<open>argvIndex\<close>, from 1 on; all of them are marked \<open>omit\<close>, so SQLite does not check them again.
  \<open>ip_in\<close> are those \<open>sqlite3_vtab_in\<close> asks for as a whole.
\<close>

record index_plan =
  ip_idxNum :: int
  ip_idxStr :: string
  ip_argv :: "nat list"
  ip_in :: "nat list"
  ip_cost :: nat
  ip_rows :: nat

section \<open>The terms of the query\<close>

record index_terms =
  tm_match :: "(nat \<times> nat) option"
  tm_limit :: "nat option"
  tm_rowid :: "nat option"
  tm_k :: "nat option"
  tm_rowid_in :: "nat option"
  tm_aux :: bool

definition scan_constraint ::
  "vec0_vtab \<Rightarrow> index_constraint list \<Rightarrow> nat \<Rightarrow> index_terms \<Rightarrow> index_terms result"
where
  "scan_constraint p cs i t =
    (let c = cs ! i; column = ic_column c; op = ic_op c
     in if \<not> ic_usable c then Inr t
        else let t = (if op = OP_LIMIT then t\<lparr>tm_limit := Some i\<rparr> else t)
        in rbind (if op = OP_MATCH \<and> vec0_column_idx_is_vector p column
                  then if tm_match t \<noteq> None then Inl SQLITE_ERROR
                       else Inr (t\<lparr>tm_match := Some (i, vec0_column_idx_to_vector_idx p column)\<rparr>)
                  else Inr t) (\<lambda>t.
           rbind (if op = OP_EQ \<and> column = 0
                  then if ic_in c
                       then if tm_rowid_in t \<noteq> None then Inl SQLITE_ERROR else Inr (t\<lparr>tm_rowid_in := Some i\<rparr>)
                       else Inr (t\<lparr>tm_rowid := Some i\<rparr>)
                  else Inr t) (\<lambda>t.
           let t = (if op = OP_EQ \<and> column = int (vec0_column_k_idx p) then t\<lparr>tm_k := Some i\<rparr> else t);
               t = (if op \<noteq> OP_LIMIT \<and> op \<noteq> OP_OFFSET \<and> vec0_column_idx_is_auxiliary p column
                    then t\<lparr>tm_aux := True\<rparr> else t)
           in Inr t)))"

section \<open>The values of a KNN query\<close>

definition letter :: "nat \<Rightarrow> char" where
  "letter i = char_of (65 + i)"

definition partition_value :: "index_op \<Rightarrow> vec0_partition_operator option" where
  "partition_value op = (case op of
     OP_EQ \<Rightarrow> Some VEC0_PARTITION_OPERATOR_EQ | OP_GT \<Rightarrow> Some VEC0_PARTITION_OPERATOR_GT
   | OP_LE \<Rightarrow> Some VEC0_PARTITION_OPERATOR_LE | OP_LT \<Rightarrow> Some VEC0_PARTITION_OPERATOR_LT
   | OP_GE \<Rightarrow> Some VEC0_PARTITION_OPERATOR_GE | OP_NE \<Rightarrow> Some VEC0_PARTITION_OPERATOR_NE
   | _ \<Rightarrow> None)"

text \<open>A constraint with another operator is left to SQLite.\<close>

definition partition_entry :: "vec0_vtab \<Rightarrow> index_constraint \<Rightarrow> string option result" where
  "partition_entry p c =
     (if ic_usable c \<and> ic_op c \<noteq> OP_LIMIT \<and> ic_op c \<noteq> OP_OFFSET \<and> vec0_column_idx_is_partition p (ic_column c)
      then Inr (map_option (\<lambda>value. [idxstr_kind_char VEC0_IDXSTR_KIND_KNN_PARTITON_CONSTRAINT,
                  letter (vec0_column_idx_to_partition_idx p (ic_column c)), partition_operator_char value, CHR ''_''])
             (partition_value (ic_op c)))
      else Inr None)"

definition metadata_value_op :: "vec0_metadata_column_kind \<Rightarrow> index_constraint \<Rightarrow> vec0_metadata_operator option" where
  "metadata_value_op kind c = (case ic_op c of
     OP_EQ \<Rightarrow>
       (if ic_in c
        then if kind = VEC0_METADATA_COLUMN_KIND_FLOAT \<or> kind = VEC0_METADATA_COLUMN_KIND_BOOLEAN then None
             else Some VEC0_METADATA_OPERATOR_IN
        else Some VEC0_METADATA_OPERATOR_EQ)
   | OP_GT \<Rightarrow> Some VEC0_METADATA_OPERATOR_GT | OP_LE \<Rightarrow> Some VEC0_METADATA_OPERATOR_LE
   | OP_LT \<Rightarrow> Some VEC0_METADATA_OPERATOR_LT | OP_GE \<Rightarrow> Some VEC0_METADATA_OPERATOR_GE
   | OP_NE \<Rightarrow> Some VEC0_METADATA_OPERATOR_NE | _ \<Rightarrow> None)"

definition metadata_entry :: "vec0_vtab \<Rightarrow> index_constraint \<Rightarrow> string option result" where
  "metadata_entry p c =
     (if ic_usable c \<and> ic_op c \<noteq> OP_LIMIT \<and> ic_op c \<noteq> OP_OFFSET \<and> vec0_column_idx_is_metadata p (ic_column c)
      then let metadata_idx = vec0_column_idx_to_metadata_idx p (ic_column c);
               kind = snd (metadata_columns p ! metadata_idx)
           in (case metadata_value_op kind c of
                 None \<Rightarrow> Inl SQLITE_ERROR
               | Some value \<Rightarrow>
                   if kind = VEC0_METADATA_COLUMN_KIND_BOOLEAN \<and>
                      value \<noteq> VEC0_METADATA_OPERATOR_EQ \<and> value \<noteq> VEC0_METADATA_OPERATOR_NE
                   then Inl SQLITE_ERROR
                   else Inr (Some [idxstr_kind_char VEC0_IDXSTR_KIND_METADATA_CONSTRAINT, letter metadata_idx,
                               metadata_operator_char value, CHR ''_'']))
      else Inr None)"

definition distance_entry :: "vec0_vtab \<Rightarrow> index_constraint \<Rightarrow> string option result" where
  "distance_entry p c =
     (if ic_usable c \<and> ic_op c \<noteq> OP_LIMIT \<and> ic_op c \<noteq> OP_OFFSET \<and> ic_column c = int (vec0_column_distance_idx p)
      then (case (case ic_op c of
                    OP_GT \<Rightarrow> Some VEC0_DISTANCE_CONSTRAINT_GT | OP_GE \<Rightarrow> Some VEC0_DISTANCE_CONSTRAINT_GE
                  | OP_LT \<Rightarrow> Some VEC0_DISTANCE_CONSTRAINT_LT | OP_LE \<Rightarrow> Some VEC0_DISTANCE_CONSTRAINT_LE
                  | _ \<Rightarrow> None) of
              None \<Rightarrow> Inl SQLITE_ERROR
            | Some value \<Rightarrow> Inr (Some [idxstr_kind_char VEC0_IDXSTR_KIND_KNN_DISTANCE_CONSTRAINT,
                              distance_operator_char value, CHR ''_'', CHR ''_'']))
      else Inr None)"

text \<open>A loop over the constraints that appends the values it finds: which constraint, which characters.\<close>

definition append_entries ::
  "(index_constraint \<Rightarrow> string option result) \<Rightarrow> index_constraint list \<Rightarrow> (nat \<times> string) list \<Rightarrow> (nat \<times> string) list result"
where
  "append_entries entry cs =
     fold_result (\<lambda>i es. rbind (entry (cs ! i)) (\<lambda>e. case e of None \<Rightarrow> Inr es | Some s \<Rightarrow> Inr (es @ [(i, s)])))
       [0..<length cs]"

definition order_by_ok :: "vec0_vtab \<Rightarrow> (int \<times> bool) list \<Rightarrow> bool" where
  "order_by_ok p orderBy = (case orderBy of
     [] \<Rightarrow> True
   | [(column, desc)] \<Rightarrow> column = int (vec0_column_distance_idx p) \<and> \<not> desc
   | _ \<Rightarrow> False)"

definition three_blanks :: string where
  "three_blanks = ''___''"

text \<open>
  \<open>orderBy\<close> has the columns of the ORDER BY clause with their \<open>desc\<close> flags. The plan of a full scan
  leaves \<open>idxNum\<close> as SQLite set it, at 0.
\<close>

definition vec0BestIndex ::
  "vec0_vtab \<Rightarrow> index_constraint list \<Rightarrow> (int \<times> bool) list \<Rightarrow> int \<Rightarrow> index_plan result"
where
  "vec0BestIndex p cs orderBy colUsed =
    rbind (fold_result (scan_constraint p cs) [0..<length cs]
             \<lparr>tm_match = None, tm_limit = None, tm_rowid = None, tm_k = None, tm_rowid_in = None, tm_aux = False\<rparr>) (\<lambda>t.
      case tm_match t of
        Some (iMatchTerm, iMatchVectorTerm) \<Rightarrow>
          (case (tm_limit t, tm_k t) of
             (None, None) \<Rightarrow> Inl SQLITE_ERROR
           | (Some _, Some _) \<Rightarrow> Inl SQLITE_ERROR
           | (limit, k) \<Rightarrow>
              if \<not> order_by_ok p orderBy then Inl SQLITE_ERROR
              else if tm_aux t then Inl SQLITE_ERROR
              else
                let es = [(iMatchTerm, idxstr_kind_char VEC0_IDXSTR_KIND_KNN_MATCH # three_blanks),
                          ((case limit of Some l \<Rightarrow> l | None \<Rightarrow> the k), idxstr_kind_char VEC0_IDXSTR_KIND_KNN_K # three_blanks)]
                         @ (case tm_rowid_in t of None \<Rightarrow> []
                            | Some r \<Rightarrow> [(r, idxstr_kind_char VEC0_IDXSTR_KIND_KNN_ROWID_IN # three_blanks)])
                in rbind (append_entries (partition_entry p) cs es) (\<lambda>es.
                   rbind (append_entries (metadata_entry p) cs es) (\<lambda>es.
                   rbind (append_entries (distance_entry p) cs es) (\<lambda>es.
                   Inr \<lparr>ip_idxNum = int iMatchVectorTerm,
                        ip_idxStr = query_plan_char VEC0_QUERY_PLAN_KNN # concat (map snd es),
                        ip_argv = map fst es,
                        ip_in = map fst (filter (\<lambda>(i, s). hd s = idxstr_kind_char VEC0_IDXSTR_KIND_KNN_ROWID_IN \<or>
                                  hd s = idxstr_kind_char VEC0_IDXSTR_KIND_METADATA_CONSTRAINT \<and>
                                  s ! 2 = metadata_operator_char VEC0_METADATA_OPERATOR_IN) es),
                        ip_cost = 30, ip_rows = 10\<rparr>))))
      | None \<Rightarrow>
          (case tm_rowid t of
             Some r \<Rightarrow> Inr \<lparr>ip_idxNum = colUsed,
               ip_idxStr = query_plan_char VEC0_QUERY_PLAN_POINT # idxstr_kind_char VEC0_IDXSTR_KIND_POINT_ID # three_blanks,
               ip_argv = [r], ip_in = [], ip_cost = 10, ip_rows = 1\<rparr>
           | None \<Rightarrow> Inr \<lparr>ip_idxNum = 0, ip_idxStr = [query_plan_char VEC0_QUERY_PLAN_FULLSCAN],
               ip_argv = [], ip_in = [], ip_cost = 3000000, ip_rows = 100000\<rparr>))"

section \<open>What every plan has\<close>

text \<open>An entry for every value, of four characters, each of a different usable constraint.\<close>

definition entries_ok :: "index_constraint list \<Rightarrow> (nat \<times> string) list \<Rightarrow> bool" where
  "entries_ok cs es \<longleftrightarrow> distinct (map fst es) \<and> (\<forall>(i, s) \<in> set es. i < length cs \<and> ic_usable (cs ! i) \<and> length s = 4)"

lemma length_concat_entries: "entries_ok cs es \<Longrightarrow> length (concat (map snd es)) = 4 * length es"
  by (induction es) (auto simp: entries_ok_def)

text \<open>Where a constraint's value comes from; no constraint is of two of these kinds.\<close>

definition term_kind :: "vec0_vtab \<Rightarrow> index_constraint \<Rightarrow> nat" where
  "term_kind p c =
     (if ic_op c = OP_LIMIT then 0
      else if ic_column c = 0 then 1
      else if ic_column c = int (vec0_column_k_idx p) then 2
      else if ic_column c = int (vec0_column_distance_idx p) then 3
      else if vec0_column_idx_is_vector p (ic_column c) then 4
      else if vec0_column_idx_is_partition p (ic_column c) then 5
      else if vec0_column_idx_is_metadata p (ic_column c) then 6
      else 7)"

definition terms_ok :: "vec0_vtab \<Rightarrow> index_constraint list \<Rightarrow> index_terms \<Rightarrow> bool" where
  "terms_ok p cs t \<longleftrightarrow>
     (\<forall>i v. tm_match t = Some (i, v) \<longrightarrow> i < length cs \<and> ic_usable (cs ! i) \<and> term_kind p (cs ! i) = 4 \<and>
        vec0_column_idx_is_vector p (ic_column (cs ! i)) \<and> v = vec0_column_idx_to_vector_idx p (ic_column (cs ! i))) \<and>
     (\<forall>i. tm_limit t = Some i \<longrightarrow> i < length cs \<and> ic_usable (cs ! i) \<and> term_kind p (cs ! i) = 0) \<and>
     (\<forall>i. tm_k t = Some i \<longrightarrow> i < length cs \<and> ic_usable (cs ! i) \<and> term_kind p (cs ! i) = 2) \<and>
     (\<forall>i. tm_rowid_in t = Some i \<longrightarrow> i < length cs \<and> ic_usable (cs ! i) \<and> term_kind p (cs ! i) = 1) \<and>
     (\<forall>i. tm_rowid t = Some i \<longrightarrow> i < length cs \<and> ic_usable (cs ! i) \<and> term_kind p (cs ! i) = 1)"

lemmas column_idx_defs =
  vec0_column_idx_is_vector_def vec0_column_idx_is_partition_def vec0_column_idx_is_metadata_def
  vec0_column_k_idx_def vec0_column_distance_idx_def

lemma terms_ok_updates:
  assumes "terms_ok p cs t"
  shows "i < length cs \<Longrightarrow> ic_usable (cs ! i) \<Longrightarrow> ic_op (cs ! i) = OP_LIMIT \<Longrightarrow> terms_ok p cs (t\<lparr>tm_limit := Some i\<rparr>)"
    and "i < length cs \<Longrightarrow> ic_usable (cs ! i) \<Longrightarrow> ic_op (cs ! i) = OP_EQ \<Longrightarrow> ic_column (cs ! i) = int (vec0_column_k_idx p)
      \<Longrightarrow> terms_ok p cs (t\<lparr>tm_k := Some i\<rparr>)"
    and "i < length cs \<Longrightarrow> ic_usable (cs ! i) \<Longrightarrow> ic_op (cs ! i) = OP_EQ \<Longrightarrow> ic_column (cs ! i) = 0
      \<Longrightarrow> terms_ok p cs (t\<lparr>tm_rowid_in := Some i\<rparr>) \<and> terms_ok p cs (t\<lparr>tm_rowid := Some i\<rparr>)"
    and "i < length cs \<Longrightarrow> ic_usable (cs ! i) \<Longrightarrow> ic_op (cs ! i) = OP_MATCH \<Longrightarrow> vec0_column_idx_is_vector p (ic_column (cs ! i))
      \<Longrightarrow> terms_ok p cs (t\<lparr>tm_match := Some (i, vec0_column_idx_to_vector_idx p (ic_column (cs ! i)))\<rparr>)"
    and "terms_ok p cs (t\<lparr>tm_aux := b\<rparr>)"
proof -
  show "terms_ok p cs (t\<lparr>tm_limit := Some i\<rparr>)" if "i < length cs" "ic_usable (cs ! i)" "ic_op (cs ! i) = OP_LIMIT"
    using assms that by (simp add: terms_ok_def term_kind_def)
  show "terms_ok p cs (t\<lparr>tm_k := Some i\<rparr>)"
    if "i < length cs" "ic_usable (cs ! i)" "ic_op (cs ! i) = OP_EQ" "ic_column (cs ! i) = int (vec0_column_k_idx p)"
    using assms that by (simp add: terms_ok_def term_kind_def column_idx_defs)
  show "terms_ok p cs (t\<lparr>tm_rowid_in := Some i\<rparr>) \<and> terms_ok p cs (t\<lparr>tm_rowid := Some i\<rparr>)"
    if "i < length cs" "ic_usable (cs ! i)" "ic_op (cs ! i) = OP_EQ" "ic_column (cs ! i) = 0"
    using assms that by (simp add: terms_ok_def term_kind_def)
  show "terms_ok p cs (t\<lparr>tm_aux := b\<rparr>)" using assms by (simp add: terms_ok_def)
  show "terms_ok p cs (t\<lparr>tm_match := Some (i, vec0_column_idx_to_vector_idx p (ic_column (cs ! i)))\<rparr>)"
    if "i < length cs" "ic_usable (cs ! i)" "ic_op (cs ! i) = OP_MATCH" "vec0_column_idx_is_vector p (ic_column (cs ! i))"
  proof -
    have "term_kind p (cs ! i) = 4" using that by (auto simp: term_kind_def column_idx_defs)
    then show ?thesis using assms that by (simp add: terms_ok_def)
  qed
qed

lemma scan_constraint_ok:
  assumes "scan_constraint p cs i t = Inr t'" and "terms_ok p cs t" and "i < length cs"
  shows "terms_ok p cs t'"
proof (cases "ic_usable (cs ! i)")
  case False
  then show ?thesis using assms by (simp add: scan_constraint_def Let_def)
next
  case True
  define t1 where "t1 = (if ic_op (cs ! i) = OP_LIMIT then t\<lparr>tm_limit := Some i\<rparr> else t)"
  have 1: "terms_ok p cs t1" using terms_ok_updates(1) [OF assms(2,3) True] assms(2) by (simp add: t1_def)
  obtain t2 t3 where t2: "(if ic_op (cs ! i) = OP_MATCH \<and> vec0_column_idx_is_vector p (ic_column (cs ! i))
      then if tm_match t1 \<noteq> None then Inl SQLITE_ERROR
           else Inr (t1\<lparr>tm_match := Some (i, vec0_column_idx_to_vector_idx p (ic_column (cs ! i)))\<rparr>) else Inr t1) = Inr t2"
    and t3: "(if ic_op (cs ! i) = OP_EQ \<and> ic_column (cs ! i) = 0
      then if ic_in (cs ! i) then if tm_rowid_in t2 \<noteq> None then Inl SQLITE_ERROR else Inr (t2\<lparr>tm_rowid_in := Some i\<rparr>)
           else Inr (t2\<lparr>tm_rowid := Some i\<rparr>) else Inr t2) = Inr t3"
    and t': "t' = (let t = (if ic_op (cs ! i) = OP_EQ \<and> ic_column (cs ! i) = int (vec0_column_k_idx p) then t3\<lparr>tm_k := Some i\<rparr> else t3)
      in (if ic_op (cs ! i) \<noteq> OP_LIMIT \<and> ic_op (cs ! i) \<noteq> OP_OFFSET \<and> vec0_column_idx_is_auxiliary p (ic_column (cs ! i))
          then t\<lparr>tm_aux := True\<rparr> else t))"
    using assms(1) True unfolding scan_constraint_def Let_def rbind_Inr if_not_P [of "\<not> ic_usable (cs ! i)"] t1_def [symmetric]
    by (simp add: rbind_Inr) blast
  have 2: "terms_ok p cs t2" using t2 1 terms_ok_updates(4) [OF 1 assms(3) True] by (auto split: if_splits)
  have 3: "terms_ok p cs t3" using t3 2 terms_ok_updates(3) [OF 2 assms(3) True] by (auto split: if_splits)
  show ?thesis unfolding t' Let_def using 3 terms_ok_updates(2) [OF 3 assms(3) True] terms_ok_updates(5) by simp
qed

lemma append_entries_ok:
  assumes "append_entries entry cs es = Inr es'"
  shows "\<exists>new. es' = es @ new \<and> distinct (map fst new) \<and>
    (\<forall>(i, s) \<in> set new. i < length cs \<and> entry (cs ! i) = Inr (Some s))"
proof -
  have "\<exists>new. es' = es @ new \<and> distinct (map fst new) \<and>
      (\<forall>(i, s) \<in> set new. i < n \<and> entry (cs ! i) = Inr (Some s))"
    if "fold_result (\<lambda>i es. rbind (entry (cs ! i)) (\<lambda>e. case e of None \<Rightarrow> Inr es | Some s \<Rightarrow> Inr (es @ [(i, s)])))
       [0..<n] es = Inr es'" for n es'
    using that
  proof (induction n arbitrary: es')
    case (Suc n)
    then obtain e1 where e1: "fold_result (\<lambda>i es. rbind (entry (cs ! i)) (\<lambda>e. case e of None \<Rightarrow> Inr es | Some s \<Rightarrow> Inr (es @ [(i, s)])))
       [0..<n] es = Inr e1"
      and step: "rbind (entry (cs ! n)) (\<lambda>e. case e of None \<Rightarrow> Inr e1 | Some s \<Rightarrow> Inr (e1 @ [(n, s)])) = Inr es'"
      by (auto simp: fold_result_append rbind_Inr)
    obtain new where new: "e1 = es @ new" "distinct (map fst new)"
      "\<forall>(i, s) \<in> set new. i < n \<and> entry (cs ! i) = Inr (Some s)"
      using Suc.IH [OF e1] by blast
    from step obtain e where e: "entry (cs ! n) = Inr e" by (auto simp: rbind_Inr)
    show ?case
    proof (cases e)
      case None
      then show ?thesis using step e new by (auto simp: less_Suc_eq)
    next
      case (Some s)
      then have "es' = es @ (new @ [(n, s)])" using step e new(1) by simp
      moreover have "distinct (map fst (new @ [(n, s)]))" using new(2,3) by auto
      ultimately show ?thesis using new(3) e Some by (intro exI [of _ "new @ [(n, s)]"]) auto
    qed
  qed simp
  then show ?thesis using assms unfolding append_entries_def by blast
qed

lemma partition_entry_kind:
  "partition_entry p c = Inr (Some s) \<Longrightarrow> ic_usable c \<and> term_kind p c = 5 \<and> length s = 4"
  by (auto simp: partition_entry_def term_kind_def column_idx_defs split: if_splits)

lemma metadata_entry_kind:
  "metadata_entry p c = Inr (Some s) \<Longrightarrow> ic_usable c \<and> term_kind p c = 6 \<and> length s = 4"
  by (auto simp: metadata_entry_def term_kind_def column_idx_defs Let_def split: if_splits option.splits)

lemma distance_entry_kind:
  "distance_entry p c = Inr (Some s) \<Longrightarrow> ic_usable c \<and> term_kind p c = 3 \<and> length s = 4"
  by (auto simp: distance_entry_def term_kind_def column_idx_defs split: if_splits option.splits)

lemma entries_add:
  assumes "append_entries entry cs es = Inr es'" and "entries_ok cs es"
    and "\<And>c s. entry c = Inr (Some s) \<Longrightarrow> ic_usable c \<and> term_kind p c = kind \<and> length s = 4"
    and "\<forall>(i, s) \<in> set es. term_kind p (cs ! i) \<in> K" and "kind \<notin> K"
  shows "entries_ok cs es' \<and> (\<forall>(i, s) \<in> set es'. term_kind p (cs ! i) \<in> insert kind K) \<and> take (length es) es' = es"
proof -
  obtain new where new: "es' = es @ new" "distinct (map fst new)"
    "\<forall>(i, s) \<in> set new. i < length cs \<and> entry (cs ! i) = Inr (Some s)"
    using append_entries_ok [OF assms(1)] by blast
  have n: "i < length cs \<and> ic_usable (cs ! i) \<and> term_kind p (cs ! i) = kind \<and> length s = 4" if "(i, s) \<in> set new" for i s
    using new(3) assms(3) that by blast
  have "fst ` set es \<inter> fst ` set new = {}" using n assms(4,5) by fastforce
  then have "distinct (map fst es')" using new(1,2) assms(2) by (simp add: entries_ok_def)
  moreover have "\<forall>(i, s) \<in> set es'. i < length cs \<and> ic_usable (cs ! i) \<and> length s = 4"
    using n assms(2) by (auto simp: new(1) entries_ok_def)
  ultimately show ?thesis using n assms(4) by (auto simp: new(1) entries_ok_def)
qed

lemma knn_entries:
  assumes "append_entries (partition_entry p) cs es0 = Inr es1" and "append_entries (metadata_entry p) cs es1 = Inr es2"
    and "append_entries (distance_entry p) cs es2 = Inr es3"
    and "entries_ok cs es0" and "\<forall>(i, s) \<in> set es0. term_kind p (cs ! i) \<in> {0, 1, 2, 4}"
  shows "entries_ok cs es3 \<and> take (length es0) es3 = es0"
proof -
  have 1: "entries_ok cs es1" "\<forall>(i, s) \<in> set es1. term_kind p (cs ! i) \<in> {5, 0, 1, 2, 4}" "take (length es0) es1 = es0"
    using entries_add [OF assms(1,4) partition_entry_kind assms(5)] by simp_all
  have 2: "entries_ok cs es2" "\<forall>(i, s) \<in> set es2. term_kind p (cs ! i) \<in> {6, 5, 0, 1, 2, 4}" "take (length es1) es2 = es1"
    using entries_add [OF assms(2) 1(1) metadata_entry_kind 1(2)] by simp_all
  have 3: "entries_ok cs es3" "take (length es2) es3 = es2"
    using entries_add [OF assms(3) 2(1) distance_entry_kind 2(2)] by simp_all
  have "take (length es0) es3 = es0"
    using 1(3) 2(3) 3(2) append_entries_ok [OF assms(1)] append_entries_ok [OF assms(2)] append_entries_ok [OF assms(3)] by auto
  then show ?thesis using 3(1) by blast
qed

definition no_terms :: index_terms where
  "no_terms = \<lparr>tm_match = None, tm_limit = None, tm_rowid = None, tm_k = None, tm_rowid_in = None, tm_aux = False\<rparr>"

lemma scan_ok:
  assumes "fold_result (scan_constraint p cs) [0..<length cs] no_terms = Inr t"
  shows "terms_ok p cs t"
proof (rule fold_result_inv [OF assms])
  show "terms_ok p cs no_terms" by (simp add: terms_ok_def no_terms_def)
  show "terms_ok p cs t'" if "i \<in> set [0..<length cs]" "scan_constraint p cs i t = Inr t'" "terms_ok p cs t" for i t t'
    using scan_constraint_ok [OF that(2,3)] that(1) by simp
qed

lemma vector_idx_less:
  assumes "vtab_ok p" and "vec0_column_idx_is_vector p c"
  shows "vec0_column_idx_to_vector_idx p c < length (vector_columns p)"
proof -
  define j where "j = nat (c - 1)"
  have "j < length (user_columns p)" "fst (user_columns p ! j) = SQLITE_VEC0_USER_COLUMN_KIND_VECTOR"
    using assms by (auto simp: vec0_column_idx_is_vector_def vtab_ok_def j_def)
  moreover have "\<forall>(kind, i) \<in> set (user_columns p). i < kind_count p kind" using assms(1) by (simp add: vtab_ok_def)
  ultimately show ?thesis
    by (metis (mono_tags, lifting) case_prod_unfold j_def kind_count_def nth_mem vec0_column_idx_to_vector_idx_def
        vec0_user_column_kind.simps(13))
qed

text \<open>The first two values of a KNN plan, and what follows them.\<close>

lemma best_index_knn:
  assumes "vec0BestIndex p cs orderBy colUsed = Inr plan" and "hd (ip_idxStr plan) = query_plan_char VEC0_QUERY_PLAN_KNN"
  shows "\<exists>t i v j rest es. terms_ok p cs t \<and> tm_match t = Some (i, v) \<and> (tm_limit t = Some j \<or> tm_k t = Some j) \<and>
    plan = \<lparr>ip_idxNum = int v, ip_idxStr = CHR ''3'' # concat (map snd es), ip_argv = map fst es,
      ip_in = ip_in plan, ip_cost = 30, ip_rows = 10\<rparr> \<and>
    entries_ok cs es \<and> es = (i, ''{___'') # (j, ''}___'') # rest"
proof -
  obtain t where t: "fold_result (scan_constraint p cs) [0..<length cs] no_terms = Inr t"
    using assms(1) by (auto simp: vec0BestIndex_def no_terms_def rbind_Inr)
  have ok: "terms_ok p cs t" by (rule scan_ok [OF t])
  note run = assms(1) [unfolded vec0BestIndex_def no_terms_def [symmetric] t rbind_simps]
  obtain i v where m: "tm_match t = Some (i, v)"
    using run assms(2) by (auto split: option.splits)
  define lk where "lk = (case tm_limit t of Some l \<Rightarrow> l | None \<Rightarrow> the (tm_k t))"
  have j: "tm_limit t = Some lk \<or> tm_k t = Some lk"
    using run m by (auto simp: lk_def split: option.splits)
  define es0 where "es0 = [(i, ''{___''), (lk, ''}___'')]
    @ (case tm_rowid_in t of None \<Rightarrow> [] | Some r \<Rightarrow> [(r, ''[___'')])"
  obtain es1 es2 es3 where es: "append_entries (partition_entry p) cs es0 = Inr es1"
      "append_entries (metadata_entry p) cs es1 = Inr es2" "append_entries (distance_entry p) cs es2 = Inr es3"
    and plan: "plan = \<lparr>ip_idxNum = int v, ip_idxStr = CHR ''3'' # concat (map snd es3), ip_argv = map fst es3,
      ip_in = ip_in plan, ip_cost = 30, ip_rows = 10\<rparr>"
    using run m by (auto simp: three_blanks_def es0_def lk_def rbind_Inr split: option.splits if_splits)
  have "entries_ok cs es0 \<and> (\<forall>(i, s) \<in> set es0. term_kind p (cs ! i) \<in> {0, 1, 2, 4})"
    using ok m j by (auto simp: es0_def entries_ok_def terms_ok_def split: option.splits)
  then have K: "entries_ok cs es3" "take (length es0) es3 = es0" using knn_entries [OF es] by blast+
  then have "es3 = es0 @ drop (length es0) es3" by (metis append_take_drop_id)
  then have "\<exists>rest. es3 = (i, ''{___'') # (lk, ''}___'') # rest" by (auto simp: es0_def)
  then show ?thesis using ok m j plan K(1) by blast
qed

lemma best_index_other:
  assumes "vec0BestIndex p cs orderBy colUsed = Inr plan" and "hd (ip_idxStr plan) \<noteq> query_plan_char VEC0_QUERY_PLAN_KNN"
  shows "(\<exists>r. r < length cs \<and> ic_usable (cs ! r) \<and> ip_idxStr plan = ''2!___'' \<and> ip_argv plan = [r]) \<or>
    (ip_idxStr plan = ''1'' \<and> ip_argv plan = [])"
proof -
  obtain t where t: "fold_result (scan_constraint p cs) [0..<length cs] no_terms = Inr t"
    using assms(1) by (auto simp: vec0BestIndex_def no_terms_def rbind_Inr)
  have ok: "terms_ok p cs t" by (rule scan_ok [OF t])
  note run = assms(1) [unfolded vec0BestIndex_def no_terms_def [symmetric] t rbind_simps]
  have "tm_match t = None"
    using run assms(2) by (auto simp: rbind_Inr split: option.splits if_splits)
  then show ?thesis using run ok by (auto simp: terms_ok_def three_blanks_def split: option.splits)
qed


definition ex_constraints :: "index_constraint list" where
  "ex_constraints = [\<lparr>ic_column = 1, ic_op = OP_MATCH, ic_usable = True, ic_in = False\<rparr>,
     \<lparr>ic_column = 0, ic_op = OP_EQ, ic_usable = True, ic_in = True\<rparr>,
     \<lparr>ic_column = 3, ic_op = OP_EQ, ic_usable = True, ic_in = False\<rparr>,
     \<lparr>ic_column = 2, ic_op = OP_GE, ic_usable = True, ic_in = False\<rparr>]"

lemma ex_plan: "vec0BestIndex ex_table ex_constraints [(2, False)] 7 =
    Inr \<lparr>ip_idxNum = 0, ip_idxStr = ''3{___}___[___*b__'', ip_argv = [0, 2, 1, 3], ip_in = [1], ip_cost = 30, ip_rows = 10\<rparr>"
  by code_simp

lemma ex_table_ok: "vtab_ok ex_table"
  by code_simp


end
