(* ===== verification/Filters.thy ===== *)
theory Filters
  imports Plan Bitmaps
begin

text \<open>
  The metadata constraints of a KNN query: \<open>vec0_set_metadata_filter_bitmap\<close> and
  \<open>vec0_metadata_filter_text\<close> compute, for one chunk, which of its positions satisfy one constraint.
\<close>

section \<open>Comparing texts\<close>

text \<open>\<open>strncmp\<close> of the C library; the code only looks at the sign of its result.\<close>

definition c_char :: "string \<Rightarrow> nat" where
  "c_char s = (case s of [] \<Rightarrow> 0 | c # _ \<Rightarrow> of_char c)"

fun strncmp :: "string \<Rightarrow> string \<Rightarrow> nat \<Rightarrow> int" where
  "strncmp a b 0 = 0"
| "strncmp a b (Suc n) =
     (if c_char a \<noteq> c_char b then int (c_char a) - int (c_char b)
      else if c_char a = 0 then 0
      else strncmp (tl a) (tl b) n)"

section \<open>Constraints with a list of values\<close>

text \<open>\<open>struct Vec0MetadataIn\<close>: the constraint's place among the values, its column and its values.
  The text entries keep their length, as their string ends at a NUL.\<close>

record Vec0MetadataIn =
  in_argv_idx :: nat
  in_metadata_idx :: nat
  in_ints :: "int list"
  in_texts :: "(nat \<times> string) list"

definition metadata_in_entry :: "Vec0MetadataIn list \<Rightarrow> nat \<Rightarrow> Vec0MetadataIn option" where
  "metadata_in_entry aMetadataIn argv_idx = List.find (\<lambda>m. in_argv_idx m = argv_idx) aMetadataIn"

section \<open>Texts\<close>

text \<open>The full text of a row with a long one.\<close>

definition vec0_get_metadata_text_long_value ::
  "faults \<Rightarrow> 'g vec0_db \<Rightarrow> nat \<Rightarrow> int \<Rightarrow> string result"
where
  "vec0_get_metadata_text_long_value F db metadata_idx rowid =
     attempt F ''long text'' metadata_idx
       (case tbl_get (t_metatext db metadata_idx) rowid of None \<Rightarrow> Inl SQLITE_ERROR | Some s \<Rightarrow> Inr s)"

text \<open>A view in the column's buffer: the length and the first twelve bytes, as the pointer to them sees it.\<close>

definition view_length :: "bytes \<Rightarrow> nat \<Rightarrow> int" where
  "view_length buffer i = i32_of_bytes (take 4 (drop (i * 16) buffer))"

definition view_prefix :: "bytes \<Rightarrow> nat \<Rightarrow> string" where
  "view_prefix buffer i = bytes_char (take 12 (drop (i * 16 + 4) buffer))"

text \<open>
  A negative length, which no write stores, counts as 0. One position under \<open>=\<close> (and, with the result negated, under \<open>!=\<close>): the lengths must agree, short
  texts are compared in the view, longer ones in full. \<open>long\<close> reads the full text.
\<close>

definition text_equal :: "(unit \<Rightarrow> string result) \<Rightarrow> int \<Rightarrow> string \<Rightarrow> nat \<Rightarrow> string \<Rightarrow> bool result" where
  "text_equal long nPrefix sPrefix nTarget sTarget =
     (if nPrefix \<noteq> int nTarget then Inr False
      else let cmpPrefix = strncmp sPrefix sTarget (min (nat nPrefix) VEC0_METADATA_TEXT_VIEW_DATA_LENGTH)
      in if nPrefix \<le> int VEC0_METADATA_TEXT_VIEW_DATA_LENGTH then Inr (cmpPrefix = 0)
         else if cmpPrefix \<noteq> 0 then Inr False
         else rbind (long ()) (\<lambda>sFull.
           if nPrefix \<noteq> int (length sFull) then Inl SQLITE_ERROR
           else Inr (strncmp sFull sTarget (length sFull) = 0)))"

text \<open>One position under an ordering; \<open>test\<close> is the comparison of a number with 0. A text of twelve
  bytes is taken for a long one.\<close>

definition text_ordered ::
  "(int \<Rightarrow> int \<Rightarrow> bool) \<Rightarrow> (unit \<Rightarrow> string result) \<Rightarrow> int \<Rightarrow> string \<Rightarrow> nat \<Rightarrow> string \<Rightarrow> bool result"
where
  "text_ordered test long nPrefix sPrefix nTarget sTarget =
     (let cmpPrefix = strncmp sPrefix sTarget
            (min (min (nat nPrefix) VEC0_METADATA_TEXT_VIEW_DATA_LENGTH) nTarget)
      in if nPrefix < int VEC0_METADATA_TEXT_VIEW_DATA_LENGTH
         then Inr (if cmpPrefix = 0 then test nPrefix (int nTarget) else test cmpPrefix 0)
         else rbind (long ()) (\<lambda>sFull.
           if nPrefix \<noteq> int (length sFull) then Inl SQLITE_ERROR
           else Inr (test (strncmp sFull sTarget (length sFull)) 0)))"

text \<open>One position under \<open>in (...)\<close>: the first entry that is equal ends the loop.\<close>

fun text_in :: "(unit \<Rightarrow> string result) \<Rightarrow> int \<Rightarrow> string \<Rightarrow> (nat \<times> string) list \<Rightarrow> bool result" where
  "text_in long nPrefix sPrefix [] = Inr False"
| "text_in long nPrefix sPrefix ((n, zString) # entries) =
     rbind (text_equal long nPrefix sPrefix n zString) (\<lambda>eq.
       if eq then Inr True else text_in long nPrefix sPrefix entries)"

definition text_test ::
  "vec0_metadata_operator \<Rightarrow> (unit \<Rightarrow> string result) \<Rightarrow> int \<Rightarrow> string \<Rightarrow> nat \<Rightarrow> string \<Rightarrow> (nat \<times> string) list \<Rightarrow> bool result"
where
  "text_test op long nPrefix sPrefix nTarget sTarget entries = (case op of
     VEC0_METADATA_OPERATOR_EQ \<Rightarrow> text_equal long nPrefix sPrefix nTarget sTarget
   | VEC0_METADATA_OPERATOR_NE \<Rightarrow> rbind (text_equal long nPrefix sPrefix nTarget sTarget) (\<lambda>eq. Inr (\<not> eq))
   | VEC0_METADATA_OPERATOR_GT \<Rightarrow> text_ordered (>) long nPrefix sPrefix nTarget sTarget
   | VEC0_METADATA_OPERATOR_GE \<Rightarrow> text_ordered (\<ge>) long nPrefix sPrefix nTarget sTarget
   | VEC0_METADATA_OPERATOR_LE \<Rightarrow> text_ordered (\<le>) long nPrefix sPrefix nTarget sTarget
   | VEC0_METADATA_OPERATOR_LT \<Rightarrow> text_ordered (<) long nPrefix sPrefix nTarget sTarget
   | VEC0_METADATA_OPERATOR_IN \<Rightarrow> text_in long nPrefix sPrefix entries)"

text \<open>
  The rowids of the chunk are read with the chunk's rowid cut to an \<open>int\<close>. Under \<open>in (...)\<close> a position
  that does not match keeps its bit, which the caller has cleared. A constraint that is missing from
  \<open>aMetadataIn\<close> is not noticed by the code (\<open>metadataInIdx\<close> is unsigned); its caller never leaves one out.
\<close>

definition vec0_metadata_filter_text ::
  "faults \<Rightarrow> 'g vec0_db \<Rightarrow> sqlite3_value \<Rightarrow> bytes \<Rightarrow> nat \<Rightarrow> vec0_metadata_operator \<Rightarrow> bytes \<Rightarrow> nat \<Rightarrow> int \<Rightarrow>
   Vec0MetadataIn list \<Rightarrow> nat \<Rightarrow> bytes result"
where
  "vec0_metadata_filter_text F db v buffer csize op b metadata_idx chunk_rowid aMetadataIn argv_idx =
     attempt F ''filter text rowids'' metadata_idx
       (case tbl_get (t_chunks db) (int32_of chunk_rowid) of
          None \<Rightarrow> Inl SQLITE_ERROR
        | Some chunk \<Rightarrow>
           (let entries = (if op = VEC0_METADATA_OPERATOR_IN
                           then map_option in_texts (metadata_in_entry aMetadataIn argv_idx) else Some [])
            in case entries of
                 None \<Rightarrow> Inl SQLITE_ERROR
               | Some entries \<Rightarrow>
                   fold_result (\<lambda>i b.
                     rbind (text_test op
                              (\<lambda>_. vec0_get_metadata_text_long_value F db metadata_idx (i64_at (ck_rowids chunk) i))
                              (view_length buffer i) (view_prefix buffer i) (value_bytes v) (value_text v) entries)
                       (\<lambda>r. Inr (if op = VEC0_METADATA_OPERATOR_IN \<and> \<not> r then b else bitmap_set b i r)))
                     [0..<csize] b))"

section \<open>All kinds of columns\<close>

definition int_test :: "vec0_metadata_operator \<Rightarrow> int \<Rightarrow> int \<Rightarrow> int list \<Rightarrow> bool" where
  "int_test op x target targets = (case op of
     VEC0_METADATA_OPERATOR_EQ \<Rightarrow> x = target
   | VEC0_METADATA_OPERATOR_GT \<Rightarrow> x > target
   | VEC0_METADATA_OPERATOR_LE \<Rightarrow> x \<le> target
   | VEC0_METADATA_OPERATOR_LT \<Rightarrow> x < target
   | VEC0_METADATA_OPERATOR_GE \<Rightarrow> x \<ge> target
   | VEC0_METADATA_OPERATOR_NE \<Rightarrow> x \<noteq> target
   | VEC0_METADATA_OPERATOR_IN \<Rightarrow> x \<in> set targets)"

definition float_test :: "vec0_metadata_operator \<Rightarrow> f64 \<Rightarrow> f64 \<Rightarrow> bool" where
  "float_test op x target = (case op of
     VEC0_METADATA_OPERATOR_EQ \<Rightarrow> fp_eq x target
   | VEC0_METADATA_OPERATOR_GT \<Rightarrow> fp_gt x target
   | VEC0_METADATA_OPERATOR_LE \<Rightarrow> fp_le x target
   | VEC0_METADATA_OPERATOR_LT \<Rightarrow> fp_lt x target
   | VEC0_METADATA_OPERATOR_GE \<Rightarrow> fp_le target x
   | VEC0_METADATA_OPERATOR_NE \<Rightarrow> \<not> fp_eq x target
   | VEC0_METADATA_OPERATOR_IN \<Rightarrow> False)"

definition f64_at :: "bytes \<Rightarrow> nat \<Rightarrow> f64" where
  "f64_at bs i = f64_of_bytes (take 8 (drop (8 * i) bs))"

definition vec0_set_metadata_filter_bitmap ::
  "vec0_vtab \<Rightarrow> faults \<Rightarrow> 'g vec0_db \<Rightarrow> nat \<Rightarrow> vec0_metadata_operator \<Rightarrow> sqlite3_value \<Rightarrow> int \<Rightarrow> bytes \<Rightarrow> nat \<Rightarrow>
   Vec0MetadataIn list \<Rightarrow> nat \<Rightarrow> bytes result"
where
  "vec0_set_metadata_filter_bitmap p F db metadata_idx op v chunk_rowid b csize aMetadataIn argv_idx =
     attempt F ''filter metadata'' metadata_idx
       (case tbl_get (t_metadata db metadata_idx) chunk_rowid of
          None \<Rightarrow> Inl SQLITE_ERROR
        | Some buffer \<Rightarrow>
           (let kind = snd (metadata_columns p ! metadata_idx)
            in if length buffer \<noteq> vec0_metadata_chunk_size kind csize then Inl SQLITE_ERROR
               else case kind of
                 VEC0_METADATA_COLUMN_KIND_BOOLEAN \<Rightarrow>
                   (let target = value_int v \<noteq> 0
                    in if target \<and> op = VEC0_METADATA_OPERATOR_EQ \<or> \<not> target \<and> op = VEC0_METADATA_OPERATOR_NE
                       then Inr (fold (\<lambda>i b. bitmap_set b i (bitmap_get buffer i)) [0..<csize] b)
                       else Inr (fold (\<lambda>i b. bitmap_set b i (\<not> bitmap_get buffer i)) [0..<csize] b))
               | VEC0_METADATA_COLUMN_KIND_INTEGER \<Rightarrow>
                   (let target = value_int64 v
                    in if op = VEC0_METADATA_OPERATOR_IN
                       then (case metadata_in_entry aMetadataIn argv_idx of
                               None \<Rightarrow> Inl SQLITE_ERROR
                             | Some m \<Rightarrow>
                                 Inr (fold (\<lambda>i b. if i64_at buffer i \<in> set (in_ints m) then bitmap_set b i True else b)
                                        [0..<csize] b))
                       else Inr (fold (\<lambda>i b. bitmap_set b i (int_test op (i64_at buffer i) target [])) [0..<csize] b))
               | VEC0_METADATA_COLUMN_KIND_FLOAT \<Rightarrow>
                   (if op = VEC0_METADATA_OPERATOR_IN then Inr b
                    else Inr (fold (\<lambda>i b. bitmap_set b i (float_test op (f64_at buffer i) (value_double v))) [0..<csize] b))
               | VEC0_METADATA_COLUMN_KIND_TEXT \<Rightarrow>
                   vec0_metadata_filter_text F db v buffer csize op b metadata_idx chunk_rowid aMetadataIn argv_idx))"

end
