(* ===== verification/RowidSets.thy ===== *)
theory RowidSets
  imports Tables
begin

text \<open>
  The set of rowids of a \<open>rowid in (...)\<close> constraint: an array that is sorted with \<open>qsort\<close> and searched
  with \<open>bsearch\<close>, both of the C library (as glibc has them: a merge sort and a binary search), under the
  comparison function \<open>_cmp\<close>.
\<close>

section \<open>The comparison and the library's algorithms\<close>

text \<open>The difference of two 64-bit integers, returned as an \<open>int\<close>.\<close>

definition cmp_i64 :: "int \<Rightarrow> int \<Rightarrow> int" where
  "cmp_i64 a b = int32_of (a - b)"

fun merge_by :: "(int \<Rightarrow> int \<Rightarrow> int) \<Rightarrow> int list \<Rightarrow> int list \<Rightarrow> int list" where
  "merge_by cmp [] ys = ys"
| "merge_by cmp xs [] = xs"
| "merge_by cmp (x # xs) (y # ys) =
     (if cmp x y \<le> 0 then x # merge_by cmp xs (y # ys) else y # merge_by cmp (x # xs) ys)"

function qsort :: "(int \<Rightarrow> int \<Rightarrow> int) \<Rightarrow> int list \<Rightarrow> int list" where
  "qsort cmp xs =
     (if length xs \<le> 1 then xs
      else merge_by cmp (qsort cmp (take (length xs div 2) xs)) (qsort cmp (drop (length xs div 2) xs)))"
  by pat_completeness auto
termination
  by (relation "measure (\<lambda>(cmp, xs). length xs)") auto

declare qsort.simps [simp del]

function bsearch :: "(int \<Rightarrow> int \<Rightarrow> int) \<Rightarrow> int \<Rightarrow> int list \<Rightarrow> nat \<Rightarrow> nat \<Rightarrow> nat option" where
  "bsearch cmp key xs l u =
     (if l < u
      then let idx = (l + u) div 2; comparison = cmp key (xs ! idx)
           in if comparison < 0 then bsearch cmp key xs l idx
              else if comparison > 0 then bsearch cmp key xs (Suc idx) u
              else Some idx
      else None)"
  by pat_completeness auto
termination
  by (relation "measure (\<lambda>(cmp, key, xs, l, u). u - l)") auto

declare bsearch.simps [simp del]

definition rowid_in :: "int \<Rightarrow> int list \<Rightarrow> bool" where
  "rowid_in rowid arr \<longleftrightarrow> bsearch cmp_i64 rowid arr 0 (length arr) \<noteq> None"

section \<open>Sorting and searching under a comparison\<close>

text \<open>What the two algorithms rely on: on the keys at hand the comparison is that of the integers.\<close>

locale comparator =
  fixes cmp :: "int \<Rightarrow> int \<Rightarrow> int"
    and keys :: "int set"
  assumes cmp_less: "x \<in> keys \<Longrightarrow> y \<in> keys \<Longrightarrow> cmp x y < 0 \<longleftrightarrow> x < y"
    and cmp_zero: "x \<in> keys \<Longrightarrow> y \<in> keys \<Longrightarrow> cmp x y = 0 \<longleftrightarrow> x = y"
begin

lemma mset_merge_by: "mset (merge_by cmp xs ys) = mset xs + mset ys"
  by (induction cmp xs ys rule: merge_by.induct) auto

lemma set_merge_by: "set (merge_by cmp xs ys) = set xs \<union> set ys"
  by (metis mset_merge_by set_mset_mset set_mset_union)

lemma sorted_merge_by:
  "set xs \<subseteq> keys \<Longrightarrow> set ys \<subseteq> keys \<Longrightarrow> sorted xs \<Longrightarrow> sorted ys \<Longrightarrow> sorted (merge_by cmp xs ys)"
proof (induction xs arbitrary: ys)
  case (Cons x xs)
  note outer = Cons
  show ?case
    using outer(3-5)
  proof (induction ys)
    case (Cons y ys)
    have k: "x \<in> keys" "y \<in> keys" using Cons.prems outer(2) by auto
    show ?case
    proof (cases "cmp x y \<le> 0")
      case True
      then have "x \<le> y" using cmp_less [OF k] cmp_zero [OF k] by linarith
      moreover have "sorted (merge_by cmp xs (y # ys))" using outer Cons.prems by simp
      ultimately show ?thesis using True outer(4) Cons.prems by (auto simp: set_merge_by)
    next
      case False
      then have "y < x" using cmp_less [OF k] cmp_zero [OF k] by linarith
      moreover have "sorted (merge_by cmp (x # xs) ys)" using Cons by auto
      ultimately show ?thesis using False outer(4) Cons.prems by (auto simp: set_merge_by)
    qed
  qed (use outer in simp)
qed simp

lemma qsort_sorts: "set xs \<subseteq> keys \<Longrightarrow> mset (qsort cmp xs) = mset xs \<and> sorted (qsort cmp xs)"
proof (induction "length xs" arbitrary: xs rule: less_induct)
  case less
  show ?case
  proof (cases "length xs \<le> 1")
    case True
    then show ?thesis by (cases xs; cases "tl xs") (auto simp: qsort.simps)
  next
    case False
    let ?l = "take (length xs div 2) xs" and ?r = "drop (length xs div 2) xs"
    have "set ?l \<subseteq> keys" "set ?r \<subseteq> keys" using less.prems set_take_subset set_drop_subset by fast+
    then have IH: "mset (qsort cmp ?l) = mset ?l \<and> sorted (qsort cmp ?l)" "mset (qsort cmp ?r) = mset ?r \<and> sorted (qsort cmp ?r)"
      using False by (auto intro!: less.hyps)
    then have "set (qsort cmp ?l) \<subseteq> keys" "set (qsort cmp ?r) \<subseteq> keys"
      using \<open>set ?l \<subseteq> keys\<close> \<open>set ?r \<subseteq> keys\<close> by (metis mset_eq_setD)+
    then have "sorted (merge_by cmp (qsort cmp ?l) (qsort cmp ?r))" using IH sorted_merge_by by blast
    moreover have "mset ?l + mset ?r = mset xs" by (metis append_take_drop_id mset_append)
    ultimately show ?thesis using False IH by (simp add: qsort.simps [of cmp xs] mset_merge_by)
  qed
qed

lemma bsearch_finds:
  assumes "sorted xs" and "set xs \<subseteq> keys" and "key \<in> keys"
  shows "u \<le> length xs \<Longrightarrow> bsearch cmp key xs l u \<noteq> None \<longleftrightarrow> (\<exists>i. l \<le> i \<and> i < u \<and> xs ! i = key)"
proof (induction "u - l" arbitrary: l u rule: less_induct)
  case less
  show ?case
  proof (cases "l < u")
    case False
    then show ?thesis by (auto simp: bsearch.simps)
  next
    case True
    define m where "m = (l + u) div 2"
    have m: "l \<le> m" "m < u" using True by (auto simp: m_def)
    then have k: "xs ! m \<in> keys" using less.prems assms(2) by (meson less_le_trans nth_mem subsetD)
    have step: "bsearch cmp key xs l u = (if cmp key (xs ! m) < 0 then bsearch cmp key xs l m
        else if cmp key (xs ! m) > 0 then bsearch cmp key xs (Suc m) u else Some m)"
      using True by (simp add: bsearch.simps [of cmp key xs l u] m_def Let_def)
    have le: "xs ! i \<le> xs ! j" if "i \<le> j" "j < u" for i j
      using assms(1) that less.prems by (simp add: sorted_nth_mono)
    show ?thesis
    proof (cases "xs ! m = key")
      case True
      then have "cmp key (xs ! m) = 0" using cmp_zero [OF assms(3) k] by simp
      then show ?thesis using step True m by auto
    next
      case False
      then consider (below) "key < xs ! m" | (above) "xs ! m < key" by linarith
      then show ?thesis
      proof cases
        case below
        have "bsearch cmp key xs l u = bsearch cmp key xs l m" using step cmp_less [OF assms(3) k] below by simp
        moreover have "(\<exists>i. l \<le> i \<and> i < u \<and> xs ! i = key) \<longleftrightarrow> (\<exists>i. l \<le> i \<and> i < m \<and> xs ! i = key)"
          using le m below by (metis leD leI less_trans)
        ultimately show ?thesis using less.hyps [of m l] m less.prems by simp
      next
        case above
        then have "\<not> cmp key (xs ! m) < 0" "cmp key (xs ! m) \<noteq> 0" using cmp_less [OF assms(3) k] cmp_zero [OF assms(3) k] by auto
        then have "bsearch cmp key xs l u = bsearch cmp key xs (Suc m) u" using step by simp
        moreover have "(\<exists>i. l \<le> i \<and> i < u \<and> xs ! i = key) \<longleftrightarrow> (\<exists>i. Suc m \<le> i \<and> i < u \<and> xs ! i = key)"
          using le m above by (metis Suc_le_eq leD leI le_trans less_imp_le_nat)
        ultimately show ?thesis using less.hyps [of u "Suc m"] m less.prems by simp
      qed
    qed
  qed
qed

end

text \<open>On keys less than \<open>2 ^ 31\<close> apart the difference fits an \<open>int\<close>.\<close>

lemma int32_of_small: "- (2 ^ 31) \<le> v \<Longrightarrow> v < 2 ^ 31 \<Longrightarrow> int32_of v = v"
  by (simp add: int32_of_def)

interpretation window: comparator cmp_i64 "{a ..< a + 2 ^ 31}" for a
  by unfold_locales (auto simp: cmp_i64_def int32_of_small)

lemma rowid_in_window:
  assumes "set xs \<subseteq> {a ..< a + 2 ^ 31}" and "rowid \<in> {a ..< a + 2 ^ 31}"
  shows "rowid_in rowid (qsort cmp_i64 xs) \<longleftrightarrow> rowid \<in> set xs"
proof -
  have s: "mset (qsort cmp_i64 xs) = mset xs" "sorted (qsort cmp_i64 xs)"
    using window.qsort_sorts [OF assms(1)] by blast+
  then have set: "set (qsort cmp_i64 xs) = set xs" by (metis mset_eq_setD)
  show ?thesis
    using window.bsearch_finds [OF s(2) _ assms(2), of "length (qsort cmp_i64 xs)" 0] set assms(1)
    by (simp add: rowid_in_def in_set_conv_nth [of rowid "qsort cmp_i64 xs", unfolded set] conj_comms)
qed

end
