(* ===== verification/Knn.thy ===== *)
theory Knn
  imports Filters RowidSets Topk DiskannGraph
begin

text \<open>
  KNN queries: the scan over the chunks, the query of a DiskANN index, the two phases of the rescore
  index, and \<open>vec0Filter_knn\<close>, which reads the values of the plan and picks one of them.
\<close>

section \<open>The plan's characters\<close>

definition idx_char :: "string \<Rightarrow> nat \<Rightarrow> nat \<Rightarrow> char" where
  "idx_char idxStr i j = idxStr ! (1 + i * 4 + j)"

abbreviation is_kind :: "string \<Rightarrow> vec0_idxstr_kind \<Rightarrow> nat \<Rightarrow> bool" where
  "is_kind idxStr kind i \<equiv> idx_char idxStr i 0 = idxstr_kind_char kind"

definition letter_idx :: "char \<Rightarrow> nat" where
  "letter_idx c = of_char c - 65"

definition partition_operator_of :: "char \<Rightarrow> vec0_partition_operator option" where
  "partition_operator_of c = List.find (\<lambda>op. partition_operator_char op = c)
     [VEC0_PARTITION_OPERATOR_EQ, VEC0_PARTITION_OPERATOR_GT, VEC0_PARTITION_OPERATOR_LE,
      VEC0_PARTITION_OPERATOR_LT, VEC0_PARTITION_OPERATOR_GE, VEC0_PARTITION_OPERATOR_NE]"

definition metadata_operator_of :: "char \<Rightarrow> vec0_metadata_operator option" where
  "metadata_operator_of c = List.find (\<lambda>op. metadata_operator_char op = c)
     [VEC0_METADATA_OPERATOR_EQ, VEC0_METADATA_OPERATOR_GT, VEC0_METADATA_OPERATOR_LE,
      VEC0_METADATA_OPERATOR_LT, VEC0_METADATA_OPERATOR_GE, VEC0_METADATA_OPERATOR_NE, VEC0_METADATA_OPERATOR_IN]"

definition distance_operator_of :: "char \<Rightarrow> vec0_distance_constraint_operator option" where
  "distance_operator_of c = List.find (\<lambda>op. distance_operator_char op = c)
     [VEC0_DISTANCE_CONSTRAINT_GT, VEC0_DISTANCE_CONSTRAINT_GE, VEC0_DISTANCE_CONSTRAINT_LT, VEC0_DISTANCE_CONSTRAINT_LE]"

section \<open>The chunks of a query\<close>

text \<open>
  \<open>SELECT chunk_id, validity, rowids FROM _chunks WHERE partition00 = ? AND ...\<close>, in rowid order.
  \<open>sqlop\<close> is SQLite's comparison of a column with a value.
\<close>

type_synonym sql_comparison = "vec0_partition_operator \<Rightarrow> sqlite3_value \<Rightarrow> sqlite3_value \<Rightarrow> bool"

definition vec0_chunks_iter ::
  "sql_comparison \<Rightarrow> faults \<Rightarrow> 'g vec0_db \<Rightarrow> string \<Rightarrow> sqlite3_value list \<Rightarrow> vec0_chunk table result"
where
  "vec0_chunks_iter sqlop F db idxStr argv =
    (let cs = filter (is_kind idxStr VEC0_IDXSTR_KIND_KNN_PARTITON_CONSTRAINT) [0..<(length idxStr - 1) div 4]
     in if \<exists>i \<in> set cs. partition_operator_of (idx_char idxStr i 2) = None then Inl SQLITE_ERROR
        else attempt F ''chunks iter'' 0
          (Inr (filter (\<lambda>(chunk_id, chunk). \<forall>i \<in> set cs.
             sqlop (the (partition_operator_of (idx_char idxStr i 2)))
               (ck_partition chunk ! letter_idx (idx_char idxStr i 1)) (argv ! i)) (t_chunks db))))"

section \<open>The scan of one chunk\<close>

text \<open>The values of the query that the scan looks at; \<open>kq_rowids_in\<close> is the sorted array.\<close>

record knn_query =
  kq_vector :: bytes
  kq_k :: nat
  kq_idxStr :: string
  kq_argv :: "sqlite3_value list"
  kq_rowids_in :: "int list option"
  kq_metadata_in :: "Vec0MetadataIn list"

abbreviation chunk_rowids :: "vec0_chunk \<Rightarrow> nat \<Rightarrow> int list" where
  "chunk_rowids chunk n \<equiv> map (i64_at (ck_rowids chunk)) [0..<n]"

definition knn_rowids_filter :: "nat \<Rightarrow> vec0_chunk \<Rightarrow> int list option \<Rightarrow> bytes \<Rightarrow> bytes" where
  "knn_rowids_filter n chunk arrayRowidsIn b = (case arrayRowidsIn of
     None \<Rightarrow> b
   | Some arr \<Rightarrow>
       bitmap_and_inplace b
         (fold (\<lambda>i bm. if bitmap_get (ck_validity chunk) i
                       then bitmap_set bm i (rowid_in (i64_at (ck_rowids chunk) i) arr) else bm)
            [0..<n] (bitmap_new n)) n)"

text \<open>Every metadata constraint clears the bits of the positions it does not select. A character that is
  no operator, which no plan has, selects nothing.\<close>

definition knn_metadata_filter ::
  "vec0_vtab \<Rightarrow> faults \<Rightarrow> 'g vec0_db \<Rightarrow> knn_query \<Rightarrow> int \<Rightarrow> bytes \<Rightarrow> bytes result"
where
  "knn_metadata_filter p F db q chunk_id b =
    (let n = chunk_size p in
     fold_result (\<lambda>i b.
       if \<not> is_kind (kq_idxStr q) VEC0_IDXSTR_KIND_METADATA_CONSTRAINT i then Inr b
       else let metadata_idx = letter_idx (idx_char (kq_idxStr q) i 1)
       in attempt F ''open metadata blob'' metadata_idx
         (rbind (case metadata_operator_of (idx_char (kq_idxStr q) i 2) of
                   None \<Rightarrow> Inr (bitmap_new n)
                 | Some op \<Rightarrow> vec0_set_metadata_filter_bitmap p F db metadata_idx op (kq_argv q ! i) chunk_id
                               (bitmap_new n) n (kq_metadata_in q) i)
            (\<lambda>bm. Inr (bitmap_and_inplace b bm n))))
       [0..<length (kq_argv q)] b)"

text \<open>The distances of the positions that are left; the others keep the 0 they were set to. The code
  has the cases of \<open>vec0_distance_full\<close> once more.\<close>

definition knn_distances :: "VectorColumnDefinition \<Rightarrow> nat \<Rightarrow> bytes \<Rightarrow> bytes \<Rightarrow> bytes \<Rightarrow> f32 list" where
  "knn_distances col n baseVectors queryVector b =
     map (\<lambda>i. if \<not> bitmap_get b i then fp0
              else vec0_distance_full (drop (i * vector_column_byte_size col) baseVectors) queryVector
                     (vc_dimensions col) (vc_element_type col) (vc_distance_metric col))
       [0..<n]"

definition distance_test :: "vec0_distance_constraint_operator \<Rightarrow> f32 \<Rightarrow> f32 \<Rightarrow> bool" where
  "distance_test op d target = (case op of
     VEC0_DISTANCE_CONSTRAINT_GE \<Rightarrow> fp_le target d
   | VEC0_DISTANCE_CONSTRAINT_GT \<Rightarrow> fp_lt target d
   | VEC0_DISTANCE_CONSTRAINT_LE \<Rightarrow> fp_le d target
   | VEC0_DISTANCE_CONSTRAINT_LT \<Rightarrow> fp_lt d target)"

definition knn_distance_filter :: "nat \<Rightarrow> knn_query \<Rightarrow> f32 list \<Rightarrow> bytes \<Rightarrow> bytes" where
  "knn_distance_filter n q chunk_distances b =
     fold (\<lambda>i b.
       if \<not> is_kind (kq_idxStr q) VEC0_IDXSTR_KIND_KNN_DISTANCE_CONSTRAINT i then b
       else case distance_operator_of (idx_char (kq_idxStr q) i 1) of
         None \<Rightarrow> b
       | Some op \<Rightarrow>
           let target = to_f32 (value_double (kq_argv q ! i))
           in fold (\<lambda>j b. if bitmap_get b j \<and> \<not> distance_test op (chunk_distances ! j) target
                          then bitmap_set b j False else b) [0..<n] b)
       [0..<length (kq_argv q)] b"

text \<open>The best of the chunk are merged with the best so far.\<close>

definition knn_merge :: "nat \<Rightarrow> nat \<Rightarrow> vec0_chunk \<Rightarrow> f32 list \<Rightarrow> bytes \<Rightarrow> (f32 \<times> int) list \<Rightarrow> (f32 \<times> int) list" where
  "knn_merge n k chunk chunk_distances b topk =
    (let chunk_topk_idxs = min_idx chunk_distances n b (min k n) (bitmap_new n)
     in merge_sorted_lists (map fst topk) (map snd topk) (length topk) chunk_distances
          (chunk_rowids chunk n) chunk_topk_idxs (min (min k n) (length chunk_topk_idxs)) k)"

definition knn_chunk ::
  "vec0_vtab \<Rightarrow> VectorColumnDefinition \<Rightarrow> nat \<Rightarrow> faults \<Rightarrow> 'g vec0_db \<Rightarrow> knn_query \<Rightarrow> int \<times> vec0_chunk \<Rightarrow>
   (f32 \<times> int) list \<Rightarrow> (f32 \<times> int) list result"
where
  "knn_chunk p col vectorColumnIdx F db q row topk =
    (let (chunk_id, chunk) = row; n = chunk_size p
     in if length (ck_validity chunk) \<noteq> n div 8 then Inl SQLITE_ERROR
        else if length (ck_rowids chunk) \<noteq> n * 8 then Inl SQLITE_ERROR
        else attempt F ''knn open vectors'' vectorColumnIdx
          (case tbl_get (t_vectors db vectorColumnIdx) chunk_id of
             None \<Rightarrow> Inl SQLITE_ERROR
           | Some baseVectors \<Rightarrow>
               if length baseVectors \<noteq> n * vector_column_byte_size col then Inl SQLITE_ERROR
               else attempt F ''knn read vectors'' vectorColumnIdx
                 (rbind (knn_metadata_filter p F db q chunk_id
                           (knn_rowids_filter n chunk (kq_rowids_in q) (bitmap_copy (bitmap_new n) (ck_validity chunk) n)))
                    (\<lambda>b. let chunk_distances = knn_distances col n baseVectors (kq_vector q) b;
                             b = knn_distance_filter n q chunk_distances b
                         in Inr (knn_merge n (kq_k q) chunk chunk_distances b topk)))))"

definition vec0Filter_knn_chunks_iter ::
  "vec0_vtab \<Rightarrow> VectorColumnDefinition \<Rightarrow> nat \<Rightarrow> faults \<Rightarrow> 'g vec0_db \<Rightarrow> vec0_chunk table \<Rightarrow> knn_query \<Rightarrow>
   (f32 \<times> int) list result"
where
  "vec0Filter_knn_chunks_iter p col vectorColumnIdx F db chunks q =
     attempt F ''knn malloc'' 0
       (rbind (fold_result (\<lambda>row topk. attempt F ''knn step'' (nat (fst row)) (knn_chunk p col vectorColumnIdx F db q row topk))
                 chunks [])
          (\<lambda>topk. attempt F ''knn last step'' 0 (Inr topk)))"

section \<open>The query of a DiskANN index\<close>

text \<open>\<open>struct vec0_query_knn_data\<close>: \<open>k_used\<close> is the number of rows.\<close>

record vec0_query_knn_data =
  kd_k :: int
  kd_rows :: "(f32 \<times> int) list"
  kd_current_idx :: nat

definition knn_find :: "vec0_idxstr_kind \<Rightarrow> string \<Rightarrow> nat \<Rightarrow> nat option" where
  "knn_find kind idxStr argc = List.find (is_kind idxStr kind) (rev [0..<argc])"

text \<open>A buffered row is added while there is room, and replaces the worst row after that.\<close>

definition worst_row :: "(f32 \<times> int) list \<Rightarrow> nat" where
  "worst_row rs = fold (\<lambda>wi worstIdx. if fp_gt (fst (rs ! wi)) (fst (rs ! worstIdx)) then wi else worstIdx) [1..<length rs] 0"

definition add_buffered :: "int \<Rightarrow> (f32 \<times> int) \<Rightarrow> (f32 \<times> int) list \<Rightarrow> (f32 \<times> int) list" where
  "add_buffered k row rs =
     (if int (length rs) < k then rs @ [row]
      else let worstIdx = worst_row rs
           in if fp_lt (fst row) (fst (rs ! worstIdx)) then rs[worstIdx := row] else rs)"

definition swap_rows :: "nat \<Rightarrow> nat \<Rightarrow> (f32 \<times> int) list \<Rightarrow> (f32 \<times> int) list" where
  "swap_rows i j rs = rs[i := rs ! j, j := rs ! i]"

definition exchange_sort :: "(f32 \<times> int) list \<Rightarrow> (f32 \<times> int) list" where
  "exchange_sort rs =
     fold (\<lambda>si. fold (\<lambda>sj rs. if fp_lt (fst (rs ! sj)) (fst (rs ! si)) then swap_rows si sj rs else rs)
                  [Suc si..<length rs])
       [0..<length rs - 1] rs"

text \<open>The scan of the buffer ends at a step that fails; if it cannot be prepared it is left out.\<close>

definition buffer_rows ::
  "diskann_env \<Rightarrow> VectorColumnDefinition \<Rightarrow> bytes \<Rightarrow> nat \<Rightarrow> VectorElementType \<Rightarrow> diskann_state \<Rightarrow> (f32 \<times> int) list"
where
  "buffer_rows E col queryVector dimensions elementType g =
     (if ev_fault E ''knn buffer prepare'' 0 \<noteq> None then []
      else map (\<lambda>(bufRowid, bufVec).
                  (vec0_distance_full queryVector bufVec dimensions elementType (vc_distance_metric col), bufRowid))
             (takeWhile (\<lambda>(bufRowid, bufVec). ev_fault E ''knn buffer step'' bufRowid = None) (dg_buffer g)))"

text \<open>
  The sizes of the two result arrays go through the \<open>int\<close> argument of \<open>sqlite3_malloc\<close>, and \<open>k\<close> is
  passed on as an \<open>int\<close>. \<open>None\<close> is a search that does not return.
\<close>

definition vec0Filter_knn_diskann ::
  "diskann_env \<Rightarrow> (nat \<Rightarrow> int \<Rightarrow> bool) \<Rightarrow> vec0_vtab \<Rightarrow> (nat \<Rightarrow> diskann_state) vec0_db \<Rightarrow> nat \<Rightarrow> string \<Rightarrow>
   sqlite3_value list \<Rightarrow> vec0_query_knn_data result option"
where
  "vec0Filter_knn_diskann E mem p db vectorColumnIdx idxStr argv =
    (let col = vector_columns p ! vectorColumnIdx
     in case (knn_find VEC0_IDXSTR_KIND_KNN_MATCH idxStr (length argv), knn_find VEC0_IDXSTR_KIND_KNN_K idxStr (length argv)) of
       (Some query_idx, Some k_idx) \<Rightarrow>
         (case vector_from_value mem (argv ! query_idx) of
            Inl _ \<Rightarrow> Some (Inl SQLITE_ERROR)
          | Inr (queryVector, dimensions, elementType) \<Rightarrow>
             if elementType \<noteq> vc_element_type col \<or> dimensions \<noteq> vc_dimensions col then Some (Inl SQLITE_ERROR)
             else let k = value_int64 (argv ! k_idx)
             in if k \<le> 0 then Some (Inr \<lparr>kd_k = 0, kd_rows = [], kd_current_idx = 0\<rparr>)
                else if int32_of (k * 8) \<le> 0 \<or> int32_of (k * 4) \<le> 0 \<or> ev_fault E ''knn malloc'' 0 \<noteq> None
                then Some (Inl SQLITE_NOMEM)
                else case diskann_search E col queryVector dimensions elementType (int32_of k) 0 (t_diskann db vectorColumnIdx) of
                  None \<Rightarrow> None
                | Some (Inl rc) \<Rightarrow> Some (Inl rc)
                | Some (Inr found) \<Rightarrow>
                    let rows = fold (add_buffered (int32_of k))
                                 (buffer_rows E col queryVector dimensions elementType (t_diskann db vectorColumnIdx))
                                 (map (\<lambda>(rowid, d). (d, rowid)) found)
                    in Some (Inr \<lparr>kd_k = int (length rows), kd_rows = exchange_sort rows, kd_current_idx = 0\<rparr>))
     | _ \<Rightarrow> Some (Inl SQLITE_ERROR))"

section \<open>The query of a rescore index\<close>

definition effective_oversample :: "VectorColumnDefinition \<Rightarrow> int" where
  "effective_oversample col =
     (if rs_oversample_search (vc_rescore col) > 0 then rs_oversample_search (vc_rescore col)
      else rs_oversample (vc_rescore col))"

definition rescore_distance :: "VectorColumnDefinition \<Rightarrow> bytes \<Rightarrow> bytes \<Rightarrow> f32" where
  "rescore_distance col base quantizedQuery = (case rs_quantizer_type (vc_rescore col) of
     VEC0_RESCORE_QUANTIZER_BIT \<Rightarrow> distance_hamming base quantizedQuery (vc_dimensions col)
   | VEC0_RESCORE_QUANTIZER_INT8 \<Rightarrow>
       vec0_distance_full base quantizedQuery (vc_dimensions col) SQLITE_VEC_ELEMENT_TYPE_INT8 (vc_distance_metric col)
   | VEC0_RESCORE_QUANTIZER_UNSET \<Rightarrow> FLT_MAX)"

definition rescore_chunk ::
  "vec0_vtab \<Rightarrow> VectorColumnDefinition \<Rightarrow> nat \<Rightarrow> faults \<Rightarrow> 'g vec0_db \<Rightarrow> int list option \<Rightarrow> bytes \<Rightarrow> nat \<Rightarrow>
   int \<times> vec0_chunk \<Rightarrow> (f32 \<times> int) list \<Rightarrow> (f32 \<times> int) list result"
where
  "rescore_chunk p col vectorColumnIdx F db arrayRowidsIn quantizedQuery k_oversample row cand =
    (let (chunk_id, chunk) = row; n = chunk_size p; qsize = rescore_quantized_byte_size col
     in if length (ck_validity chunk) < (n + 7) div 8 \<or> length (ck_rowids chunk) < n * 8 then Inl SQLITE_ERROR
        else let b = knn_rowids_filter n chunk arrayRowidsIn (bitmap_copy (bitmap_new n) (ck_validity chunk) n)
        in attempt F ''rescore open chunk'' vectorColumnIdx
          (case tbl_get (t_rescore_chunks db vectorColumnIdx) chunk_id of
             None \<Rightarrow> Inl SQLITE_ERROR
           | Some blob \<Rightarrow>
               (case blob_read blob (n * qsize) 0 of
                  None \<Rightarrow> Inl SQLITE_ERROR
                | Some baseVectors \<Rightarrow>
                    let chunk_distances = map (\<lambda>j. if \<not> bitmap_get b j then fp0
                          else rescore_distance col (drop (j * qsize) baseVectors) quantizedQuery) [0..<n]
                    in Inr (knn_merge n k_oversample chunk chunk_distances b cand))))"

text \<open>The second phase: the exact distances of the candidates, in their order.\<close>

definition rescore_exact ::
  "VectorColumnDefinition \<Rightarrow> nat \<Rightarrow> faults \<Rightarrow> 'g vec0_db \<Rightarrow> bytes \<Rightarrow> (f32 \<times> int) list \<Rightarrow> (f32 \<times> int) list result"
where
  "rescore_exact col vectorColumnIdx F db queryVector cand =
     fold_result (\<lambda>(d, rowid) out.
       attempt F ''rescore open vector'' vectorColumnIdx
         (case tbl_get (t_rescore_vectors db vectorColumnIdx) rowid of
            None \<Rightarrow> Inl SQLITE_ERROR
          | Some blob \<Rightarrow>
              (case blob_read blob (vector_column_byte_size col) 0 of
                 None \<Rightarrow> Inl SQLITE_ERROR
               | Some fBuf \<Rightarrow> Inr (out @ [(vec0_distance_full fBuf queryVector (vc_dimensions col) (vc_element_type col)
                                          (vc_distance_metric col), rowid)]))))
       cand []"

definition selection_sort :: "(f32 \<times> int) list \<Rightarrow> (f32 \<times> int) list" where
  "selection_sort rs =
     fold (\<lambda>a rs.
       let minIdx = fold (\<lambda>c m. if fp_lt (fst (rs ! c)) (fst (rs ! m)) then c else m) [Suc a..<length rs] a
       in if minIdx \<noteq> a then swap_rows a minIdx rs else rs)
       [0..<length rs - 1] rs"

definition rescore_knn ::
  "sql_comparison \<Rightarrow> vec0_vtab \<Rightarrow> VectorColumnDefinition \<Rightarrow> nat \<Rightarrow> faults \<Rightarrow> 'g vec0_db \<Rightarrow> string \<Rightarrow> sqlite3_value list \<Rightarrow>
   int list option \<Rightarrow> bytes \<Rightarrow> int \<Rightarrow> vec0_query_knn_data result"
where
  "rescore_knn sqlop p col vectorColumnIdx F db idxStr argv arrayRowidsIn queryVector k =
    (let k_oversample = min (k * effective_oversample col) 4096
     in if rescore_quantized_byte_size col = 0 then Inl SQLITE_NOMEM
        else attempt F ''rescore malloc query'' 0
          (let quantizedQuery = rescore_quantize col queryVector
           in rbind (vec0_chunks_iter sqlop F db idxStr argv) (\<lambda>chunks.
              if k_oversample \<le> 0 then Inl SQLITE_NOMEM
              else attempt F ''rescore malloc'' 0
                (rbind (fold_result (\<lambda>row cand. attempt F ''rescore step'' (nat (fst row))
                          (rescore_chunk p col vectorColumnIdx F db arrayRowidsIn quantizedQuery (nat k_oversample) row cand))
                          chunks [])
                   (\<lambda>cand. attempt F ''rescore last step'' 0
                     (if cand = [] then Inr \<lparr>kd_k = 0, kd_rows = [], kd_current_idx = 0\<rparr>
                      else attempt F ''rescore malloc distances'' 0
                        (rbind (rescore_exact col vectorColumnIdx F db queryVector cand) (\<lambda>exact.
                           attempt F ''rescore malloc result'' 0
                             (let rows = take (nat k) (selection_sort exact)
                              in Inr \<lparr>kd_k = int (length rows), kd_rows = rows, kd_current_idx = 0\<rparr>)))))))))"

section \<open>\<open>vec0Filter_knn\<close>\<close>

text \<open>
  The sorted array of a \<open>rowid in (...)\<close> constraint. \<open>in_values i\<close> is the list of values SQLite hands out
  for value \<open>i\<close> of the plan. An error is kept in a variable of its own, which the end of the function
  does not see: the query then succeeds without a result, which is \<open>Inl ()\<close> here.
\<close>

definition knn_rowids_in ::
  "vec0_vtab \<Rightarrow> faults \<Rightarrow> 'g vec0_db \<Rightarrow> (nat \<Rightarrow> sqlite3_value list) \<Rightarrow> nat option \<Rightarrow> unit + int list option"
where
  "knn_rowids_in p F db in_values rowid_in_idx = (case rowid_in_idx of
     None \<Rightarrow> Inr None
   | Some i \<Rightarrow>
       (case attempt F ''rowid in'' i
               (fold_result (\<lambda>item rowids.
                  rbind (if pkIsText p then vec0_rowid_from_id F db item else Inr (value_int64 item))
                    (\<lambda>rowid. attempt F ''rowid in append'' i (Inr (rowids @ [rowid]))))
                  (in_values i) []) of
          Inl _ \<Rightarrow> Inl ()
        | Inr rowids \<Rightarrow> Inr (Some (qsort cmp_i64 rowids))))"

text \<open>The lists of \<open>xxx in (...)\<close> constraints. A column of another kind, which \<open>vec0BestIndex\<close> refuses,
  ends the query without a result and without an error.\<close>

definition knn_metadata_in ::
  "vec0_vtab \<Rightarrow> faults \<Rightarrow> string \<Rightarrow> nat \<Rightarrow> (nat \<Rightarrow> sqlite3_value list) \<Rightarrow> Vec0MetadataIn list option result"
where
  "knn_metadata_in p F idxStr argc in_values =
     fold_result (\<lambda>i acc. case acc of
         None \<Rightarrow> Inr None
       | Some items \<Rightarrow>
          if \<not> (is_kind idxStr VEC0_IDXSTR_KIND_METADATA_CONSTRAINT i \<and>
                 idx_char idxStr i 2 = metadata_operator_char VEC0_METADATA_OPERATOR_IN) then Inr acc
          else attempt F ''metadata in'' i
            (let metadata_idx = letter_idx (idx_char idxStr i 1); item = \<lparr>in_argv_idx = i, in_metadata_idx = metadata_idx, in_ints = [], in_texts = []\<rparr>
             in case snd (metadata_columns p ! metadata_idx) of
                  VEC0_METADATA_COLUMN_KIND_INTEGER \<Rightarrow>
                    Inr (Some (items @ [item\<lparr>in_ints := map value_int64 (in_values i)\<rparr>]))
                | VEC0_METADATA_COLUMN_KIND_TEXT \<Rightarrow>
                    Inr (Some (items @ [item\<lparr>in_texts := map (\<lambda>e. (value_bytes e, takeWhile (\<lambda>c. c \<noteq> CHR 0x00) (value_text e)))
                                         (in_values i)\<rparr>]))
                | _ \<Rightarrow> Inr None))
       [0..<argc] (Some [])"

definition SQLITE_VEC_VEC0_K_MAX :: int where
  "SQLITE_VEC_VEC0_K_MAX = 4096"

text \<open>The result \<open>Inr None\<close> is \<open>SQLITE_OK\<close> with no data set for the cursor.\<close>

definition vec0Filter_knn ::
  "sql_comparison \<Rightarrow> diskann_env \<Rightarrow> (nat \<Rightarrow> int \<Rightarrow> bool) \<Rightarrow> faults \<Rightarrow> vec0_vtab \<Rightarrow> (nat \<Rightarrow> diskann_state) vec0_db \<Rightarrow>
   (nat \<Rightarrow> sqlite3_value list) \<Rightarrow> nat \<Rightarrow> string \<Rightarrow> sqlite3_value list \<Rightarrow> vec0_query_knn_data option result option"
where
  "vec0Filter_knn sqlop E mem F p db in_values vectorColumnIdx idxStr argv =
    (let col = vector_columns p ! vectorColumnIdx; argc = length argv
     in if vc_index_type col = VEC0_INDEX_TYPE_DISKANN
        then map_option (\<lambda>r. rbind r (\<lambda>d. Inr (Some d))) (vec0Filter_knn_diskann E mem p db vectorColumnIdx idxStr argv)
        else Some (attempt F ''knn data'' 0
         (case (knn_find VEC0_IDXSTR_KIND_KNN_MATCH idxStr argc, knn_find VEC0_IDXSTR_KIND_KNN_K idxStr argc) of
            (Some query_idx, Some k_idx) \<Rightarrow>
              (case vector_from_value mem (argv ! query_idx) of
                 Inl _ \<Rightarrow> Inl SQLITE_ERROR
               | Inr (queryVector, dimensions, elementType) \<Rightarrow>
                  if elementType \<noteq> vc_element_type col \<or> dimensions \<noteq> vc_dimensions col then Inl SQLITE_ERROR
                  else let k = value_int64 (argv ! k_idx)
                  in if k < 0 \<or> k > SQLITE_VEC_VEC0_K_MAX then Inl SQLITE_ERROR
                     else if k = 0 then Inr (Some \<lparr>kd_k = 0, kd_rows = [], kd_current_idx = 0\<rparr>)
                     else case knn_rowids_in p F db in_values (knn_find VEC0_IDXSTR_KIND_KNN_ROWID_IN idxStr argc) of
                       Inl _ \<Rightarrow> Inr None
                     | Inr arrayRowidsIn \<Rightarrow>
                        rbind (knn_metadata_in p F idxStr argc in_values) (\<lambda>aMetadataIn.
                          case aMetadataIn of
                            None \<Rightarrow> Inr None
                          | Some metadataIn \<Rightarrow>
                             if vc_index_type col = VEC0_INDEX_TYPE_RESCORE
                             then rbind (rescore_knn sqlop p col vectorColumnIdx F db idxStr argv arrayRowidsIn queryVector k)
                                    (\<lambda>d. Inr (Some d))
                             else rbind (vec0_chunks_iter sqlop F db idxStr argv) (\<lambda>chunks.
                                  rbind (vec0Filter_knn_chunks_iter p col vectorColumnIdx F db chunks
                                           \<lparr>kq_vector = queryVector, kq_k = nat k, kq_idxStr = idxStr, kq_argv = argv,
                                            kq_rowids_in = arrayRowidsIn, kq_metadata_in = metadataIn\<rparr>)
                                    (\<lambda>rows. Inr (Some \<lparr>kd_k = k, kd_rows = rows, kd_current_idx = 0\<rparr>)))))
          | _ \<Rightarrow> Inl SQLITE_ERROR)))"

end
