(* ===== verification/FilterFacts.thy ===== *)
theory FilterFacts
  imports Filters Topk
begin

text \<open>
  What the metadata constraints select: position by position, the comparison of the stored value
  with the query's. Texts are stored as \<open>Metadata\<close> writes them.
\<close>

section \<open>Comparing texts\<close>

text \<open>Texts hold no NUL, so \<open>strncmp\<close> sees all of their bytes.\<close>

definition no_nul :: "string \<Rightarrow> bool" where
  "no_nul s \<longleftrightarrow> (\<forall>c \<in> set s. of_char c \<noteq> (0 :: nat))"

lemma c_char_Cons [simp]: "c_char (c # s) = of_char c"
  by (simp add: c_char_def)

lemma c_char_Nil [simp]: "c_char [] = 0"
  by (simp add: c_char_def)

lemma no_nul_Cons [simp]: "no_nul (c # s) \<longleftrightarrow> of_char c \<noteq> (0 :: nat) \<and> no_nul s"
  by (simp add: no_nul_def)

lemma of_char_nat_eq: "(of_char c :: nat) = of_char d \<longleftrightarrow> c = d"
  by (metis char_of_char)

lemma strncmp_0:
  "n \<le> length a \<Longrightarrow> n \<le> length b \<Longrightarrow> no_nul (take n a) \<Longrightarrow> strncmp a b n = 0 \<longleftrightarrow> take n a = take n b"
proof (induction a b n rule: strncmp.induct)
  case (2 a b n)
  then obtain c a' d b' where "a = c # a'" "b = d # b'" by (metis Suc_le_length_iff)
  with 2 show ?case by (auto simp: of_char_nat_eq)
qed simp

text \<open>The order of bytes, which is SQLite's order of texts.\<close>

fun text_cmp :: "string \<Rightarrow> string \<Rightarrow> int" where
  "text_cmp [] [] = 0"
| "text_cmp [] (d # t) = -1"
| "text_cmp (c # s) [] = 1"
| "text_cmp (c # s) (d # t) = (if c = d then text_cmp s t else int (of_char c) - int (of_char d))"

lemma strncmp_cmp:
  assumes "no_nul s" and "no_nul t" and "n = min (length s) (length t)"
  shows "sgn (text_cmp s t) = (if strncmp (s @ pad) t n = 0 then sgn (int (length s) - int (length t)) else sgn (strncmp (s @ pad) t n))"
  using assms
proof (induction s t arbitrary: n rule: text_cmp.induct)
  case (4 c s d t)
  then obtain m where m: "n = Suc m" "m = min (length s) (length t)" by simp
  show ?case using 4 m by (auto simp: of_char_nat_eq)
qed (simp_all add: sgn_if)

section \<open>Stored texts\<close>

text \<open>What a view and the table of long texts hold of a text.\<close>

definition text_at :: "string table \<Rightarrow> int \<Rightarrow> bytes \<Rightarrow> nat \<Rightarrow> string \<Rightarrow> bool" where
  "text_at long rowid buffer i s \<longleftrightarrow> no_nul s \<and> view_length buffer i = int (length s) \<and>
     (\<exists>pad. view_prefix buffer i = take 12 s @ pad) \<and> (12 < length s \<longrightarrow> tbl_get long rowid = Some s)"

lemma text_equal_iff:
  assumes "no_nul s" and "pre = take 12 s @ pad" and "12 < length s \<Longrightarrow> long () = Inr s"
  shows "text_equal long (int (length s)) pre (length t) t = Inr (s = t)"
proof (cases "length s = length t")
  case False
  then show ?thesis by (auto simp: text_equal_def)
next
  case True
  let ?n = "min (length s) 12"
  have nn: "no_nul (take k s)" for k using assms(1) by (auto simp: no_nul_def dest: in_set_takeD)
  have pre: "strncmp pre t ?n = 0 \<longleftrightarrow> take ?n s = take ?n t"
    using strncmp_0 [of ?n pre t] nn [of ?n] True by (simp add: assms(2) min.commute)
  have full: "strncmp s t (length s) = 0 \<longleftrightarrow> s = t"
    using strncmp_0 [of "length s" s t] assms(1) True by simp
  show ?thesis
    using True pre full assms(3)
    by (auto simp: text_equal_def Let_def VEC0_METADATA_TEXT_VIEW_DATA_LENGTH_def min_def split: if_splits)
qed

definition ordering :: "vec0_metadata_operator \<Rightarrow> (int \<Rightarrow> int \<Rightarrow> bool) \<Rightarrow> bool" where
  "ordering op test \<longleftrightarrow> (op, test) \<in> {(VEC0_METADATA_OPERATOR_GT, (>)), (VEC0_METADATA_OPERATOR_GE, (\<ge>)),
     (VEC0_METADATA_OPERATOR_LE, (\<le>)), (VEC0_METADATA_OPERATOR_LT, (<))}"

lemma ordering_sgn: "ordering op test \<Longrightarrow> test x y \<longleftrightarrow> test (sgn (x - y)) 0"
  by (auto simp: ordering_def sgn_if)

lemma text_ordered_short:
  assumes "no_nul s" and "no_nul t" and "pre = take 12 s @ pad" and "length s < 12" and "ordering op test"
  shows "text_ordered test long (int (length s)) pre (length t) t = Inr (test (text_cmp s t) 0)"
proof -
  let ?n = "min (length s) (length t)"
  have n: "min (min (nat (int (length s))) VEC0_METADATA_TEXT_VIEW_DATA_LENGTH) (length t) = ?n"
    using assms(4) by (simp add: VEC0_METADATA_TEXT_VIEW_DATA_LENGTH_def)
  have pre: "pre = s @ pad" using assms(3,4) by simp
  note c = strncmp_cmp [OF assms(1,2) refl, of pad, folded pre]
  have "test (text_cmp s t) 0 \<longleftrightarrow> (if strncmp pre t ?n = 0 then test (int (length s)) (int (length t)) else test (strncmp pre t ?n) 0)"
    using c ordering_sgn [OF assms(5), of "text_cmp s t" 0] ordering_sgn [OF assms(5), of "int (length s)" "int (length t)"]
      ordering_sgn [OF assms(5), of "strncmp pre t ?n" 0] by simp
  then show ?thesis using assms(4) unfolding text_ordered_def Let_def n
    by (simp add: VEC0_METADATA_TEXT_VIEW_DATA_LENGTH_def)
qed

text \<open>Whether a text satisfies a constraint.\<close>

definition text_matches :: "vec0_metadata_operator \<Rightarrow> string \<Rightarrow> string \<Rightarrow> string list \<Rightarrow> bool" where
  "text_matches op s t ts = (case op of
     VEC0_METADATA_OPERATOR_EQ \<Rightarrow> s = t
   | VEC0_METADATA_OPERATOR_NE \<Rightarrow> s \<noteq> t
   | VEC0_METADATA_OPERATOR_GT \<Rightarrow> text_cmp s t > 0
   | VEC0_METADATA_OPERATOR_GE \<Rightarrow> text_cmp s t \<ge> 0
   | VEC0_METADATA_OPERATOR_LE \<Rightarrow> text_cmp s t \<le> 0
   | VEC0_METADATA_OPERATOR_LT \<Rightarrow> text_cmp s t < 0
   | VEC0_METADATA_OPERATOR_IN \<Rightarrow> s \<in> set ts)"

lemma text_in_iff:
  assumes "no_nul s" and "pre = take 12 s @ pad" and "12 < length s \<Longrightarrow> long () = Inr s"
  shows "text_in long (int (length s)) pre (map (\<lambda>t. (length t, t)) ts) = Inr (s \<in> set ts)"
  by (induction ts) (simp_all add: text_equal_iff [where long = long, OF assms])

text \<open>The orderings are right for texts shorter than a view; equality for all.\<close>

definition short_or_equality :: "vec0_metadata_operator \<Rightarrow> string \<Rightarrow> string \<Rightarrow> bool" where
  "short_or_equality op s t \<longleftrightarrow> op \<in> {VEC0_METADATA_OPERATOR_EQ, VEC0_METADATA_OPERATOR_NE, VEC0_METADATA_OPERATOR_IN} \<or>
     length s < 12 \<and> no_nul t"

lemma text_test_iff:
  assumes "no_nul s" and "pre = take 12 s @ pad" and "12 < length s \<Longrightarrow> long () = Inr s" and "short_or_equality op s t"
  shows "text_test op long (int (length s)) pre (length t) t (map (\<lambda>t. (length t, t)) ts) = Inr (text_matches op s t ts)"
proof -
  have o: "text_ordered test long (int (length s)) pre (length t) t = Inr (test (text_cmp s t) 0)"
    if "ordering op test" for test
  proof -
    have "length s < 12" "no_nul t" using assms(4) that by (auto simp: short_or_equality_def ordering_def)
    then show ?thesis using text_ordered_short [OF assms(1) _ assms(2) _ that] by simp
  qed
  show ?thesis
    using o text_equal_iff [where long = long and t = t, OF assms(1-3)] text_in_iff [where long = long and ts = ts, OF assms(1-3)]
    by (cases op) (simp_all add: text_test_def text_matches_def ordering_def)
qed

section \<open>One constraint on one chunk\<close>

text \<open>The texts of the positions that the constraint looks at.\<close>

definition texts_at :: "'g vec0_db \<Rightarrow> nat \<Rightarrow> vec0_chunk \<Rightarrow> bytes \<Rightarrow> nat \<Rightarrow> (nat \<Rightarrow> string) \<Rightarrow> bool" where
  "texts_at db i chunk buffer n text \<longleftrightarrow>
     (\<forall>j < n. text_at (t_metatext db i) (i64_at (ck_rowids chunk) j) buffer j (text j))"

lemma fold_bits:
  assumes "fold_result (\<lambda>i b. rbind (f i) (\<lambda>r. Inr (if keep \<and> \<not> r then b else bitmap_set b i r))) [0..<n] b = Inr b'"
    and "\<And>i. i < n \<Longrightarrow> f i = Inr (g i)" and "n \<le> 8 * length b" and "keep \<Longrightarrow> \<forall>i < n. \<not> bitmap_get b i" and "q < n"
  shows "bitmap_get b' q = g q"
proof -
  define step where "step = (\<lambda>i b. if keep \<and> \<not> g i then b else bitmap_set b i (g i))"
  have "fold_result (\<lambda>i b. rbind (f i) (\<lambda>r. Inr (if keep \<and> \<not> r then b else bitmap_set b i r))) [0..<k] b = Inr (fold step [0..<k] b)"
    if "k \<le> n" for k
    using that by (induction k) (simp_all add: fold_result_append assms(2) step_def)
  then have b': "b' = fold step [0..<n] b" using assms(1) by simp
  show ?thesis
  proof (cases keep)
    case True
    then have "step = (\<lambda>i b. if g i then bitmap_set b i True else b)" by (auto simp: step_def fun_eq_iff)
    then show ?thesis using bm.get_set_loop [OF assms(3), of g q] assms(4,5) True by (simp add: b')
  next
    case False
    then have "step = (\<lambda>i b. bitmap_set b i (g i))" by (simp add: step_def fun_eq_iff)
    then show ?thesis using bm.get_assign_loop [OF assms(3), of g q] assms(5) by (simp add: b')
  qed
qed

lemma text_filter_bits:
  assumes "vec0_metadata_filter_text F db v buffer n op b i chunk_id ins argv_idx = Inr b'"
    and "is_i64 chunk_id" and "\<bar>chunk_id\<bar> < 2 ^ 31" and "tbl_get (t_chunks db) chunk_id = Some chunk"
    and "texts_at db i chunk buffer n text" and "n \<le> 8 * length b" and "\<forall>j < n. \<not> bitmap_get b j" and "q < n"
    and "op \<noteq> VEC0_METADATA_OPERATOR_IN \<Longrightarrow> value_type v = SQLITE_TEXT"
    and "op = VEC0_METADATA_OPERATOR_IN \<Longrightarrow> map_option in_texts (metadata_in_entry ins argv_idx) = Some (map (\<lambda>t. (length t, t)) ts)"
    and "\<forall>j < n. short_or_equality op (text j) (value_text v)" and "\<forall>r. F ''long text'' r = None"
  shows "bitmap_get b' q = text_matches op (text q) (value_text v) ts"
proof -
  have id: "int32_of chunk_id = chunk_id" using assms(3) by (simp add: int32_of_def)
  define entries where "entries = (if op = VEC0_METADATA_OPERATOR_IN then map (\<lambda>t. (length t, t)) ts else [])"
  define long where "long = (\<lambda>j (_ :: unit). vec0_get_metadata_text_long_value F db i (i64_at (ck_rowids chunk) j))"
  have run: "fold_result (\<lambda>j b. rbind (text_test op (long j) (view_length buffer j) (view_prefix buffer j) (value_bytes v) (value_text v) entries)
      (\<lambda>r. Inr (if op = VEC0_METADATA_OPERATOR_IN \<and> \<not> r then b else bitmap_set b j r))) [0..<n] b = Inr b'"
    using assms(1,4,10) by (cases "op = VEC0_METADATA_OPERATOR_IN")
      (auto simp: vec0_metadata_filter_text_def id entries_def long_def Let_def)
  have T: "text_test op (long j) (view_length buffer j) (view_prefix buffer j) (value_bytes v) (value_text v) entries
      = Inr (text_matches op (text j) (value_text v) ts)" if j: "j < n" for j
  proof -
    obtain pad where A: "no_nul (text j)" "view_length buffer j = int (length (text j))" "view_prefix buffer j = take 12 (text j) @ pad"
      "12 < length (text j) \<longrightarrow> tbl_get (t_metatext db i) (i64_at (ck_rowids chunk) j) = Some (text j)"
      using assms(5) j by (auto simp: texts_at_def text_at_def)
    have L: "long j () = Inr (text j)" if "12 < length (text j)"
      using A(4) that assms(12) by (simp add: long_def vec0_get_metadata_text_long_value_def)
    have "text_test op (long j) (int (length (text j))) (view_prefix buffer j) (length (value_text v)) (value_text v)
        (map (\<lambda>t. (length t, t)) ts) = Inr (text_matches op (text j) (value_text v) ts)"
      using text_test_iff [where long = "long j", OF A(1,3) L] assms(11) j by blast
    then have "text_test op (long j) (int (length (text j))) (view_prefix buffer j) (length (value_text v)) (value_text v) entries
        = Inr (text_matches op (text j) (value_text v) ts)"
      by (cases op) (simp_all add: entries_def text_test_def)
    then show ?thesis using A(2) assms(9) by (cases op) (simp_all add: value_bytes_def text_test_def)
  qed
  show ?thesis by (rule fold_bits [OF run T assms(6) _ assms(8)]) (use assms(7) in auto)
qed

text \<open>Whether the value at a position satisfies a constraint on its column.\<close>

definition metadata_matches ::
  "vec0_metadata_column_kind \<Rightarrow> vec0_metadata_operator \<Rightarrow> bytes \<Rightarrow> (nat \<Rightarrow> string) \<Rightarrow> nat \<Rightarrow> sqlite3_value \<Rightarrow>
   int list \<Rightarrow> string list \<Rightarrow> bool"
where
  "metadata_matches kind op buffer text j v is ts = (case kind of
     VEC0_METADATA_COLUMN_KIND_BOOLEAN \<Rightarrow> (bitmap_get buffer j = (value_int v \<noteq> 0)) = (op = VEC0_METADATA_OPERATOR_EQ)
   | VEC0_METADATA_COLUMN_KIND_INTEGER \<Rightarrow> int_test op (i64_at buffer j) (value_int64 v) is
   | VEC0_METADATA_COLUMN_KIND_FLOAT \<Rightarrow> float_test op (f64_at buffer j) (value_double v)
   | VEC0_METADATA_COLUMN_KIND_TEXT \<Rightarrow> text_matches op (text j) (value_text v) ts)"

text \<open>The constraints \<open>vec0BestIndex\<close> lets through, and their lists of values.\<close>

definition constraint_ok ::
  "vec0_metadata_column_kind \<Rightarrow> vec0_metadata_operator \<Rightarrow> Vec0MetadataIn list \<Rightarrow> nat \<Rightarrow> int list \<Rightarrow> string list \<Rightarrow> bool"
where
  "constraint_ok kind op ins argv_idx is ts \<longleftrightarrow>
     (kind = VEC0_METADATA_COLUMN_KIND_BOOLEAN \<longrightarrow> op \<in> {VEC0_METADATA_OPERATOR_EQ, VEC0_METADATA_OPERATOR_NE}) \<and>
     (op = VEC0_METADATA_OPERATOR_IN \<longrightarrow> kind \<in> {VEC0_METADATA_COLUMN_KIND_INTEGER, VEC0_METADATA_COLUMN_KIND_TEXT} \<and>
        (\<exists>m. metadata_in_entry ins argv_idx = Some m \<and> in_ints m = is \<and> in_texts m = map (\<lambda>t. (length t, t)) ts))"


section \<open>A text column\<close>

text \<open>A chunk of eight rows whose first row holds a text; the other positions are empty.\<close>

definition ex_text_db :: "string \<Rightarrow> unit vec0_db" where
  "ex_text_db s = ex_empty\<lparr>
     t_chunks := [(1, \<lparr>ck_size = 8, ck_validity = [1], ck_rowids = i64_bytes 1 @ replicate 56 0, ck_partition = []\<rparr>)],
     t_metadata := (\<lambda>_. [(1, text_view s @ replicate 112 0)]),
     t_metatext := (\<lambda>_. if 12 < length s then [(1, s)] else [])\<rparr>"

definition ex_text_table :: vec0_vtab where
  "ex_text_table = ex_table\<lparr>metadata_columns := [(''name'', VEC0_METADATA_COLUMN_KIND_TEXT)]\<rparr>"

definition ex_text :: "string \<Rightarrow> sqlite3_value" where
  "ex_text s = ex_null\<lparr>value_type := SQLITE_TEXT, value_text := s\<rparr>"

definition ex_text_filter :: "string \<Rightarrow> vec0_metadata_operator \<Rightarrow> string \<Rightarrow> bool result" where
  "ex_text_filter s op t =
     rbind (vec0_set_metadata_filter_bitmap ex_text_table no_faults (ex_text_db s) 0 op (ex_text t) 1 [0] 8 [] 0)
       (\<lambda>b. Inr (bitmap_get b 0))"

lemma ex_text_filter_run: "vec0_set_metadata_filter_bitmap ex_text_table no_faults (ex_text_db ''sqlite-vectors'') 0
    VEC0_METADATA_OPERATOR_EQ (ex_text ''sqlite-vectors'') 1 [0] 8 [] 0 = Inr [1]"
  by code_simp

lemma ex_texts: "texts_at (ex_text_db ''sqlite-vectors'') 0
    \<lparr>ck_size = 8, ck_validity = [1], ck_rowids = i64_bytes 1 @ replicate 56 0, ck_partition = []\<rparr>
    (text_view ''sqlite-vectors'' @ replicate 112 0) 8 (\<lambda>j. if j = 0 then ''sqlite-vectors'' else [])"
proof -
  let ?b = "text_view ''sqlite-vectors'' @ replicate 112 0"
  let ?t = "\<lambda>j. if j = (0 :: nat) then ''sqlite-vectors'' else []"
  have "\<forall>j \<in> set [0..<8]. no_nul (?t j) \<and> view_length ?b j = int (length (?t j)) \<and>
      take (min 12 (length (?t j))) (view_prefix ?b j) = take 12 (?t j) \<and>
      (12 < length (?t j) \<longrightarrow> tbl_get (t_metatext (ex_text_db ''sqlite-vectors'') 0)
         (i64_at (i64_bytes 1 @ replicate 56 0) j) = Some (?t j))"
    by code_simp
  then have A: "no_nul (?t j) \<and> view_length ?b j = int (length (?t j)) \<and>
      take (min 12 (length (?t j))) (view_prefix ?b j) = take 12 (?t j) \<and>
      (12 < length (?t j) \<longrightarrow> tbl_get (t_metatext (ex_text_db ''sqlite-vectors'') 0)
         (i64_at (i64_bytes 1 @ replicate 56 0) j) = Some (?t j))" if "j < 8" for j
    using that by (metis atLeastLessThan_iff le0 set_upt)
  show ?thesis
    unfolding texts_at_def text_at_def
  proof (intro allI impI conjI)
    fix j :: nat assume "j < 8"
    note J = A [OF this]
    show "no_nul (?t j)" "view_length ?b j = int (length (?t j))" using J by blast+
    show "\<exists>pad. view_prefix ?b j = take 12 (?t j) @ pad" using J by (metis append_take_drop_id)
    assume "12 < length (?t j)"
    then show "tbl_get (t_metatext (ex_text_db ''sqlite-vectors'') 0) (i64_at (ck_rowids \<lparr>ck_size = 8, ck_validity = [1],
        ck_rowids = i64_bytes 1 @ replicate 56 0, ck_partition = []\<rparr>) j) = Some (?t j)" using J by simp
  qed
qed


lemma ex_twelve_bytes:
  "ex_text_filter ''twelve bytes'' VEC0_METADATA_OPERATOR_GT ''a'' = Inl SQLITE_ERROR"
  by code_simp

lemma ex_twelve_bytes_equal:
  "ex_text_filter ''twelve bytes'' VEC0_METADATA_OPERATOR_EQ ''twelve bytes'' = Inr True"
  by code_simp

lemma ex_thirteen_bytes_less:
  "ex_text_filter ''thirteen bytes'' VEC0_METADATA_OPERATOR_LT ''thirteen bytes more'' = Inr False"
  by code_simp

lemma ex_thirteen_bytes_greater:
  "ex_text_filter ''thirteen bytes'' VEC0_METADATA_OPERATOR_GE ''thirteen bytes more'' = Inr True"
  by code_simp

lemma ex_thirteen_bytes_cmp: "text_cmp ''thirteen bytes'' ''thirteen bytes more'' < 0"
  by code_simp


end
