(* ===== verification/KnnFacts.thy ===== *)
theory KnnFacts
  imports Knn FilterFacts
begin

text \<open>
  What a KNN query returns: the \<open>k\<close> nearest of the rows that satisfy its constraints. The bitmaps of
  the scan are read position by position, then the selection and merge of \<open>Topk\<close> carry the proof.
\<close>

section \<open>The bitmap of a chunk\<close>

lemma rowids_filter_bits:
  assumes "8 dvd n" and "length b = n div 8" and "i < n"
  shows "bitmap_get (knn_rowids_filter n chunk arr b) i =
    (bitmap_get b i \<and> (case arr of None \<Rightarrow> True | Some xs \<Rightarrow>
       bitmap_get (ck_validity chunk) i \<and> rowid_in (i64_at (ck_rowids chunk) i) xs))"
proof (cases arr)
  case (Some xs)
  define f where "f = (\<lambda>i. bitmap_get (ck_validity chunk) i \<and> rowid_in (i64_at (ck_rowids chunk) i) xs)"
  define g where "g = (\<lambda>i bm. if bitmap_get (ck_validity chunk) i
     then bitmap_set bm i (rowid_in (i64_at (ck_rowids chunk) i) xs) else bm)"
  have bits: "length (fold g [0..<m] (bitmap_new n)) = n div 8 \<and>
      (\<forall>q < n. bitmap_get (fold g [0..<m] (bitmap_new n)) q = (q < m \<and> f q))" if "m \<le> n" for m
    using that
  proof (induction m)
    case 0
    then show ?case using assms(1) by (auto simp: bitmap_get_bit bitmap_new_def div8_less)
  next
    case (Suc m)
    then have "m < 8 * length (fold g [0..<m] (bitmap_new n))" using assms(1) by auto
    then show ?case using Suc by (auto simp: g_def f_def bitmap_get_set less_Suc_eq)
  qed
  have "knn_rowids_filter n chunk arr b = bitmap_and_inplace b (fold g [0..<n] (bitmap_new n)) n"
    by (simp add: knn_rowids_filter_def Some g_def)
  then show ?thesis using bits [of n] assms by (simp add: bitmap_get_and Some f_def)
qed (simp add: knn_rowids_filter_def)

lemma length_rowids_filter [simp]: "length (knn_rowids_filter n chunk arr b) = length b"
  by (simp add: knn_rowids_filter_def split: option.split)

text \<open>A metadata constraint of the plan, and whether a position passes all of them.\<close>

definition metadata_bits :: "vec0_vtab \<Rightarrow> faults \<Rightarrow> 'g vec0_db \<Rightarrow> knn_query \<Rightarrow> int \<Rightarrow> nat \<Rightarrow> bytes result" where
  "metadata_bits p F db q chunk_id j =
     (case metadata_operator_of (idx_char (kq_idxStr q) j 2) of
        None \<Rightarrow> Inr (bitmap_new (chunk_size p))
      | Some op \<Rightarrow> vec0_set_metadata_filter_bitmap p F db (letter_idx (idx_char (kq_idxStr q) j 1)) op (kq_argv q ! j)
                    chunk_id (bitmap_new (chunk_size p)) (chunk_size p) (kq_metadata_in q) j)"

definition metadata_passes :: "vec0_vtab \<Rightarrow> faults \<Rightarrow> 'g vec0_db \<Rightarrow> knn_query \<Rightarrow> int \<Rightarrow> nat \<Rightarrow> nat \<Rightarrow> bool" where
  "metadata_passes p F db q chunk_id argc i \<longleftrightarrow>
     (\<forall>j < argc. is_kind (kq_idxStr q) VEC0_IDXSTR_KIND_METADATA_CONSTRAINT j \<longrightarrow>
        (case metadata_bits p F db q chunk_id j of Inl _ \<Rightarrow> False | Inr bm \<Rightarrow> bitmap_get bm i))"

lemma metadata_filter_bits:
  assumes "knn_metadata_filter p F db q chunk_id b = Inr b'" and "8 dvd chunk_size p" and "length b = chunk_size p div 8"
  shows "length b' = chunk_size p div 8 \<and>
    (\<forall>i < chunk_size p. bitmap_get b' i = (bitmap_get b i \<and> metadata_passes p F db q chunk_id (length (kq_argv q)) i))"
proof -
  let ?n = "chunk_size p"
  define step where "step = (\<lambda>i b.
       if \<not> is_kind (kq_idxStr q) VEC0_IDXSTR_KIND_METADATA_CONSTRAINT i then Inr b
       else attempt F ''open metadata blob'' (letter_idx (idx_char (kq_idxStr q) i 1))
         (rbind (metadata_bits p F db q chunk_id i) (\<lambda>bm. Inr (bitmap_and_inplace b bm ?n))))"
  have run: "knn_metadata_filter p F db q chunk_id b = fold_result step [0..<length (kq_argv q)] b"
    unfolding knn_metadata_filter_def step_def metadata_bits_def Let_def ..
  have "length b' = ?n div 8 \<and> (\<forall>i < ?n. bitmap_get b' i = (bitmap_get b i \<and> metadata_passes p F db q chunk_id m i))"
    if "fold_result step [0..<m] b = Inr b'" for m b'
    using that
  proof (induction m arbitrary: b')
    case 0
    then show ?case using assms(3) by (simp add: metadata_passes_def)
  next
    case (Suc m)
    then obtain b1 where b1: "fold_result step [0..<m] b = Inr b1" and s: "step m b1 = Inr b'"
      by (auto simp: fold_result_append rbind_Inr)
    note IH = Suc.IH [OF b1]
    show ?case
    proof (cases "is_kind (kq_idxStr q) VEC0_IDXSTR_KIND_METADATA_CONSTRAINT m")
      case False
      then have "b' = b1" using s by (simp add: step_def)
      then show ?thesis using IH False by (auto simp: metadata_passes_def less_Suc_eq)
    next
      case True
      then obtain bm where bm: "metadata_bits p F db q chunk_id m = Inr bm" "b' = bitmap_and_inplace b1 bm ?n"
        using s by (auto simp: step_def rbind_Inr)
      then show ?thesis using IH True assms(2) by (auto simp: metadata_passes_def less_Suc_eq bitmap_get_and)
    qed
  qed
  then show ?thesis using assms(1) run by simp
qed

text \<open>The distance constraints of the plan.\<close>

definition distance_passes :: "knn_query \<Rightarrow> nat \<Rightarrow> f32 \<Rightarrow> bool" where
  "distance_passes q argc d \<longleftrightarrow>
     (\<forall>j < argc. is_kind (kq_idxStr q) VEC0_IDXSTR_KIND_KNN_DISTANCE_CONSTRAINT j \<longrightarrow>
        (case distance_operator_of (idx_char (kq_idxStr q) j 1) of
           None \<Rightarrow> True | Some op \<Rightarrow> distance_test op d (to_f32 (value_double (kq_argv q ! j)))))"

lemma distance_filter_bits:
  assumes "n \<le> 8 * length b"
  shows "length (knn_distance_filter n q ds b) = length b \<and>
    (\<forall>i < n. bitmap_get (knn_distance_filter n q ds b) i = (bitmap_get b i \<and> distance_passes q (length (kq_argv q)) (ds ! i)))"
proof -
  define step where "step = (\<lambda>i b.
       if \<not> is_kind (kq_idxStr q) VEC0_IDXSTR_KIND_KNN_DISTANCE_CONSTRAINT i then b
       else case distance_operator_of (idx_char (kq_idxStr q) i 1) of
         None \<Rightarrow> b
       | Some op \<Rightarrow>
           fold (\<lambda>j b. if bitmap_get b j \<and> \<not> distance_test op (ds ! j) (to_f32 (value_double (kq_argv q ! i)))
                       then bitmap_set b j False else b) [0..<n] b)"
  have "length (fold step [0..<m] b) = length b \<and>
    (\<forall>i < n. bitmap_get (fold step [0..<m] b) i = (bitmap_get b i \<and> distance_passes q m (ds ! i)))" for m
  proof (induction m)
    case 0
    then show ?case by (simp add: distance_passes_def)
  next
    case (Suc m)
    let ?b = "fold step [0..<m] b"
    have e: "fold step [0..<Suc m] b = step m ?b" by simp
    show ?case
    proof (cases "is_kind (kq_idxStr q) VEC0_IDXSTR_KIND_KNN_DISTANCE_CONSTRAINT m")
      case False
      then show ?thesis using Suc unfolding e by (auto simp: step_def distance_passes_def less_Suc_eq)
    next
      case True
      show ?thesis
      proof (cases "distance_operator_of (idx_char (kq_idxStr q) m 1)")
        case None
        then show ?thesis using Suc True unfolding e by (auto simp: step_def distance_passes_def less_Suc_eq)
      next
        case (Some op)
        let ?t = "\<lambda>j. distance_test op (ds ! j) (to_f32 (value_double (kq_argv q ! m)))"
        have s: "step m ?b = fold (\<lambda>j b. if bitmap_get b j \<and> \<not> ?t j then bitmap_set b j False else b) [0..<n] ?b"
          using True Some by (simp add: step_def)
        have "n \<le> 8 * length ?b" using Suc assms by simp
        then show ?thesis
          using Suc True Some bm.get_clear_loop [of n ?b ?t] bm.cap_clear_loop [of ?t "[0..<n]" ?b]
          unfolding e s by (auto simp: distance_passes_def less_Suc_eq)
      qed
    qed
  qed
  then show ?thesis unfolding knn_distance_filter_def step_def Let_def .
qed

section \<open>Merging a chunk\<close>

lemma is_topk_map:
  assumes "is_topk le k S out" and "\<And>x. fst (f x) = fst x"
  shows "is_topk le k (image_mset f S) (map f out)"
proof -
  have sub: "mset out \<subseteq># S" using assms(1) by (simp add: is_topk_def)
  have "image_mset f S - mset (map f out) = image_mset f (S - mset out)"
    using sub by (simp add: image_mset_Diff)
  then show ?thesis
    using assms sub by (auto simp: is_topk_def sorted_wrt_map image_mset_subseteq_mono)
qed

lemma is_topk_min: "is_topk le (min k n) S out \<Longrightarrow> size S \<le> n \<Longrightarrow> is_topk le k S out"
  by (auto simp: is_topk_def)

lemma knn_merge_topk:
  assumes "8 dvd n" and "length ds = n" and "is_topk fp_le k A topk" and "\<forall>x \<in># A. \<not> isnan (fst x)"
    and "\<forall>i < n. bitmap_get b i \<longrightarrow> \<not> isnan (ds ! i)"
  shows "is_topk fp_le k (A + mset (map (\<lambda>i. (ds ! i, i64_at (ck_rowids chunk) i)) (filter (bitmap_get b) [0..<n])))
    (knn_merge n k chunk ds b topk)"
proof -
  let ?S = "mset (map (\<lambda>i. (ds ! i, i)) (chunk_candidates ds n b))"
  let ?f = "\<lambda>(d :: f32, i). (d, i64_at (ck_rowids chunk) i)"
  define idxs where "idxs = min_idx ds n b (min k n) (bitmap_new n)"
  have t: "is_topk fp_le (min k n) ?S (map (\<lambda>i. (ds ! i, i)) idxs)"
    unfolding idxs_def by (rule min_idx_topk [OF assms(1) _ assms(5)]) simp
  have len: "length idxs \<le> min k n" using t by (auto simp: is_topk_def)
  have il: "\<forall>i \<in> set idxs. i < n"
  proof
    fix i assume "i \<in> set idxs"
    then have "(ds ! i, i) \<in># mset (map (\<lambda>i. (ds ! i, i)) idxs)" by auto
    moreover have "mset (map (\<lambda>i. (ds ! i, i)) idxs) \<subseteq># ?S" using t by (simp add: is_topk_def)
    ultimately have "(ds ! i, i) \<in># ?S" by (rule mset_subset_eqD [rotated])
    then show "i < n" by (auto simp: chunk_candidates_def)
  qed
  have "size ?S \<le> n" by (simp only: chunk_candidates_def size_mset length_map filter_upt_length_le)
  then have "is_topk fp_le k ?S (map (\<lambda>i. (ds ! i, i)) idxs)" using t is_topk_min by blast
  then have "is_topk fp_le k (image_mset ?f ?S) (map ?f (map (\<lambda>i. (ds ! i, i)) idxs))" by (rule is_topk_map) auto
  then have B: "is_topk fp_le k (mset (map (\<lambda>i. (ds ! i, i64_at (ck_rowids chunk) i)) (filter (bitmap_get b) [0..<n])))
      (map (\<lambda>i. (ds ! i, i64_at (ck_rowids chunk) i)) idxs)"
    by (simp add: chunk_candidates_def o_def case_prod_unfold image_mset.compositionality)
  have a: "map (\<lambda>i. (map fst topk ! i, map snd topk ! i)) [0..<length topk] = topk"
    by (rule nth_equalityI) auto
  have lb: "min (min k n) (length idxs) = length idxs" using len by simp
  have bb: "map (\<lambda>i. (ds ! (idxs ! i), chunk_rowids chunk n ! (idxs ! i))) [0..<length idxs]
      = map (\<lambda>i. (ds ! i, i64_at (ck_rowids chunk) i)) idxs"
    using il by (intro nth_equalityI) auto
  have "knn_merge n k chunk ds b topk = take k (pair_merge fp_le topk (map (\<lambda>i. (ds ! i, i64_at (ck_rowids chunk) i)) idxs))"
    using a bb lb by (simp add: knn_merge_def Let_def idxs_def [symmetric] merge_sorted_lists_eq)
  moreover have "\<forall>x \<in># A + mset (map (\<lambda>i. (ds ! i, i64_at (ck_rowids chunk) i)) (filter (bitmap_get b) [0..<n])). \<not> isnan (fst x)"
    using assms(4,5) by auto
  ultimately show ?thesis using fp_ord.topk_merge [OF assms(3) B] by simp
qed

section \<open>The scan\<close>

text \<open>The rows of a chunk that satisfy the constraints, with their distances.\<close>

definition row_distance :: "VectorColumnDefinition \<Rightarrow> bytes \<Rightarrow> knn_query \<Rightarrow> nat \<Rightarrow> f32" where
  "row_distance col baseVectors q i =
     vec0_distance_full (drop (i * vector_column_byte_size col) baseVectors) (kq_vector q)
       (vc_dimensions col) (vc_element_type col) (vc_distance_metric col)"

definition row_selected ::
  "vec0_vtab \<Rightarrow> VectorColumnDefinition \<Rightarrow> faults \<Rightarrow> 'g vec0_db \<Rightarrow> knn_query \<Rightarrow> int \<Rightarrow> vec0_chunk \<Rightarrow> bytes \<Rightarrow> nat \<Rightarrow> bool"
where
  "row_selected p col F db q chunk_id chunk baseVectors i \<longleftrightarrow>
     bitmap_get (ck_validity chunk) i \<and>
     (case kq_rowids_in q of None \<Rightarrow> True | Some xs \<Rightarrow> rowid_in (i64_at (ck_rowids chunk) i) xs) \<and>
     metadata_passes p F db q chunk_id (length (kq_argv q)) i \<and>
     distance_passes q (length (kq_argv q)) (row_distance col baseVectors q i)"

definition chunk_rows ::
  "vec0_vtab \<Rightarrow> VectorColumnDefinition \<Rightarrow> nat \<Rightarrow> faults \<Rightarrow> 'g vec0_db \<Rightarrow> knn_query \<Rightarrow> int \<times> vec0_chunk \<Rightarrow> (f32 \<times> int) list"
where
  "chunk_rows p col vidx F db q row =
     (let base = the (tbl_get (t_vectors db vidx) (fst row))
      in map (\<lambda>i. (row_distance col base q i, i64_at (ck_rowids (snd row)) i))
           (filter (row_selected p col F db q (fst row) (snd row) base) [0..<chunk_size p]))"

definition knn_candidates ::
  "vec0_vtab \<Rightarrow> VectorColumnDefinition \<Rightarrow> nat \<Rightarrow> faults \<Rightarrow> 'g vec0_db \<Rightarrow> knn_query \<Rightarrow> vec0_chunk table \<Rightarrow> (f32 \<times> int) multiset"
where
  "knn_candidates p col vidx F db q chunks = mset (concat (map (chunk_rows p col vidx F db q) chunks))"

lemma knn_chunk_topk:
  assumes "knn_chunk p col vidx F db q row topk = Inr topk'" and "8 dvd chunk_size p"
    and "is_topk fp_le (kq_k q) A topk" and "\<forall>x \<in># A. \<not> isnan (fst x)"
    and "\<forall>x \<in> set (chunk_rows p col vidx F db q row). \<not> isnan (fst x)"
  shows "is_topk fp_le (kq_k q) (A + mset (chunk_rows p col vidx F db q row)) topk'"
proof -
  obtain chunk_id chunk where row: "row = (chunk_id, chunk)" by (cases row)
  let ?n = "chunk_size p"
  define b0 where "b0 = knn_rowids_filter ?n chunk (kq_rowids_in q) (bitmap_copy (bitmap_new ?n) (ck_validity chunk) ?n)"
  obtain base b1 where sz: "length (ck_validity chunk) = ?n div 8" and base: "tbl_get (t_vectors db vidx) chunk_id = Some base"
    and b1: "knn_metadata_filter p F db q chunk_id b0 = Inr b1"
    and out: "topk' = knn_merge ?n (kq_k q) chunk (knn_distances col ?n base (kq_vector q) b1)
        (knn_distance_filter ?n q (knn_distances col ?n base (kq_vector q) b1) b1) topk"
    using assms(1) by (auto simp: knn_chunk_def row Let_def rbind_Inr case_Inr b0_def split: if_splits)
  define ds where "ds = knn_distances col ?n base (kq_vector q) b1"
  define b2 where "b2 = knn_distance_filter ?n q ds b1"
  have l0: "length b0 = ?n div 8" using sz by (simp add: b0_def)
  have c: "bitmap_get (bitmap_copy (bitmap_new ?n) (ck_validity chunk) ?n) i = bitmap_get (ck_validity chunk) i" if "i < ?n" for i
    using that assms(2) sz by (simp add: bitmap_get_copy)
  have 0: "bitmap_get b0 i = (bitmap_get (ck_validity chunk) i \<and>
      (case kq_rowids_in q of None \<Rightarrow> True | Some xs \<Rightarrow> rowid_in (i64_at (ck_rowids chunk) i) xs))" if "i < ?n" for i
    using rowids_filter_bits [OF assms(2) _ that, of "bitmap_copy (bitmap_new ?n) (ck_validity chunk) ?n"] c [OF that] sz
    by (auto simp: b0_def split: option.splits)
  note 1 = metadata_filter_bits [OF b1 assms(2) l0]
  have "?n \<le> 8 * length b1" using 1 assms(2) by auto
  note 2 = distance_filter_bits [OF this, of q ds, folded b2_def]
  have ds: "ds ! i = row_distance col base q i" if "i < ?n" "bitmap_get b1 i" for i
    using that by (simp add: ds_def knn_distances_def row_distance_def)
  have bits: "bitmap_get b2 i = row_selected p col F db q chunk_id chunk base i" if "i < ?n" for i
    using 0 [OF that] 1 2 ds that by (auto simp: row_selected_def)
  have sel: "bitmap_get b2 i \<Longrightarrow> i < ?n \<Longrightarrow> bitmap_get b1 i" for i using 2 by blast
  have rows: "map (\<lambda>i. (ds ! i, i64_at (ck_rowids chunk) i)) (filter (bitmap_get b2) [0..<?n]) = chunk_rows p col vidx F db q row"
    using bits ds sel by (auto simp: chunk_rows_def row base Let_def intro!: map_cong filter_cong)
  have "\<forall>i < ?n. bitmap_get b2 i \<longrightarrow> \<not> isnan (ds ! i)"
  proof (intro allI impI)
    fix i assume i: "i < ?n" "bitmap_get b2 i"
    then have "(ds ! i, i64_at (ck_rowids chunk) i) \<in> set (chunk_rows p col vidx F db q row)"
      unfolding rows [symmetric] by auto
    then show "\<not> isnan (ds ! i)" using assms(5) by fastforce
  qed
  from knn_merge_topk [OF assms(2) _ assms(3,4) this, of chunk]
  show ?thesis unfolding rows out ds_def [symmetric] b2_def [symmetric] by (simp add: ds_def knn_distances_def)
qed

lemma knn_scan_topk:
  assumes "fold_result (\<lambda>row topk. attempt F ''knn step'' (nat (fst row)) (knn_chunk p col vidx F db q row topk)) chunks topk = Inr out"
    and "8 dvd chunk_size p" and "is_topk fp_le (kq_k q) A topk"
    and "\<forall>x \<in># A + knn_candidates p col vidx F db q chunks. \<not> isnan (fst x)"
  shows "is_topk fp_le (kq_k q) (A + knn_candidates p col vidx F db q chunks) out"
  using assms(1,3,4)
proof (induction chunks arbitrary: topk A)
  case Nil
  then show ?case by (simp add: knn_candidates_def)
next
  case (Cons row chunks)
  then obtain t where t: "knn_chunk p col vidx F db q row topk = Inr t"
    and run: "fold_result (\<lambda>row topk. attempt F ''knn step'' (nat (fst row)) (knn_chunk p col vidx F db q row topk)) chunks t = Inr out"
    by (auto simp: rbind_Inr)
  have e: "knn_candidates p col vidx F db q (row # chunks) = mset (chunk_rows p col vidx F db q row) + knn_candidates p col vidx F db q chunks"
    by (simp add: knn_candidates_def)
  have "is_topk fp_le (kq_k q) (A + mset (chunk_rows p col vidx F db q row)) t"
    by (rule knn_chunk_topk [OF t assms(2) Cons.prems(2)]) (use Cons.prems(3) in \<open>auto simp: e\<close>)
  from Cons.IH [OF run this] show ?case using Cons.prems(3) by (simp add: e add.assoc)
qed

lemma knn_topk:
  assumes "vec0Filter_knn_chunks_iter p col vidx F db chunks q = Inr out" and "8 dvd chunk_size p"
    and "\<forall>x \<in># knn_candidates p col vidx F db q chunks. \<not> isnan (fst x)"
  shows "is_topk fp_le (kq_k q) (knn_candidates p col vidx F db q chunks) out"
proof -
  have run: "fold_result (\<lambda>row topk. attempt F ''knn step'' (nat (fst row)) (knn_chunk p col vidx F db q row topk)) chunks [] = Inr out"
    using assms(1) by (auto simp: vec0Filter_knn_chunks_iter_def rbind_Inr)
  show ?thesis
    using knn_scan_topk [OF run assms(2) fp_ord.is_topk_Nil] assms(3) by (simp add: fp_ord.is_topk_Nil is_topk_def)
qed

end
