(* ===== verification/KnnSorts.thy ===== *)
theory KnnSorts
  imports Knn
begin

text \<open>
  The two sorts of the index queries and the replacement of the worst row: both sorts bring, position
  by position, a smallest of the remaining rows to the front; a row that replaces the worst one keeps
  the rows the best of what was seen.
\<close>

section \<open>Bringing the smallest to the front\<close>

abbreviation nan_free :: "(f32 \<times> 'r) list \<Rightarrow> bool" where
  "nan_free rs \<equiv> \<forall>x \<in> set rs. \<not> isnan (fst x)"

text \<open>One round of a sort: position \<open>s\<close> gets a smallest of the rows from there on.\<close>

definition brings_least :: "nat \<Rightarrow> (f32 \<times> int) list \<Rightarrow> (f32 \<times> int) list \<Rightarrow> bool" where
  "brings_least s rs rs' \<longleftrightarrow> mset rs' = mset rs \<and> take s rs' = take s rs \<and>
     (\<forall>j. s \<le> j \<and> j < length rs \<longrightarrow> fp_le (fst (rs' ! s)) (fst (rs' ! j)))"

lemma brings_leastD:
  assumes "brings_least s rs rs'"
  shows "length rs' = length rs" and "set rs' = set rs" and "mset (drop s rs') = mset (drop s rs)"
    and "i < s \<Longrightarrow> s \<le> length rs \<Longrightarrow> rs' ! i = rs ! i"
proof -
  have m: "mset rs' = mset rs" and t: "take s rs' = take s rs" using assms by (simp_all add: brings_least_def)
  show "length rs' = length rs" using m by (rule mset_eq_length)
  show "set rs' = set rs" using m by (rule mset_eq_setD)
  have "mset (take s xs) + mset (drop s xs) = mset xs" for xs :: "(f32 \<times> int) list"
    by (simp flip: mset_append)
  then have "mset (take s rs) + mset (drop s rs') = mset (take s rs) + mset (drop s rs)" using m t by metis
  then show "mset (drop s rs') = mset (drop s rs)" by simp
  show "rs' ! i = rs ! i" if "i < s" "s \<le> length rs"
  proof -
    have "rs' ! i = take s rs' ! i" "rs ! i = take s rs ! i" using that by simp_all
    then show ?thesis using t by simp
  qed
qed

lemma brings_least_ahead:
  assumes "brings_least m cur cur'" and "m < length cur" and "i < Suc m" and "i \<le> j" and "j < length cur"
    and "\<forall>i < m. \<forall>j. i \<le> j \<and> j < length cur \<longrightarrow> fp_le (fst (cur ! i)) (fst (cur ! j))"
  shows "fp_le (fst (cur' ! i)) (fst (cur' ! j))"
proof (cases "i = m")
  case True
  then show ?thesis using assms by (simp add: brings_least_def)
next
  case False
  note D = brings_leastD [OF assms(1)]
  have im: "i < m" using False assms(3) by simp
  have "\<exists>k. i \<le> k \<and> k < length cur \<and> cur' ! j = cur ! k"
  proof (cases "j < m")
    case True
    then show ?thesis using D(4) [of j] assms(2,4,5) by (intro exI [of _ j]) simp
  next
    case False
    then have "cur' ! j = drop m cur' ! (j - m)" "j - m < length (drop m cur')" using assms(2,5) D(1) by simp_all
    then have "cur' ! j \<in> set (drop m cur')" by (metis nth_mem)
    then have "cur' ! j \<in> set (drop m cur)" using mset_eq_setD [OF D(3)] by simp
    then obtain k where "k < length (drop m cur)" "drop m cur ! k = cur' ! j" by (metis in_set_conv_nth)
    then show ?thesis using im assms(2) by (intro exI [of _ "m + k"]) simp
  qed
  then obtain k where "i \<le> k" "k < length cur" "cur' ! j = cur ! k" by blast
  moreover have "cur' ! i = cur ! i" using D(4) [OF im] assms(2) by simp
  ultimately show ?thesis using assms(6) im by simp
qed

lemma rounds_sort:
  assumes "\<And>s rs'. s < length rs \<Longrightarrow> length rs' = length rs \<Longrightarrow> nan_free rs' \<Longrightarrow> brings_least s rs' (rnd s rs')"
    and "nan_free rs"
  shows "mset (fold rnd [0..<length rs - 1] rs) = mset rs \<and>
    sorted_wrt (\<lambda>x y. fp_le (fst x) (fst y)) (fold rnd [0..<length rs - 1] rs)"
proof -
  let ?n = "length rs"
  have inv: "mset (fold rnd [0..<m] rs) = mset rs \<and>
      (\<forall>i < m. \<forall>j. i \<le> j \<and> j < ?n \<longrightarrow> fp_le (fst (fold rnd [0..<m] rs ! i)) (fst (fold rnd [0..<m] rs ! j)))"
    if "m \<le> ?n - 1" for m
    using that
  proof (induction m)
    case (Suc m)
    define cur where "cur = fold rnd [0..<m] rs"
    have IH: "mset cur = mset rs" "\<forall>i < m. \<forall>j. i \<le> j \<and> j < ?n \<longrightarrow> fp_le (fst (cur ! i)) (fst (cur ! j))"
      using Suc.IH Suc.prems by (simp_all add: cur_def)
    have len: "length cur = ?n" using IH(1) by (rule mset_eq_length)
    have ok: "nan_free cur" using mset_eq_setD [OF IH(1)] assms(2) by simp
    have m: "m < ?n" using Suc.prems by simp
    have B: "brings_least m cur (rnd m cur)" by (rule assms(1) [OF m len ok])
    have e: "fold rnd [0..<Suc m] rs = rnd m cur" by (simp add: cur_def)
    have "fp_le (fst (rnd m cur ! i)) (fst (rnd m cur ! j))" if "i < Suc m" "i \<le> j" "j < ?n" for i j
      using brings_least_ahead [OF B _ that(1,2)] IH(2) m that(3) len by simp
    then show ?case unfolding e using B IH(1) by (simp add: brings_least_def)
  qed simp
  define out where "out = fold rnd [0..<?n - 1] rs"
  have I: "mset out = mset rs" "\<forall>i < ?n - 1. \<forall>j. i \<le> j \<and> j < ?n \<longrightarrow> fp_le (fst (out ! i)) (fst (out ! j))"
    using inv [OF order_refl] by (simp_all add: out_def)
  have "length out = ?n" using I(1) by (rule mset_eq_length)
  then have "sorted_wrt (\<lambda>x y. fp_le (fst x) (fst y)) out" using I(2) by (auto simp: sorted_wrt_iff_nth_less)
  then show ?thesis using I(1) by (simp add: out_def)
qed

lemma swap_rows_facts:
  assumes "i < length rs" and "j < length rs"
  shows "mset (swap_rows i j rs) = mset rs" and "length (swap_rows i j rs) = length rs"
    and "k < length rs \<Longrightarrow> swap_rows i j rs ! k = (if k = j then rs ! i else if k = i then rs ! j else rs ! k)"
    and "s \<le> i \<Longrightarrow> s \<le> j \<Longrightarrow> take s (swap_rows i j rs) = take s rs"
  using assms by (auto simp: swap_rows_def mset_swap nth_list_update)

section \<open>The exchange sort\<close>

lemma exchange_round:
  assumes "s < length rs" and "nan_free rs"
  shows "brings_least s rs (fold (\<lambda>sj rs. if fp_lt (fst (rs ! sj)) (fst (rs ! s)) then swap_rows s sj rs else rs) [Suc s..<length rs] rs)"
proof -
  let ?f = "\<lambda>sj rs. if fp_lt (fst (rs ! sj)) (fst (rs ! s)) then swap_rows s sj rs else rs"
  have "mset (fold ?f [Suc s..<m] rs) = mset rs \<and> take s (fold ?f [Suc s..<m] rs) = take s rs \<and>
      (\<forall>j. s \<le> j \<and> j < m \<longrightarrow> fp_le (fst (fold ?f [Suc s..<m] rs ! s)) (fst (fold ?f [Suc s..<m] rs ! j)))"
    if "Suc s \<le> m" "m \<le> length rs" for m
    using that
  proof (induction m rule: dec_induct)
    case base
    then show ?case using assms by (auto simp: le_less_Suc_eq fp_le_refl)
  next
    case (step m)
    define cur where "cur = fold ?f [Suc s..<m] rs"
    have IH: "mset cur = mset rs" "take s cur = take s rs" "\<forall>j. s \<le> j \<and> j < m \<longrightarrow> fp_le (fst (cur ! s)) (fst (cur ! j))"
      using step by (simp_all add: cur_def)
    have len: "length cur = length rs" using IH(1) by (rule mset_eq_length)
    have ok: "nan_free cur" using mset_eq_setD [OF IH(1)] assms(2) by simp
    have m: "s < length cur" "m < length cur" "s < m" using step assms(1) len by auto
    have n: "\<not> isnan (fst (cur ! s))" "\<not> isnan (fst (cur ! m))" using ok m by auto
    have e: "fold ?f [Suc s..<Suc m] rs = ?f m cur" using step by (simp add: cur_def)
    note S = swap_rows_facts [OF m(1,2)]
    show ?case
    proof (cases "fp_lt (fst (cur ! m)) (fst (cur ! s))")
      case True
      then have lt: "fp_le (fst (cur ! m)) (fst (cur ! s))" by (simp add: fp_lt_def)
      have "fp_le (fst (swap_rows s m cur ! s)) (fst (swap_rows s m cur ! j))" if "s \<le> j" "j < Suc m" for j
        using that S(3) [of s] S(3) [of j] m IH(3) lt n fp_le_trans [OF lt] fp_le_refl by (auto simp: less_Suc_eq)
      then show ?thesis unfolding e using True S(1,4) m(3) IH(1,2) by simp
    next
      case False
      then have "fp_le (fst (cur ! s)) (fst (cur ! m))" using n fp_lt_iff by blast
      then show ?thesis unfolding e using False IH by (auto simp: less_Suc_eq)
    qed
  qed
  from this [of "length rs"] assms(1) show ?thesis by (auto simp: brings_least_def)
qed

lemma exchange_sort_sorts:
  "nan_free rs \<Longrightarrow> mset (exchange_sort rs) = mset rs \<and> sorted_wrt (\<lambda>x y. fp_le (fst x) (fst y)) (exchange_sort rs)"
  unfolding exchange_sort_def
proof (rule rounds_sort)
  fix s and rs' :: "(f32 \<times> int) list" assume A: "s < length rs" "length rs' = length rs" "nan_free rs'"
  show "brings_least s rs' (fold (\<lambda>sj rs. if fp_lt (fst (rs ! sj)) (fst (rs ! s)) then swap_rows s sj rs else rs) [Suc s..<length rs] rs')"
    using exchange_round [of s rs'] A by simp
qed

section \<open>The selection sort\<close>

lemma least_index:
  assumes "a < n" and "n \<le> length rs" and "nan_free rs"
  defines "r \<equiv> fold (\<lambda>c m. if fp_lt (fst (rs ! c)) (fst (rs ! m)) then c else m) [Suc a..<n] a"
  shows "a \<le> r \<and> r < n \<and> (\<forall>j. a \<le> j \<and> j < n \<longrightarrow> fp_le (fst (rs ! r)) (fst (rs ! j)))"
proof -
  let ?f = "\<lambda>c m. if fp_lt (fst (rs ! c)) (fst (rs ! m)) then c else m"
  have ok: "\<not> isnan (fst (rs ! i))" if "i < n" for i using that assms(2,3) by simp
  have "a \<le> fold ?f [Suc a..<m] a \<and> fold ?f [Suc a..<m] a < m \<and>
      (\<forall>j. a \<le> j \<and> j < m \<longrightarrow> fp_le (fst (rs ! fold ?f [Suc a..<m] a)) (fst (rs ! j)))"
    if "Suc a \<le> m" "m \<le> n" for m
    using that
  proof (induction m rule: dec_induct)
    case base
    then show ?case using ok assms(1) by (auto simp: le_less_Suc_eq fp_le_refl)
  next
    case (step m)
    define r' where "r' = fold ?f [Suc a..<m] a"
    have IH: "a \<le> r'" "r' < m" "\<forall>j. a \<le> j \<and> j < m \<longrightarrow> fp_le (fst (rs ! r')) (fst (rs ! j))"
      using step by (simp_all add: r'_def)
    have e: "fold ?f [Suc a..<Suc m] a = ?f m r'" using step by (simp add: r'_def)
    have n: "\<not> isnan (fst (rs ! r'))" "\<not> isnan (fst (rs ! m))" using ok IH(2) step by auto
    show ?case
    proof (cases "fp_lt (fst (rs ! m)) (fst (rs ! r'))")
      case True
      then have lt: "fp_le (fst (rs ! m)) (fst (rs ! r'))" by (simp add: fp_lt_def)
      then show ?thesis unfolding e using True IH n fp_le_trans [OF lt] fp_le_refl by (auto simp: less_Suc_eq)
    next
      case False
      then have "fp_le (fst (rs ! r')) (fst (rs ! m))" using n fp_lt_iff by blast
      then show ?thesis unfolding e using False IH by (auto simp: less_Suc_eq)
    qed
  qed
  from this [of n] assms(1) show ?thesis by (simp add: r_def)
qed

lemma selection_sort_sorts:
  "nan_free rs \<Longrightarrow> mset (selection_sort rs) = mset rs \<and> sorted_wrt (\<lambda>x y. fp_le (fst x) (fst y)) (selection_sort rs)"
  unfolding selection_sort_def
proof (rule rounds_sort)
  fix s and rs' :: "(f32 \<times> int) list" assume A: "s < length rs" "length rs' = length rs" "nan_free rs'"
  define r where "r = fold (\<lambda>c m. if fp_lt (fst (rs' ! c)) (fst (rs' ! m)) then c else m) [Suc s..<length rs'] s"
  have R: "s \<le> r" "r < length rs'" "\<forall>j. s \<le> j \<and> j < length rs' \<longrightarrow> fp_le (fst (rs' ! r)) (fst (rs' ! j))"
    using least_index [of s "length rs'" rs'] A by (simp_all add: r_def)
  have s: "s < length rs'" using A by simp
  note S = swap_rows_facts [OF s R(2)]
  have "brings_least s rs' (if r \<noteq> s then swap_rows s r rs' else rs')"
  proof (cases "r = s")
    case True
    then show ?thesis using R by (simp add: brings_least_def)
  next
    case False
    have "fp_le (fst (swap_rows s r rs' ! s)) (fst (swap_rows s r rs' ! j))" if "s \<le> j" "j < length rs'" for j
      using that S(3) [of s] S(3) [of j] s R by auto
    then show ?thesis using S(1,4) R(1) False by (simp add: brings_least_def)
  qed
  then show "brings_least s rs' (let minIdx = fold (\<lambda>c m. if fp_lt (fst (rs' ! c)) (fst (rs' ! m)) then c else m) [Suc s..<length rs'] s
     in if minIdx \<noteq> s then swap_rows s minIdx rs' else rs')"
    unfolding Let_def r_def [symmetric] .
qed

section \<open>Replacing the worst row\<close>

text \<open>\<open>is_topk\<close> without the order.\<close>

definition is_best :: "nat \<Rightarrow> (f32 \<times> 'r) multiset \<Rightarrow> (f32 \<times> 'r) multiset \<Rightarrow> bool" where
  "is_best k S B \<longleftrightarrow> B \<subseteq># S \<and> size B = min k (size S) \<and> (\<forall>x \<in># S - B. \<forall>y \<in># B. fp_le (fst y) (fst x))"

lemma is_topk_best: "is_topk fp_le k S out \<longleftrightarrow> is_best k S (mset out) \<and> sorted_wrt (\<lambda>x y. fp_le (fst x) (fst y)) out"
  by (auto simp: is_topk_def is_best_def)

lemma worst_row_worst:
  assumes "rs \<noteq> []" and "nan_free rs"
  shows "worst_row rs < length rs \<and> (\<forall>x \<in> set rs. fp_le (fst x) (fst (rs ! worst_row rs)))"
proof -
  let ?f = "\<lambda>wi w. if fp_gt (fst (rs ! wi)) (fst (rs ! w)) then wi else w"
  have ok: "\<not> isnan (fst (rs ! i))" if "i < length rs" for i using that assms(2) by simp
  have "fold ?f [1..<m] 0 < m \<and> (\<forall>j < m. fp_le (fst (rs ! j)) (fst (rs ! fold ?f [1..<m] 0)))"
    if "1 \<le> m" "m \<le> length rs" for m
    using that
  proof (induction m rule: dec_induct)
    case base
    then show ?case using ok assms(1) by (simp add: fp_le_refl)
  next
    case (step m)
    define r' where "r' = fold ?f [1..<m] 0"
    have IH: "r' < m" "\<forall>j < m. fp_le (fst (rs ! j)) (fst (rs ! r'))" using step by (simp_all add: r'_def)
    have e: "fold ?f [1..<Suc m] 0 = ?f m r'" using step by (simp add: r'_def)
    have n: "\<not> isnan (fst (rs ! r'))" "\<not> isnan (fst (rs ! m))" using ok IH(1) step by auto
    show ?case
    proof (cases "fp_gt (fst (rs ! m)) (fst (rs ! r'))")
      case True
      then have lt: "fp_le (fst (rs ! r')) (fst (rs ! m))" by (simp add: fp_lt_def)
      then show ?thesis unfolding e using True IH n fp_le_trans [OF _ lt] fp_le_refl by (auto simp: less_Suc_eq)
    next
      case False
      then have "fp_le (fst (rs ! m)) (fst (rs ! r'))" using n fp_lt_iff by blast
      then show ?thesis unfolding e using False IH by (auto simp: less_Suc_eq)
    qed
  qed
  from this [of "length rs"] assms(1) have "worst_row rs < length rs"
    "\<forall>j < length rs. fp_le (fst (rs ! j)) (fst (rs ! worst_row rs))"
    unfolding worst_row_def by (simp_all add: Suc_le_eq)
  then show ?thesis by (metis in_set_conv_nth)
qed

lemma add_buffered_best:
  assumes "is_best k S (mset rs)" and "0 < k" and "nan_free rs" and "\<not> isnan (fst row)"
  shows "is_best k (add_mset row S) (mset (add_buffered (int k) row rs))"
proof (cases "length rs < k")
  case True
  have "size (mset rs) = size S" using assms(1) True by (auto simp: is_best_def)
  then have "mset rs = S" using assms(1) by (metis is_best_def mset_subset_size nat_less_le subset_mset.le_imp_less_or_eq)
  then show ?thesis using True by (auto simp: add_buffered_def is_best_def)
next
  case False
  then have len: "length rs = k" using assms(1) by (auto simp: is_best_def)
  have ne: "rs \<noteq> []" using len assms(2) by auto
  define w where "w = worst_row rs"
  have W: "w < length rs" "\<forall>x \<in> set rs. fp_le (fst x) (fst (rs ! w))" using worst_row_worst [OF ne assms(3)] by (simp_all add: w_def)
  have nw: "\<not> isnan (fst (rs ! w))" using W(1) assms(3) by simp
  have size: "k \<le> size S" using assms(1) len by (auto simp: is_best_def)
  have sub: "mset rs \<subseteq># S" using assms(1) by (simp add: is_best_def)
  have best: "\<forall>x \<in># S - mset rs. \<forall>y \<in> set rs. fp_le (fst y) (fst x)" using assms(1) by (simp add: is_best_def)
  show ?thesis
  proof (cases "fp_lt (fst row) (fst (rs ! w))")
    case True
    then have lt: "fp_le (fst row) (fst (rs ! w))" by (simp add: fp_lt_def)
    have out: "mset (add_buffered (int k) row rs) = add_mset row (mset rs - {#rs ! w#})"
      using True len W(1) by (simp add: add_buffered_def w_def [symmetric] mset_update)
    obtain R where R: "S = mset rs + R" using sub by (auto simp: mset_subset_eq_exists_conv)
    obtain M where M: "mset rs = add_mset (rs ! w) M" using W(1) by (metis multi_member_split nth_mem_mset)
    have B: "mset (add_buffered (int k) row rs) = add_mset row M" using out M by simp
    have rest: "add_mset row S - add_mset row M = add_mset (rs ! w) R" by (simp add: R M)
    have ins: "y \<in> set rs" if "y \<in># M" for y using that M by (metis insert_iff set_mset_add_mset_insert set_mset_mset)
    have w: "rs ! w \<in> set rs" using W(1) by simp
    have "fp_le (fst y) (fst x)" if x: "x \<in># add_mset (rs ! w) R" and y: "y \<in># add_mset row M" for x y
    proof -
      have xr: "x \<in># S - mset rs" if "x \<noteq> rs ! w" using x that by (simp add: R)
      show ?thesis
      proof (cases "x = rs ! w")
        case True
        then show ?thesis using y ins [of y] W(2) lt by (cases "y = row") simp_all
      next
        case False
        then have "x \<in># S - mset rs" by (rule xr)
        then show ?thesis using y ins [of y] best w fp_le_trans [OF lt] by (cases "y = row") simp_all
      qed
    qed
    moreover have "add_mset row M \<subseteq># add_mset row S" by (simp add: R M)
    moreover have "size (add_mset row M) = min k (size (add_mset row S))"
    proof -
      have "size (add_mset row M) = size (mset rs)" unfolding M by simp
      then show ?thesis using len size by simp
    qed
    ultimately show ?thesis unfolding is_best_def B rest by blast
  next
    case False
    then have "fp_le (fst (rs ! w)) (fst row)" using nw assms(4) fp_lt_iff by blast
    then have le: "\<forall>y \<in> set rs. fp_le (fst y) (fst row)" using W(2) fp_le_trans by blast
    have out: "add_buffered (int k) row rs = rs" using False len by (simp add: add_buffered_def w_def [symmetric])
    have "add_mset row S - mset rs = add_mset row (S - mset rs)" using sub by (metis add_mset_add_single subset_mset.add_diff_assoc2)
    then show ?thesis unfolding out using best le sub len size
      by (auto simp: is_best_def min_def intro: subset_mset.order_trans)
  qed
qed

end
