(* ===== verification/KnnIndexes.thy ===== *)
theory KnnIndexes
  imports KnnFacts KnnSorts DiskannSearch
begin

text \<open>The queries of the two indexes: what they return of the rows their first phase finds.\<close>

section \<open>DiskANN\<close>

lemma add_buffered_all:
  assumes "is_best k S (mset rs)" and "0 < k" and "\<forall>x \<in># S. \<not> isnan (fst x)" and "nan_free rows"
  shows "is_best k (S + mset rows) (mset (fold (add_buffered (int k)) rows rs))"
  using assms(1,3,4)
proof (induction rows arbitrary: rs S)
  case (Cons row rows)
  have "nan_free rs" using Cons.prems(1,2) by (auto simp: is_best_def dest: mset_subset_eqD)
  then have "is_best k (add_mset row S) (mset (add_buffered (int k) row rs))"
    using Cons.prems assms(2) by (intro add_buffered_best) auto
  from Cons.IH [OF this] Cons.prems show ?case by simp
qed simp

definition as_rows :: "(int \<times> f32) list \<Rightarrow> (f32 \<times> int) list" where
  "as_rows = map (\<lambda>(rowid, d). (d, rowid))"

lemma small_k:
  assumes "0 < k" and "k < 2 ^ 28"
  shows "int32_of k = k" and "int32_of (k * 8) = k * 8" and "int32_of (k * 4) = k * 4"
  using assms by (simp_all add: int32_of_small)

lemma knn_diskann_run:
  assumes "vec0Filter_knn_diskann E mem p db vidx idxStr argv = Some (Inr d)"
    and "knn_find VEC0_IDXSTR_KIND_KNN_MATCH idxStr (length argv) = Some qi"
    and "knn_find VEC0_IDXSTR_KIND_KNN_K idxStr (length argv) = Some ki"
    and "vector_from_value mem (argv ! qi) = Inr (vec, dims, et)"
    and "0 < value_int64 (argv ! ki)" and "value_int64 (argv ! ki) < 2 ^ 28" and "col = vector_columns p ! vidx"
  shows "\<exists>found. diskann_search E col vec dims et (value_int64 (argv ! ki)) 0 (t_diskann db vidx) = Some (Inr found) \<and>
    kd_rows d = exchange_sort (fold (add_buffered (value_int64 (argv ! ki))) (buffer_rows E col vec dims et (t_diskann db vidx)) (as_rows found))"
proof -
  note k = small_k [OF assms(5,6)]
  have "\<not> value_int64 (argv ! ki) \<le> 0" using assms(5) by simp
  then show ?thesis
    using assms(1) k unfolding vec0Filter_knn_diskann_def Let_def assms(2,3,4) assms(7) [symmetric] option.case prod.case sum.case
    by (auto simp: as_rows_def split: if_splits option.splits sum.splits)
qed

lemma knn_diskann_topk:
  assumes "diskann_search E col vec dims et k 0 g = Some (Inr found)" and "0 < k"
    and "nan_free (as_rows found @ buffer_rows E col vec dims et g)"
  shows "is_topk fp_le (nat k) (mset (as_rows found) + mset (buffer_rows E col vec dims et g))
    (exchange_sort (fold (add_buffered k) (buffer_rows E col vec dims et g) (as_rows found)))"
proof -
  let ?buf = "buffer_rows E col vec dims et g"
  let ?out = "fold (add_buffered k) ?buf (as_rows found)"
  have "length (as_rows found) \<le> nat k" using search_sound [OF assms(1)] by (simp add: as_rows_def)
  then have "is_best (nat k) (mset (as_rows found)) (mset (as_rows found))" by (simp add: is_best_def)
  then have B: "is_best (nat k) (mset (as_rows found) + mset ?buf) (mset ?out)"
    using add_buffered_all [of "nat k" "mset (as_rows found)" "as_rows found" ?buf] assms(2,3) by simp
  have "nan_free ?out" using B assms(3) by (auto simp: is_best_def dest!: mset_subset_eqD)
  then show ?thesis using B exchange_sort_sorts [of ?out] by (simp add: is_topk_best)
qed

section \<open>Rescore\<close>

text \<open>The rows of a chunk the first phase looks at, with their quantized distances.\<close>

definition position_in :: "int list option \<Rightarrow> vec0_chunk \<Rightarrow> nat \<Rightarrow> bool" where
  "position_in arr chunk i \<longleftrightarrow> bitmap_get (ck_validity chunk) i \<and>
     (case arr of None \<Rightarrow> True | Some xs \<Rightarrow> rowid_in (i64_at (ck_rowids chunk) i) xs)"

definition rescore_rows ::
  "vec0_vtab \<Rightarrow> VectorColumnDefinition \<Rightarrow> nat \<Rightarrow> 'g vec0_db \<Rightarrow> int list option \<Rightarrow> bytes \<Rightarrow> int \<times> vec0_chunk \<Rightarrow> (f32 \<times> int) list"
where
  "rescore_rows p col vidx db arr quantizedQuery row =
     (let base = take (chunk_size p * rescore_quantized_byte_size col) (the (tbl_get (t_rescore_chunks db vidx) (fst row)))
      in map (\<lambda>i. (rescore_distance col (drop (i * rescore_quantized_byte_size col) base) quantizedQuery, i64_at (ck_rowids (snd row)) i))
           (filter (position_in arr (snd row)) [0..<chunk_size p]))"

definition rescore_candidates ::
  "vec0_vtab \<Rightarrow> VectorColumnDefinition \<Rightarrow> nat \<Rightarrow> 'g vec0_db \<Rightarrow> int list option \<Rightarrow> bytes \<Rightarrow> vec0_chunk table \<Rightarrow> (f32 \<times> int) multiset"
where
  "rescore_candidates p col vidx db arr qq chunks = mset (concat (map (rescore_rows p col vidx db arr qq) chunks))"

lemma rescore_chunk_topk:
  assumes "rescore_chunk p col vidx F db arr qq k row cand = Inr cand'" and "8 dvd chunk_size p"
    and "is_topk fp_le k A cand" and "\<forall>x \<in># A. \<not> isnan (fst x)" and "nan_free (rescore_rows p col vidx db arr qq row)"
  shows "is_topk fp_le k (A + mset (rescore_rows p col vidx db arr qq row)) cand'"
proof -
  obtain chunk_id chunk where row: "row = (chunk_id, chunk)" by (cases row)
  let ?n = "chunk_size p" and ?s = "rescore_quantized_byte_size col"
  define b where "b = knn_rowids_filter ?n chunk arr (bitmap_copy (bitmap_new ?n) (ck_validity chunk) ?n)"
  obtain blob where sz: "?n div 8 \<le> length (ck_validity chunk)" and blob: "tbl_get (t_rescore_chunks db vidx) chunk_id = Some blob"
    and len: "?n * ?s \<le> length blob"
    and out: "cand' = knn_merge ?n k chunk (map (\<lambda>j. if \<not> bitmap_get b j then fp0
        else rescore_distance col (drop (j * ?s) (take (?n * ?s) blob)) qq) [0..<?n]) b cand"
  proof -
    have "(?n + 7) div 8 = ?n div 8" using assms(2) by auto
    then show ?thesis using that assms(1)
      by (auto simp: rescore_chunk_def row Let_def case_Inr b_def blob_read_def split: if_splits)
  qed
  define ds where "ds = map (\<lambda>j. if \<not> bitmap_get b j then fp0
        else rescore_distance col (drop (j * ?s) (take (?n * ?s) blob)) qq) [0..<?n]"
  have lb: "length (bitmap_copy (bitmap_new ?n) (ck_validity chunk) ?n) = ?n div 8" using sz by simp
  have bits: "bitmap_get b i = position_in arr chunk i" if "i < ?n" for i
    using rowids_filter_bits [OF assms(2) lb that, of chunk arr] bitmap_get_copy [OF that assms(2) sz]
    by (auto simp: b_def position_in_def split: option.splits)
  have rows: "map (\<lambda>i. (ds ! i, i64_at (ck_rowids chunk) i)) (filter (bitmap_get b) [0..<?n]) = rescore_rows p col vidx db arr qq row"
    using bits by (auto simp: rescore_rows_def row blob Let_def ds_def intro!: map_cong filter_cong)
  have "\<forall>i < ?n. bitmap_get b i \<longrightarrow> \<not> isnan (ds ! i)"
  proof (intro allI impI)
    fix i assume "i < ?n" "bitmap_get b i"
    then have "(ds ! i, i64_at (ck_rowids chunk) i) \<in> set (rescore_rows p col vidx db arr qq row)"
      unfolding rows [symmetric] by auto
    then show "\<not> isnan (ds ! i)" using assms(5) by fastforce
  qed
  from knn_merge_topk [OF assms(2) _ assms(3,4) this, of chunk]
  show ?thesis unfolding rows out ds_def [symmetric] by (simp add: ds_def)
qed

lemma rescore_scan_topk:
  assumes "fold_result (\<lambda>row cand. attempt F ''rescore step'' (nat (fst row)) (rescore_chunk p col vidx F db arr qq k row cand)) chunks cand = Inr out"
    and "8 dvd chunk_size p" and "is_topk fp_le k A cand"
    and "\<forall>x \<in># A + rescore_candidates p col vidx db arr qq chunks. \<not> isnan (fst x)"
  shows "is_topk fp_le k (A + rescore_candidates p col vidx db arr qq chunks) out"
  using assms(1,3,4)
proof (induction chunks arbitrary: cand A)
  case Nil
  then show ?case by (simp add: rescore_candidates_def)
next
  case (Cons row chunks)
  then obtain t where t: "rescore_chunk p col vidx F db arr qq k row cand = Inr t"
    and run: "fold_result (\<lambda>row cand. attempt F ''rescore step'' (nat (fst row)) (rescore_chunk p col vidx F db arr qq k row cand)) chunks t = Inr out"
    by (auto simp: rbind_Inr)
  have e: "rescore_candidates p col vidx db arr qq (row # chunks) = mset (rescore_rows p col vidx db arr qq row) + rescore_candidates p col vidx db arr qq chunks"
    by (simp add: rescore_candidates_def)
  have "is_topk fp_le k (A + mset (rescore_rows p col vidx db arr qq row)) t"
    by (rule rescore_chunk_topk [OF t assms(2) Cons.prems(2)]) (use Cons.prems(3) in \<open>auto simp: e\<close>)
  from Cons.IH [OF run this] show ?case using Cons.prems(3) by (simp add: e add.assoc)
qed

text \<open>The exact distance of a row, from its stored vector.\<close>

definition exact_row :: "VectorColumnDefinition \<Rightarrow> nat \<Rightarrow> 'g vec0_db \<Rightarrow> bytes \<Rightarrow> f32 \<times> int \<Rightarrow> f32 \<times> int" where
  "exact_row col vidx db vec row =
     (vec0_distance_full (take (vector_column_byte_size col) (the (tbl_get (t_rescore_vectors db vidx) (snd row)))) vec
        (vc_dimensions col) (vc_element_type col) (vc_distance_metric col), snd row)"

lemma rescore_exact_rows:
  "rescore_exact col vidx F db vec cand = Inr exact \<Longrightarrow> exact = map (exact_row col vidx db vec) cand"
proof -
  have "fold_result (\<lambda>(d, rowid) out.
       attempt F ''rescore open vector'' vidx
         (case tbl_get (t_rescore_vectors db vidx) rowid of
            None \<Rightarrow> Inl SQLITE_ERROR
          | Some blob \<Rightarrow>
              (case blob_read blob (vector_column_byte_size col) 0 of
                 None \<Rightarrow> Inl SQLITE_ERROR
               | Some fBuf \<Rightarrow> Inr (out @ [(vec0_distance_full fBuf vec (vc_dimensions col) (vc_element_type col)
                                          (vc_distance_metric col), rowid)])))) cand acc = Inr exact
    \<Longrightarrow> exact = acc @ map (exact_row col vidx db vec) cand" for acc
  proof (induction cand arbitrary: acc)
    case (Cons x cand)
    obtain d rowid where x: "x = (d, rowid)" by (cases x)
    from Cons.prems obtain blob where blob: "tbl_get (t_rescore_vectors db vidx) rowid = Some blob"
      and run: "fold_result (\<lambda>(d, rowid) out.
       attempt F ''rescore open vector'' vidx
         (case tbl_get (t_rescore_vectors db vidx) rowid of
            None \<Rightarrow> Inl SQLITE_ERROR
          | Some blob \<Rightarrow>
              (case blob_read blob (vector_column_byte_size col) 0 of
                 None \<Rightarrow> Inl SQLITE_ERROR
               | Some fBuf \<Rightarrow> Inr (out @ [(vec0_distance_full fBuf vec (vc_dimensions col) (vc_element_type col)
                                          (vc_distance_metric col), rowid)])))) cand (acc @ [exact_row col vidx db vec x]) = Inr exact"
      by (auto simp: x rbind_Inr case_Inr blob_read_def exact_row_def split: if_splits)
    show ?case using Cons.IH [OF run] by simp
  qed simp
  then show "rescore_exact col vidx F db vec cand = Inr exact \<Longrightarrow> exact = map (exact_row col vidx db vec) cand"
    unfolding rescore_exact_def by fastforce
qed

lemma is_topk_take_sorted:
  assumes "nan_free rs"
  shows "is_topk fp_le k (mset rs) (take k (selection_sort rs))"
proof -
  let ?s = "selection_sort rs"
  have S: "mset ?s = mset rs" "sorted_wrt (\<lambda>x y. fp_le (fst x) (fst y)) ?s" using selection_sort_sorts [OF assms] by blast+
  have split: "mset (take k ?s) + mset (drop k ?s) = mset rs" using S(1) by (simp flip: mset_append)
  have "\<forall>x \<in># mset rs - mset (take k ?s). \<forall>y \<in> set (take k ?s). fp_le (fst y) (fst x)"
    using S(2) unfolding split [symmetric] by (simp, metis append_take_drop_id sorted_wrt_append)
  moreover have "length (take k ?s) = min k (size (mset rs))" using mset_eq_length [OF S(1)] by (simp add: min.commute)
  moreover have "mset (take k ?s) \<subseteq># mset rs" unfolding split [symmetric] by simp
  ultimately show ?thesis using S(2) by (simp add: is_topk_def sorted_wrt_take)
qed

lemma rescore_topk:
  assumes "rescore_knn sqlop p col vidx F db idxStr argv arr vec k = Inr d" and "8 dvd chunk_size p" and "0 < k"
    and "vec0_chunks_iter sqlop F db idxStr argv = Inr chunks" and "qq = rescore_quantize col vec"
    and "\<forall>x \<in># rescore_candidates p col vidx db arr qq chunks. \<not> isnan (fst x)"
    and "\<forall>x. \<not> isnan (fst (exact_row col vidx db vec x))"
  shows "\<exists>cand. is_topk fp_le (nat (min (k * effective_oversample col) 4096)) (rescore_candidates p col vidx db arr qq chunks) cand \<and>
    is_topk fp_le (nat k) (mset (map (exact_row col vidx db vec) cand)) (kd_rows d)"
proof -
  let ?ko = "nat (min (k * effective_oversample col) 4096)"
  obtain cand where scan: "fold_result (\<lambda>row cand. attempt F ''rescore step'' (nat (fst row))
        (rescore_chunk p col vidx F db arr qq ?ko row cand)) chunks [] = Inr cand"
    and rest: "attempt F ''rescore last step'' 0
       (if cand = [] then Inr \<lparr>kd_k = 0, kd_rows = [], kd_current_idx = 0\<rparr>
        else attempt F ''rescore malloc distances'' 0
          (rbind (rescore_exact col vidx F db vec cand) (\<lambda>exact. attempt F ''rescore malloc result'' 0
               (let rows = take (nat k) (selection_sort exact)
                in Inr \<lparr>kd_k = int (length rows), kd_rows = rows, kd_current_idx = 0\<rparr>)))) = Inr d"
    using assms(1,4,5) unfolding rescore_knn_def Let_def by (auto simp: rbind_Inr split: if_splits)
  have C: "is_topk fp_le ?ko (rescore_candidates p col vidx db arr qq chunks) cand"
    using rescore_scan_topk [OF scan assms(2), of "{#}"] assms(6) by (simp add: is_topk_def)
  have "is_topk fp_le (nat k) (mset (map (exact_row col vidx db vec) cand)) (kd_rows d)"
  proof (cases "cand = []")
    case True
    then show ?thesis using rest by (auto simp: is_topk_def)
  next
    case False
    then obtain exact where E: "rescore_exact col vidx F db vec cand = Inr exact" "kd_rows d = take (nat k) (selection_sort exact)"
      using rest by (auto simp: rbind_Inr Let_def)
    have e: "exact = map (exact_row col vidx db vec) cand" by (rule rescore_exact_rows [OF E(1)])
    then have "nan_free exact" using assms(7) by auto
    then show ?thesis using is_topk_take_sorted [of exact "nat k"] unfolding E(2) e by blast
  qed
  then show ?thesis using C by blast
qed

end
