(* ===== verification/KnnProperties.thy ===== *)
theory KnnProperties
  imports KnnIndexes Positions SearchProperties
begin

text \<open>
  The properties of KNN queries, from the values of a plan to the rows the cursor returns, for the three
  kinds of vector columns.
\<close>

section \<open>Rows and positions\<close>

text \<open>The positions of the chunks that satisfy \<open>sel\<close>.\<close>

definition chosen :: "nat \<Rightarrow> (int \<Rightarrow> vec0_chunk \<Rightarrow> nat \<Rightarrow> bool) \<Rightarrow> vec0_chunk table \<Rightarrow> (int \<times> vec0_chunk \<times> nat) list" where
  "chosen n sel chunks = concat (map (\<lambda>(c, chunk). map (\<lambda>i. (c, chunk, i)) (filter (sel c chunk) [0..<n])) chunks)"

definition rowid_at :: "int \<times> vec0_chunk \<times> nat \<Rightarrow> int" where
  "rowid_at x = (case x of (c, chunk, i) \<Rightarrow> i64_at (ck_rowids chunk) i)"

lemma chosen_distinct: "distinct (map fst chunks) \<Longrightarrow> distinct (chosen n sel chunks)"
  by (induction chunks) (auto simp: chosen_def distinct_map inj_on_def image_iff)

lemma chosen_rows:
  assumes "positions_ok n {} cs rs" and "set chunks \<subseteq> set cs" and "distinct (map fst chunks)"
    and "\<And>c chunk i. sel c chunk i \<Longrightarrow> bitmap_get (ck_validity chunk) i"
  shows "distinct (map rowid_at (chosen n sel chunks)) \<and> set (map rowid_at (chosen n sel chunks)) \<subseteq> set (map fst rs)"
proof -
  have pos: "\<exists>row. tbl_get rs (rowid_at x) = Some row \<and> (case x of (c, chunk, i) \<Rightarrow> rr_pos row = Some (c, int i) \<and> tbl_get cs c = Some chunk)"
    if "x \<in> set (chosen n sel chunks)" for x
  proof -
    obtain c chunk i where xe: "x = (c, chunk, i)" by (cases x) auto
    then have x: "x = (c, chunk, i)" "(c, chunk) \<in> set cs" "i < n" "sel c chunk i"
      using that assms(2) by (auto simp: chosen_def)
    have "bit_at (ck_validity chunk) i" using assms(4) [OF x(4)] by (simp add: bitmap_get_bit bit_at_def)
    moreover have "tbl_get cs c = Some chunk" using x(2) tbl_get_iff [OF positions_okD(2) [OF assms(1)]] by blast
    ultimately show ?thesis using positions_okD(5) [OF assms(1) _ x(3)] x(1) by (auto simp: rowid_at_def)
  qed
  have "inj_on rowid_at (set (chosen n sel chunks))"
  proof (rule inj_onI)
    fix x y assume A: "x \<in> set (chosen n sel chunks)" "y \<in> set (chosen n sel chunks)" "rowid_at x = rowid_at y"
    obtain c k i c' k' i' where e: "x = (c, k, i)" "y = (c', k', i')" by (cases x, cases y) auto
    show "x = y" using pos [OF A(1)] pos [OF A(2)] A(3) unfolding e prod.case by auto
  qed
  then have "distinct (map rowid_at (chosen n sel chunks))"
    using chosen_distinct [OF assms(3)] by (simp add: distinct_map)
  moreover have "rowid_at x \<in> set (map fst rs)" if "x \<in> set (chosen n sel chunks)" for x
    using pos [OF that] tbl_get_iff [OF positions_okD(3) [OF assms(1)]] by force
  ultimately show ?thesis by auto
qed

lemma chosen_all:
  assumes "positions_ok n {} cs rs"
  shows "set (map fst rs) \<subseteq> set (map rowid_at (chosen n (\<lambda>c chunk. bitmap_get (ck_validity chunk)) cs))"
proof
  fix r assume "r \<in> set (map fst rs)"
  then obtain row where "tbl_get rs r = Some row" using tbl_get_iff [OF positions_okD(3) [OF assms]] by force
  then have "placed n cs r row" using positions_okD(8) [OF assms] by blast
  then obtain c off chunk where P: "tbl_get cs c = Some chunk" "off < n" "bit_at (ck_validity chunk) off" "i64_at (ck_rowids chunk) off = r"
    by (auto simp: placed_def)
  then have "(c, chunk) \<in> set cs" using tbl_get_iff [OF positions_okD(2) [OF assms]] by blast
  then have "(c, chunk, off) \<in> set (chosen n (\<lambda>c chunk. bitmap_get (ck_validity chunk)) cs)"
    using P by (auto simp: chosen_def bitmap_get_bit bit_at_def intro!: bexI [of _ "(c, chunk)"])
  then show "r \<in> set (map rowid_at (chosen n (\<lambda>c chunk. bitmap_get (ck_validity chunk)) cs))"
    using P(4) by (force simp: rowid_at_def)
qed

lemma candidates_chosen:
  "image_mset snd (knn_candidates p col vidx F db q chunks)
    = mset (map rowid_at (chosen (chunk_size p)
        (\<lambda>c chunk. row_selected p col F db q c chunk (the (tbl_get (t_vectors db vidx) c))) chunks))"
  by (induction chunks)
    (auto simp: knn_candidates_def chosen_def chunk_rows_def rowid_at_def Let_def image_mset.compositionality o_def)

lemma chunks_iter_sub:
  assumes "vec0_chunks_iter sqlop F db idxStr argv = Inr chunks" and "tbl_ok (t_chunks db)"
  shows "set chunks \<subseteq> set (t_chunks db) \<and> distinct (map fst chunks)"
proof -
  obtain P where "chunks = filter P (t_chunks db)"
    using assms(1) by (auto simp: vec0_chunks_iter_def Let_def split: if_splits)
  then show ?thesis using distinct_map_filter [OF tbl_ok_distinct [OF assms(2)]] by auto
qed

text \<open>The plan of a query with a query vector and a limit only.\<close>

lemma plain_passes:
  assumes "kq_idxStr q = ''3{___}___''" and "length (kq_argv q) = 2"
  shows "metadata_passes p F db q c (length (kq_argv q)) i" and "distance_passes q (length (kq_argv q)) d"
  using assms by (auto simp: metadata_passes_def distance_passes_def idx_char_def less_2_cases_iff)

lemma plain_chunks:
  assumes "vec0_chunks_iter sqlop F db ''3{___}___'' argv = Inr chunks"
  shows "chunks = t_chunks db"
proof -
  have "filter (is_kind ''3{___}___'' VEC0_IDXSTR_KIND_KNN_PARTITON_CONSTRAINT) [0..<(length ''3{___}___'' - 1) div 4] = []"
    by code_simp
  then show ?thesis using assms by (simp add: vec0_chunks_iter_def)
qed

section \<open>An exhaustive query\<close>


lemma plain_knn_run:
  assumes "vec0Filter_knn sqlop E mem F p db in_values vidx idxStr argv = Some (Inr (Some d))"
    and "col = vector_columns p ! vidx" and "vc_index_type col \<noteq> VEC0_INDEX_TYPE_DISKANN" and "vc_index_type col \<noteq> VEC0_INDEX_TYPE_RESCORE"
    and "knn_find VEC0_IDXSTR_KIND_KNN_MATCH idxStr (length argv) = Some qi"
    and "knn_find VEC0_IDXSTR_KIND_KNN_K idxStr (length argv) = Some ki"
    and "vector_from_value mem (argv ! qi) = Inr (vec, dims, et)"
    and "knn_rowids_in p F db in_values (knn_find VEC0_IDXSTR_KIND_KNN_ROWID_IN idxStr (length argv)) = Inr arr"
    and "knn_metadata_in p F idxStr (length argv) in_values = Inr (Some ins)"
    and "vec0_chunks_iter sqlop F db idxStr argv = Inr chunks"
    and "q = \<lparr>kq_vector = vec, kq_k = nat (value_int64 (argv ! ki)), kq_idxStr = idxStr, kq_argv = argv, kq_rowids_in = arr,
      kq_metadata_in = ins\<rparr>"
  shows "(value_int64 (argv ! ki) = 0 \<and> kd_rows d = []) \<or>
    (0 < value_int64 (argv ! ki) \<and> value_int64 (argv ! ki) \<le> 4096 \<and> vec0Filter_knn_chunks_iter p col vidx F db chunks q = Inr (kd_rows d))"
  using assms(1,3,4) unfolding vec0Filter_knn_def Let_def assms(2) [symmetric] assms(5-11) option.case prod.case sum.case
  by (auto simp: rbind_Inr SQLITE_VEC_VEC0_K_MAX_def split: if_splits)

text \<open>C1. A KNN query on a column without an index returns, in order of distance, the \<open>k\<close> nearest of the
  rows that satisfy its constraints (on partition keys, rowids, metadata and the distance itself), or
  all of them if there are fewer, if no distance is a NaN.\<close>

theorem knn_returns_nearest:
  assumes "vec0Filter_knn sqlop E mem F p db in_values vidx idxStr argv = Some (Inr (Some d))"
    and "col = vector_columns p ! vidx" and "vc_index_type col = VEC0_INDEX_TYPE_FLAT" and "8 dvd chunk_size p"
    and "knn_find VEC0_IDXSTR_KIND_KNN_MATCH idxStr (length argv) = Some qi"
    and "knn_find VEC0_IDXSTR_KIND_KNN_K idxStr (length argv) = Some ki"
    and "vector_from_value mem (argv ! qi) = Inr (vec, dims, et)"
    and "knn_rowids_in p F db in_values (knn_find VEC0_IDXSTR_KIND_KNN_ROWID_IN idxStr (length argv)) = Inr arr"
    and "knn_metadata_in p F idxStr (length argv) in_values = Inr (Some ins)"
    and "vec0_chunks_iter sqlop F db idxStr argv = Inr chunks"
    and "q = \<lparr>kq_vector = vec, kq_k = nat (value_int64 (argv ! ki)), kq_idxStr = idxStr, kq_argv = argv, kq_rowids_in = arr,
      kq_metadata_in = ins\<rparr>"
    and "\<forall>x \<in># knn_candidates p col vidx F db q chunks. \<not> isnan (fst x)"
  shows "is_topk fp_le (nat (value_int64 (argv ! ki))) (knn_candidates p col vidx F db q chunks) (kd_rows d)"
proof -
  have t: "vc_index_type col \<noteq> VEC0_INDEX_TYPE_DISKANN" "vc_index_type col \<noteq> VEC0_INDEX_TYPE_RESCORE" using assms(3) by simp_all
  have k: "kq_k q = nat (value_int64 (argv ! ki))" by (simp add: assms(11))
  from plain_knn_run [OF assms(1,2) t assms(5-11)] show ?thesis
  proof
    assume "value_int64 (argv ! ki) = 0 \<and> kd_rows d = []"
    then show ?thesis by (simp add: is_topk_def)
  next
    assume "0 < value_int64 (argv ! ki) \<and> value_int64 (argv ! ki) \<le> 4096 \<and> vec0Filter_knn_chunks_iter p col vidx F db chunks q = Inr (kd_rows d)"
    then have "vec0Filter_knn_chunks_iter p col vidx F db chunks q = Inr (kd_rows d)" by blast
    from knn_topk [OF this assms(4,12)] show ?thesis by (simp add: k)
  qed
qed

section \<open>A table with two rows\<close>

definition ex_knn_db :: "bool \<Rightarrow> int \<Rightarrow> (nat \<Rightarrow> diskann_state) vec0_db" where
  "ex_knn_db text r = \<lparr>t_chunks = [(1, \<lparr>ck_size = 8, ck_validity = [3], ck_rowids = i64_bytes r @ i64_bytes 9 @ replicate 48 0,
       ck_partition = []\<rparr>)], seq_chunks = 1,
     t_rowids = [(9, \<lparr>rr_id = (if text then Some (ex_text ''b'') else None), rr_pos = Some (1, 1)\<rparr>),
                 (r, \<lparr>rr_id = (if text then Some (ex_text ''a'') else None), rr_pos = Some (1, 0)\<rparr>)], seq_rowids = r,
     t_vectors = \<lambda>_. [(1, [3, 255, 3, 255] @ replicate 12 0)], t_metadata = \<lambda>_. [], t_metatext = \<lambda>_. [], t_aux = [],
     t_rescore_chunks = \<lambda>_. [(1, [255, 255] @ replicate 6 0)],
     t_rescore_vectors = \<lambda>_. [(9, replicate 32 0), (r, replicate 32 0)],
     t_diskann = \<lambda>_. ex_two VEC0_DISTANCE_METRIC_L2 4\<rparr>"

definition ex_knn :: "vec0_vtab \<Rightarrow> (nat \<Rightarrow> diskann_state) vec0_db \<Rightarrow> sqlite3_value list \<Rightarrow> string \<Rightarrow> sqlite3_value list \<Rightarrow>
    vec0_query_knn_data option result option" where
  "ex_knn p db ins idxStr argv = vec0Filter_knn (\<lambda>_. sql_eq) ex_env (\<lambda>_ _. True) no_faults p db (\<lambda>_. ins) 0 idxStr argv"

definition ex_query :: "int \<Rightarrow> sqlite3_value list" where
  "ex_query k = [ex_vec [3, 255], ex_int k]"

lemma ex_knn_rows: "ex_knn ex_table (ex_knn_db False 10) [] ''3{___}___'' (ex_query 1)
    = Some (Inr (Some \<lparr>kd_k = 1, kd_rows = [(fp0, 9)], kd_current_idx = 0\<rparr>))"
  by code_simp

definition ex_knn_query :: knn_query where
  "ex_knn_query = \<lparr>kq_vector = [3, 255], kq_k = nat 1, kq_idxStr = ''3{___}___'', kq_argv = ex_query 1,
     kq_rowids_in = None, kq_metadata_in = []\<rparr>"

lemma ex_knn_finds:
  "knn_find VEC0_IDXSTR_KIND_KNN_MATCH ''3{___}___'' (length (ex_query 1)) = Some 0"
  "knn_find VEC0_IDXSTR_KIND_KNN_K ''3{___}___'' (length (ex_query 1)) = Some 1"
  "vector_from_value (\<lambda>_ _. True) (ex_query 1 ! 0) = Inr ([3, 255], 2, SQLITE_VEC_ELEMENT_TYPE_INT8)"
  "knn_rowids_in ex_table no_faults (ex_knn_db False 10) (\<lambda>_. []) (knn_find VEC0_IDXSTR_KIND_KNN_ROWID_IN ''3{___}___'' (length (ex_query 1))) = Inr None"
  "knn_metadata_in ex_table no_faults ''3{___}___'' (length (ex_query 1)) (\<lambda>_. []) = Inr (Some [])"
  "vec0_chunks_iter (\<lambda>_. sql_eq) no_faults (ex_knn_db False 10) ''3{___}___'' (ex_query 1) = Inr (t_chunks (ex_knn_db False 10))"
  "value_int64 (ex_query 1 ! 1) = 1"
  by code_simp+

lemma ex_knn_candidates: "knn_candidates ex_table ex_column 0 no_faults (ex_knn_db False 10) ex_knn_query (t_chunks (ex_knn_db False 10))
    = mset [(fp0, 10), (fp0, 9)]"
proof -
  have "concat (map (chunk_rows ex_table ex_column 0 no_faults (ex_knn_db False 10) ex_knn_query) (t_chunks (ex_knn_db False 10)))
      = [(fp0, 10), (fp0, 9)]" by code_simp
  then show ?thesis by (simp add: knn_candidates_def)
qed

lemma ex_knn_setup:
  "ex_column = vector_columns ex_table ! 0" "vc_index_type ex_column = VEC0_INDEX_TYPE_FLAT" "8 dvd chunk_size ex_table"
  "ex_knn_query = \<lparr>kq_vector = [3, 255], kq_k = nat (value_int64 (ex_query 1 ! 1)), kq_idxStr = ''3{___}___'',
     kq_argv = ex_query 1, kq_rowids_in = None, kq_metadata_in = []\<rparr>"
  "\<forall>x \<in># mset [(fp0, 10), (fp0, 9 :: int)]. \<not> isnan (fst x)"
  by (simp_all add: ex_table_def ex_column_def ex_knn_query_def ex_query_def ex_int_def)

theorem knn_returns_nearest_witness: "is_topk fp_le 1 (mset [(fp0, 10), (fp0, 9)]) [(fp0, 9 :: int)]"
  using knn_returns_nearest [OF ex_knn_rows [unfolded ex_knn_def] ex_knn_setup(1-3) ex_knn_finds(1-6) ex_knn_setup(4)
      ex_knn_setup(5) [folded ex_knn_candidates]]
  by (simp add: ex_knn_finds(7) [unfolded One_nat_def] ex_knn_candidates)

lemma ex_positions: "positions_ok (chunk_size ex_table) {} (t_chunks (ex_knn_db False 10)) (t_rowids (ex_knn_db False 10))"
proof -
  have at: "\<forall>i < 8. bit_at [3] i = (i < 2)"
    by code_simp
  have r: "i64_at (i64_bytes 10 @ i64_bytes 9 @ replicate 48 0) 0 = 10" "i64_at (i64_bytes 10 @ i64_bytes 9 @ replicate 48 0) (Suc 0) = 9"
    by code_simp+
  show ?thesis
    by (rule positions_okI)
      (auto simp: ex_table_def ex_knn_db_def tbl_ok_def tbl_get_def chunk_sized_def placed_def at r is_i64_def less_2_cases_iff
        split: if_splits intro: exI [of _ 0] exI [of _ 1])
qed

lemma ex_plain_query: "kq_idxStr ex_knn_query = ''3{___}___''" "kq_argv ex_knn_query = ex_query 1" "kq_rowids_in ex_knn_query = None"
  "length (ex_query 1) = 2" "map fst (t_rowids (ex_knn_db False 10)) = [9, 10]"
  by (simp_all add: ex_knn_query_def ex_query_def ex_knn_db_def)


section \<open>\<open>rowid in (...)\<close>\<close>


end
