(* ===== verification/Init.thy ===== *)
theory Init
  imports Shadow ColumnPrint
begin

text \<open>
  The life of a vec0 table: \<open>vec0_init\<close> (behind \<open>xCreate\<close> and \<open>xConnect\<close>) reads the arguments of
  \<open>CREATE VIRTUAL TABLE\<close>, checks them and creates the shadow tables; \<open>vec0Rename\<close> renames the shadow
  tables and \<open>vec0Destroy\<close> drops them. What the tables hold is the subject of the other theories; here
  they are names in the database.
\<close>

section \<open>Reading the arguments\<close>

definition VEC0_MAX_VECTOR_COLUMNS :: nat where "VEC0_MAX_VECTOR_COLUMNS = 16"
definition VEC0_MAX_PARTITION_COLUMNS :: nat where "VEC0_MAX_PARTITION_COLUMNS = 4"
definition VEC0_MAX_AUXILIARY_COLUMNS :: nat where "VEC0_MAX_AUXILIARY_COLUMNS = 16"
definition VEC0_MAX_METADATA_COLUMNS :: nat where "VEC0_MAX_METADATA_COLUMNS = 16"
definition SQLITE_VEC_VEC0_MAX_DIMENSIONS :: nat where "SQLITE_VEC_VEC0_MAX_DIMENSIONS = 8192"
definition SQLITE_VEC_CHUNK_SIZE_MAX :: int where "SQLITE_VEC_CHUNK_SIZE_MAX = 4096"

lemmas vec0_limits = VEC0_MAX_VECTOR_COLUMNS_def VEC0_MAX_PARTITION_COLUMNS_def VEC0_MAX_AUXILIARY_COLUMNS_def
  VEC0_MAX_METADATA_COLUMNS_def SQLITE_VEC_VEC0_MAX_DIMENSIONS_def SQLITE_VEC_CHUNK_SIZE_MAX_def

text \<open>The locals of \<open>vec0_init\<close> next to the table: the primary key column and the chunk size, \<open>-1\<close> when not given.\<close>

record init_locals =
  il_table :: vec0_vtab
  il_pk :: "(string \<times> sqlite_type) option"
  il_chunk_size :: int

definition init_vector_column :: "VectorColumnDefinition \<Rightarrow> init_locals \<Rightarrow> init_locals result" where
  "init_vector_column vecColumn s =
    (let p = il_table s; n = length (vector_columns p)
     in if n \<ge> VEC0_MAX_VECTOR_COLUMNS then Inl SQLITE_ERROR
        else if vc_dimensions vecColumn > SQLITE_VEC_VEC0_MAX_DIMENSIONS then Inl SQLITE_ERROR
        else if vc_index_type vecColumn = VEC0_INDEX_TYPE_DISKANN \<and>
                vc_element_type vecColumn = SQLITE_VEC_ELEMENT_TYPE_BIT then Inl SQLITE_ERROR
        else if vc_index_type vecColumn = VEC0_INDEX_TYPE_DISKANN \<and>
                dk_quantizer_type (vc_diskann vecColumn) = VEC0_DISKANN_QUANTIZER_BINARY \<and>
                vc_dimensions vecColumn mod 8 \<noteq> 0 then Inl SQLITE_ERROR
        else Inr (s\<lparr>il_table := p\<lparr>user_columns := user_columns p @ [(SQLITE_VEC0_USER_COLUMN_KIND_VECTOR, n)],
                                vector_columns := vector_columns p @ [vecColumn]\<rparr>\<rparr>))"

definition init_partition_column :: "faults \<Rightarrow> nat \<Rightarrow> string \<times> sqlite_type \<Rightarrow> init_locals \<Rightarrow> init_locals result" where
  "init_partition_column F i column s =
    (let p = il_table s; n = length (partition_columns p)
     in if n \<ge> VEC0_MAX_PARTITION_COLUMNS then Inl SQLITE_ERROR
        else if F ''column name'' i \<noteq> None then Inl SQLITE_ERROR
        else Inr (s\<lparr>il_table := p\<lparr>user_columns := user_columns p @ [(SQLITE_VEC0_USER_COLUMN_KIND_PARTITION, n)],
                                partition_columns := partition_columns p @ [column]\<rparr>\<rparr>))"

definition init_primary_key :: "string \<times> sqlite_type \<Rightarrow> init_locals \<Rightarrow> init_locals result" where
  "init_primary_key column s =
    (if il_pk s \<noteq> None then Inl SQLITE_ERROR else Inr (s\<lparr>il_pk := Some column\<rparr>))"

definition init_auxiliary_column :: "faults \<Rightarrow> nat \<Rightarrow> string \<times> sqlite_type \<Rightarrow> init_locals \<Rightarrow> init_locals result" where
  "init_auxiliary_column F i column s =
    (let p = il_table s; n = length (auxiliary_columns p)
     in if n \<ge> VEC0_MAX_AUXILIARY_COLUMNS then Inl SQLITE_ERROR
        else if F ''column name'' i \<noteq> None then Inl SQLITE_ERROR
        else Inr (s\<lparr>il_table := p\<lparr>user_columns := user_columns p @ [(SQLITE_VEC0_USER_COLUMN_KIND_AUXILIARY, n)],
                                auxiliary_columns := auxiliary_columns p @ [column]\<rparr>\<rparr>))"

definition init_metadata_column ::
  "faults \<Rightarrow> nat \<Rightarrow> string \<times> vec0_metadata_column_kind \<Rightarrow> init_locals \<Rightarrow> init_locals result"
where
  "init_metadata_column F i column s =
    (let p = il_table s; n = length (metadata_columns p)
     in if n \<ge> VEC0_MAX_METADATA_COLUMNS then Inl SQLITE_ERROR
        else if F ''column name'' i \<noteq> None then Inl SQLITE_ERROR
        else Inr (s\<lparr>il_table := p\<lparr>user_columns := user_columns p @ [(SQLITE_VEC0_USER_COLUMN_KIND_METADATA, n)],
                                metadata_columns := metadata_columns p @ [column]\<rparr>\<rparr>))"

definition init_table_option ::
  "(string \<Rightarrow> string \<Rightarrow> nat \<Rightarrow> bool) \<Rightarrow> string \<times> string \<Rightarrow> init_locals \<Rightarrow> init_locals result"
where
  "init_table_option nicmp option s =
    (let (key, val) = option
     in if nicmp key ''chunk_size'' (length key)
        then let chunk_size = atoi val
             in if chunk_size \<le> 0 then Inl SQLITE_ERROR
                else if chunk_size mod 8 \<noteq> 0 then Inl SQLITE_ERROR
                else if chunk_size > SQLITE_VEC_CHUNK_SIZE_MAX then Inl SQLITE_ERROR
                else Inr (s\<lparr>il_chunk_size := chunk_size\<rparr>)
        else Inl SQLITE_ERROR)"

text \<open>
  One argument: the parsers are tried in this order. An error of the vector column and table option
  parsers ends the loop, any other failure passes the argument on to the next parser. \<open>junk k\<close> is the
  uninitialised token of parser \<open>k\<close>.
\<close>

definition init_argument ::
  "(string \<Rightarrow> string \<Rightarrow> nat \<Rightarrow> bool) \<Rightarrow> faults \<Rightarrow> (nat \<Rightarrow> Vec0Token) \<Rightarrow> nat \<times> string \<Rightarrow> init_locals \<Rightarrow> init_locals result"
where
  "init_argument nicmp F junk argument s =
    (let (i, arg) = argument
     in case vec0_parse_vector_column nicmp (F ''column name'' i = None) (junk 0) arg of
          Inr vecColumn \<Rightarrow> init_vector_column vecColumn s
        | Inl rc \<Rightarrow>
     if rc = SQLITE_ERROR then Inl SQLITE_ERROR
     else case vec0_parse_partition_key_definition nicmp (junk 1) arg of
          Inr column \<Rightarrow> init_partition_column F i column s
        | Inl _ \<Rightarrow>
     case vec0_parse_primary_key_definition nicmp (junk 2) arg of
          Inr column \<Rightarrow> init_primary_key column s
        | Inl _ \<Rightarrow>
     case vec0_parse_auxiliary_column_definition nicmp (junk 3) arg of
          Inr column \<Rightarrow> init_auxiliary_column F i column s
        | Inl _ \<Rightarrow>
     case vec0_parse_metadata_column_definition nicmp (junk 4) arg of
          Inr column \<Rightarrow> init_metadata_column F i column s
        | Inl _ \<Rightarrow>
     case vec0_parse_table_option (junk 5) arg of
          Inr option \<Rightarrow> init_table_option nicmp option s
        | Inl _ \<Rightarrow> Inl SQLITE_ERROR)"

section \<open>Checking the table\<close>

text \<open>Indexed vector columns exclude metadata and partition columns.\<close>

definition has_index :: "Vec0IndexType \<Rightarrow> vec0_vtab \<Rightarrow> bool" where
  "has_index t p \<longleftrightarrow> (\<exists>c \<in> set (vector_columns p). vc_index_type c = t)"

definition init_checks :: "vec0_vtab \<Rightarrow> bool" where
  "init_checks p \<longleftrightarrow>
     vector_columns p \<noteq> [] \<and>
     (\<forall>t \<in> {VEC0_INDEX_TYPE_RESCORE, VEC0_INDEX_TYPE_IVF, VEC0_INDEX_TYPE_DISKANN}. has_index t p \<longrightarrow>
        metadata_columns p = [] \<and> partition_columns p = [])"

text \<open>No column of a new table has the name of the table, which the hidden command column takes.\<close>

definition column_names :: "vec0_vtab \<Rightarrow> string list" where
  "column_names p = map vc_name (vector_columns p) @ map fst (partition_columns p) @
     map fst (auxiliary_columns p) @ map fst (metadata_columns p)"

definition names_conflict :: "(string \<Rightarrow> string \<Rightarrow> nat \<Rightarrow> bool) \<Rightarrow> string \<Rightarrow> vec0_vtab \<Rightarrow> bool" where
  "names_conflict nicmp tblName p \<longleftrightarrow>
     (\<exists>name \<in> set (column_names p). length name = length tblName \<and> nicmp name tblName (length tblName))"

section \<open>The declaration\<close>

text \<open>\<open>"%w"\<close> of SQLite's printf: the double quotes of a name are doubled.\<close>

definition quoted :: "string \<Rightarrow> string" where
  "quoted s = [CHR 0x22] @ concat (map (\<lambda>c. if c = CHR 0x22 then [c, c] else [c]) s) @ [CHR 0x22]"

fun user_column_name :: "vec0_vtab \<Rightarrow> vec0_user_column_kind \<times> nat \<Rightarrow> string" where
  "user_column_name p (SQLITE_VEC0_USER_COLUMN_KIND_VECTOR, i) = vc_name (vector_columns p ! i)"
| "user_column_name p (SQLITE_VEC0_USER_COLUMN_KIND_PARTITION, i) = fst (partition_columns p ! i)"
| "user_column_name p (SQLITE_VEC0_USER_COLUMN_KIND_AUXILIARY, i) = fst (auxiliary_columns p ! i)"
| "user_column_name p (SQLITE_VEC0_USER_COLUMN_KIND_METADATA, i) = fst (metadata_columns p ! i)"

definition declared_table :: "vec0_vtab \<Rightarrow> (string \<times> sqlite_type) option \<Rightarrow> string \<Rightarrow> string" where
  "declared_table p pk tblName =
     ''CREATE TABLE x('' @
     (case pk of Some (name, _) \<Rightarrow> quoted name @ '' primary key, '' | None \<Rightarrow> ''rowid, '') @
     concat (map (\<lambda>c. quoted (user_column_name p c) @ '', '') (user_columns p)) @
     (if hasCommandColumn p then '' '' @ quoted tblName @ '' hidden, distance hidden, k hidden) ''
      else '' distance hidden, k hidden) '') @
     (if pk = None then [] else ''without rowid '')"

section \<open>The shadow tables\<close>

text \<open>
  The tables of the database, with the value of the row \<open>CREATE_VERSION_PATCH\<close> where the table is an
  \<open>_info\<close> table that has it. SQLite does not distinguish the case of table names.
\<close>

type_synonym schema = "(string \<times> int option) list"

definition same_name :: "string \<Rightarrow> string \<Rightarrow> bool" where
  "same_name a b \<longleftrightarrow> map ascii_lower a = map ascii_lower b"

definition has_table :: "schema \<Rightarrow> string \<Rightarrow> bool" where
  "has_table d name \<longleftrightarrow> (\<exists>(name', _) \<in> set d. same_name name' name)"

definition shadow_name :: "string \<Rightarrow> string \<Rightarrow> string" where
  "shadow_name tblName suffix = tblName @ ''_'' @ suffix"

definition create_table :: "faults \<Rightarrow> string \<Rightarrow> string \<Rightarrow> schema \<Rightarrow> schema result" where
  "create_table F tblName suffix d =
     attempt F (''create '' @ suffix) 0
       (let name = shadow_name tblName suffix
        in if has_table d name then Inl SQLITE_ERROR else Inr (d @ [(name, None)]))"

definition two_digits :: "nat \<Rightarrow> string" where
  "two_digits i = (if i < 10 then ''0'' @ decimal i else decimal i)"

text \<open>The tables of one vector column: flat, rescore, DiskANN.\<close>

definition flat_tables :: "nat \<Rightarrow> VectorColumnDefinition \<Rightarrow> string list" where
  "flat_tables i c = (if vc_index_type c = VEC0_INDEX_TYPE_FLAT then [''vector_chunks'' @ two_digits i] else [])"

definition rescore_tables :: "nat \<Rightarrow> VectorColumnDefinition \<Rightarrow> string list" where
  "rescore_tables i c =
     (if vc_index_type c = VEC0_INDEX_TYPE_RESCORE
      then [''rescore_chunks'' @ two_digits i, ''rescore_vectors'' @ two_digits i] else [])"

definition diskann_tables :: "nat \<Rightarrow> VectorColumnDefinition \<Rightarrow> string list" where
  "diskann_tables i c =
     (if vc_index_type c = VEC0_INDEX_TYPE_DISKANN
      then [''vectors'' @ two_digits i, ''diskann_nodes'' @ two_digits i, ''diskann_buffer'' @ two_digits i] else [])"

definition metadata_tables :: "nat \<Rightarrow> string \<times> vec0_metadata_column_kind \<Rightarrow> string list" where
  "metadata_tables i c =
     (''metadatachunks'' @ two_digits i) #
     (if snd c = VEC0_METADATA_COLUMN_KIND_TEXT then [''metadatatext'' @ two_digits i] else [])"

definition auxiliary_table :: "vec0_vtab \<Rightarrow> string list" where
  "auxiliary_table p = (if auxiliary_columns p \<noteq> [] then [''auxiliary''] else [])"

definition per_column :: "(nat \<Rightarrow> 'c \<Rightarrow> string list) \<Rightarrow> 'c list \<Rightarrow> string list" where
  "per_column tables columns = concat (map (\<lambda>(i, c). tables i c) (enumerate 0 columns))"

definition SQLITE_VEC_VERSION_PATCH :: int where
  "SQLITE_VEC_VERSION_PATCH = 10"

definition rescore_create_tables :: "faults \<Rightarrow> vec0_vtab \<Rightarrow> string \<Rightarrow> schema \<Rightarrow> schema result" where
  "rescore_create_tables F p tblName =
     fold_result (create_table F tblName) (per_column rescore_tables (vector_columns p))"

text \<open>
  The creation of all tables. The \<open>_info\<close> table gets its version rows, and a row without a value for
  the entry point of every DiskANN index, when there is no other table yet.
\<close>

definition seed_info :: "string \<Rightarrow> schema \<Rightarrow> schema" where
  "seed_info tblName = map (\<lambda>(name, patch).
     if name = shadow_name tblName ''info'' then (name, Some SQLITE_VEC_VERSION_PATCH) else (name, patch))"

definition create_shadow_tables :: "faults \<Rightarrow> vec0_vtab \<Rightarrow> string \<Rightarrow> schema \<Rightarrow> schema result" where
  "create_shadow_tables F p tblName d =
    rbind (create_table F tblName ''info'' d) (\<lambda>d.
    attempt F ''seed info'' 0
      (if \<exists>i < length (vector_columns p). vc_index_type (vector_columns p ! i) = VEC0_INDEX_TYPE_DISKANN \<and>
            F ''seed medoid'' i \<noteq> None
       then Inl SQLITE_ERROR
       else
         rbind (fold_result (create_table F tblName) [''chunks'', ''rowids''] (seed_info tblName d)) (\<lambda>d.
         rbind (fold_result (create_table F tblName) (per_column flat_tables (vector_columns p)) d) (\<lambda>d.
         rbind (rescore_create_tables F p tblName d) (\<lambda>d.
         rbind (fold_result (create_table F tblName) (per_column diskann_tables (vector_columns p)) d) (\<lambda>d.
         rbind (fold_result (create_table F tblName) (per_column metadata_tables (metadata_columns p)) d) (\<lambda>d.
         fold_result (create_table F tblName) (auxiliary_table p) d)))))))"

section \<open>\<open>vec0_init\<close>\<close>

definition no_columns :: vec0_vtab where
  "no_columns = \<lparr>pkIsText = False, hasCommandColumn = False, user_columns = [], vector_columns = [],
     partition_columns = [], auxiliary_columns = [], metadata_columns = [], chunk_size = 0\<rparr>"

text \<open>\<open>CREATE_VERSION_PATCH\<close> of an existing table, if it has an \<open>_info\<close> table with that row.\<close>

definition create_version_patch :: "schema \<Rightarrow> string \<Rightarrow> int option" where
  "create_version_patch d tblName =
     (case filter (\<lambda>(name, _). same_name name (shadow_name tblName ''info'')) d of
        (_, patch) # _ \<Rightarrow> patch | [] \<Rightarrow> None)"

text \<open>
  \<open>args\<close> are the arguments from \<open>argv[3]\<close> on. \<open>declare\<close> is \<open>sqlite3_declare_vtab\<close>: whether SQLite
  accepts the declaration. Every error ends in \<open>SQLITE_ERROR\<close>, except that of the first allocation.
\<close>

definition vec0_init ::
  "(string \<Rightarrow> string \<Rightarrow> nat \<Rightarrow> bool) \<Rightarrow> (string \<Rightarrow> bool) \<Rightarrow> faults \<Rightarrow> (nat \<Rightarrow> Vec0Token) \<Rightarrow> bool \<Rightarrow> string \<Rightarrow>
   string list \<Rightarrow> schema \<Rightarrow> (vec0_vtab \<times> schema) result"
where
  "vec0_init nicmp declare F junk isCreate tblName args d =
     attempt F ''malloc table'' 0
      (rbind (fold_result (init_argument nicmp F junk) (enumerate 0 args)
                \<lparr>il_table = no_columns, il_pk = None, il_chunk_size = -1\<rparr>) (\<lambda>s.
         let size = (if il_chunk_size s < 0 then 1024 else il_chunk_size s); p = il_table s
         in if \<not> init_checks p then Inl SQLITE_ERROR
            else if isCreate \<and> names_conflict nicmp tblName p then Inl SQLITE_ERROR
            else let hasCommand = (if isCreate then True
                       else F ''read info'' 0 = None \<and>
                         (case create_version_patch d tblName of Some patch \<Rightarrow> patch \<ge> 10 | None \<Rightarrow> False));
                     p = p\<lparr>hasCommandColumn := hasCommand\<rparr>
            in if \<not> declare (declared_table p (il_pk s) tblName) then Inl SQLITE_ERROR
               else let p = p\<lparr>pkIsText := (case il_pk s of Some (_, t) \<Rightarrow> t = SQLITE_TEXT | None \<Rightarrow> False),
                              chunk_size := nat size\<rparr>
               in if F ''table names'' 0 \<noteq> None then Inl SQLITE_ERROR
                  else if \<not> isCreate then Inr (p, d)
                  else (case create_shadow_tables F p tblName d of
                          Inl _ \<Rightarrow> Inl SQLITE_ERROR
                        | Inr d \<Rightarrow> Inr (p, d))))"

section \<open>Dropping and renaming\<close>

text \<open>\<open>DROP TABLE\<close>, and \<open>DROP TABLE IF EXISTS\<close>, which is satisfied without the table.\<close>

definition drop_table_if_exists :: "faults \<Rightarrow> string \<Rightarrow> string \<Rightarrow> schema \<Rightarrow> schema result" where
  "drop_table_if_exists F tblName suffix d =
     (if F (''drop '' @ suffix) 0 \<noteq> None then Inl SQLITE_ERROR
      else Inr (filter (\<lambda>(name, _). \<not> same_name name (shadow_name tblName suffix)) d))"

definition drop_table :: "faults \<Rightarrow> string \<Rightarrow> string \<Rightarrow> schema \<Rightarrow> schema result" where
  "drop_table F tblName suffix d =
     (if has_table d (shadow_name tblName suffix) then drop_table_if_exists F tblName suffix d else Inl SQLITE_ERROR)"

text \<open>The tables of one vector column in the loop of \<open>vec0Destroy\<close>.\<close>

definition drop_vector_tables :: "faults \<Rightarrow> string \<Rightarrow> nat \<times> VectorColumnDefinition \<Rightarrow> schema \<Rightarrow> schema result" where
  "drop_vector_tables F tblName column d =
    (let (i, c) = column
     in if vc_index_type c = VEC0_INDEX_TYPE_DISKANN
        then fold_result (drop_table_if_exists F tblName) (diskann_tables i c) d
        else if vc_index_type c \<noteq> VEC0_INDEX_TYPE_FLAT then Inr d
        else fold_result (drop_table F tblName) (flat_tables i c) d)"

definition rescore_drop_tables :: "faults \<Rightarrow> vec0_vtab \<Rightarrow> string \<Rightarrow> schema \<Rightarrow> schema result" where
  "rescore_drop_tables F p tblName =
     fold_result (drop_table_if_exists F tblName) (per_column rescore_tables (vector_columns p))"

definition vec0Destroy :: "faults \<Rightarrow> vec0_vtab \<Rightarrow> string \<Rightarrow> schema \<Rightarrow> schema result" where
  "vec0Destroy F p tblName d =
    rbind (fold_result (drop_table F tblName) [''chunks'', ''info'', ''rowids''] d) (\<lambda>d.
    rbind (fold_result (drop_vector_tables F tblName) (enumerate 0 (vector_columns p)) d) (\<lambda>d.
    rbind (rescore_drop_tables F p tblName d) (\<lambda>d.
    rbind (fold_result (drop_table F tblName) (auxiliary_table p) d) (\<lambda>d.
    fold_result (drop_table F tblName) (per_column metadata_tables (metadata_columns p)) d))))"

text \<open>\<open>ALTER TABLE ... RENAME TO\<close>: the old table must exist and the new name be free.\<close>

definition rename_table :: "faults \<Rightarrow> string \<Rightarrow> string \<Rightarrow> string \<Rightarrow> schema \<Rightarrow> schema result" where
  "rename_table F tblName zNew suffix d =
     attempt F (''rename '' @ suffix) 0
       (if \<not> has_table d (shadow_name tblName suffix) then Inl SQLITE_ERROR
        else if has_table d (shadow_name zNew suffix) then Inl SQLITE_ERROR
        else Inr (map (\<lambda>(name, patch). if same_name name (shadow_name tblName suffix)
                                       then (shadow_name zNew suffix, patch) else (name, patch)) d))"

definition vector_column_tables :: "nat \<Rightarrow> VectorColumnDefinition \<Rightarrow> string list" where
  "vector_column_tables i c = flat_tables i c @ rescore_tables i c @ diskann_tables i c"

definition vec0Rename :: "faults \<Rightarrow> vec0_vtab \<Rightarrow> string \<Rightarrow> string \<Rightarrow> schema \<Rightarrow> schema result" where
  "vec0Rename F p tblName zNew d =
     attempt F ''rename names'' 0
       (fold_result (rename_table F tblName zNew)
          ([''info'', ''rowids'', ''chunks''] @ auxiliary_table p @
           per_column vector_column_tables (vector_columns p) @
           per_column metadata_tables (metadata_columns p)) d)"

end
