(* ===== verification/InitFacts.thy ===== *)
theory InitFacts
  imports Init NodeFacts
begin

text \<open>
  What \<open>vec0_init\<close> accepts, and the life of the shadow tables: a table that was created can be
  connected to, renamed and destroyed, and a destroyed table leaves none of its tables behind.
\<close>

section \<open>Accepted tables\<close>

definition column_ok :: "VectorColumnDefinition \<Rightarrow> bool" where
  "column_ok c \<longleftrightarrow> 0 < vc_dimensions c \<and> vc_dimensions c \<le> 8192 \<and>
     vc_index_type c \<noteq> VEC0_INDEX_TYPE_IVF \<and>
     (vc_element_type c = SQLITE_VEC_ELEMENT_TYPE_BIT \<longrightarrow> vc_distance_metric c = VEC0_DISTANCE_METRIC_L2) \<and>
     (vc_index_type c = VEC0_INDEX_TYPE_RESCORE \<longrightarrow> rescore_ok (vc_element_type c) (vc_dimensions c) (vc_rescore c)) \<and>
     (vc_index_type c = VEC0_INDEX_TYPE_DISKANN \<longrightarrow>
        diskann_ok (vc_diskann c) \<and> dcol_ok c \<and> vc_element_type c \<noteq> SQLITE_VEC_ELEMENT_TYPE_BIT)"

definition columns_numbered :: "vec0_vtab \<Rightarrow> bool" where
  "columns_numbered p \<longleftrightarrow> length (user_columns p) = vec0_num_defined_user_columns p \<and> distinct (user_columns p) \<and>
     (\<forall>(kind, i) \<in> set (user_columns p). i < kind_count p kind)"

definition within_limits :: "vec0_vtab \<Rightarrow> bool" where
  "within_limits p \<longleftrightarrow> length (vector_columns p) \<le> VEC0_MAX_VECTOR_COLUMNS \<and>
     length (partition_columns p) \<le> VEC0_MAX_PARTITION_COLUMNS \<and>
     length (auxiliary_columns p) \<le> VEC0_MAX_AUXILIARY_COLUMNS \<and>
     length (metadata_columns p) \<le> VEC0_MAX_METADATA_COLUMNS"

definition locals_ok :: "init_locals \<Rightarrow> bool" where
  "locals_ok s \<longleftrightarrow> columns_numbered (il_table s) \<and> within_limits (il_table s) \<and>
     (\<forall>c \<in> set (vector_columns (il_table s)). column_ok c) \<and>
     (il_chunk_size s = -1 \<or> 0 < il_chunk_size s \<and> 8 dvd il_chunk_size s \<and> il_chunk_size s \<le> 4096)"

lemma diskann_column_ok:
  assumes "diskann_ok (vc_diskann c)" and "0 < vc_dimensions c"
    and "dk_quantizer_type (vc_diskann c) = VEC0_DISKANN_QUANTIZER_BINARY \<Longrightarrow> vc_dimensions c mod 8 = 0"
  shows "dcol_ok c"
proof -
  have "8 dvd nat n" if "8 dvd n" for n :: int using that by (auto simp: nat_mult_distrib elim!: dvdE)
  then have "8 dvd nat (dk_n_neighbors (vc_diskann c))" "0 < dk_n_neighbors (vc_diskann c)"
    using assms(1) by (auto simp: diskann_ok_def diskann_limits_def)
  moreover have "0 < diskann_quantized_vector_byte_size (dk_quantizer_type (vc_diskann c)) (vc_dimensions c)"
    using assms by (cases "dk_quantizer_type (vc_diskann c)")
      (auto simp: diskann_ok_def dest: dvd_imp_le [of 8] intro!: div_greater_zero_iff [THEN iffD2])
  ultimately show ?thesis by (simp add: dcol_ok_def)
qed

text \<open>A new column gets the next number of its kind.\<close>

lemma numbered_append:
  assumes "columns_numbered p" and "user_columns p' = user_columns p @ [(kind, kind_count p kind)]"
    and "vec0_num_defined_user_columns p' = Suc (vec0_num_defined_user_columns p)"
    and "\<And>k. kind_count p' k = kind_count p k + (if k = kind then 1 else 0)"
  shows "columns_numbered p'"
proof -
  have "i < kind_count p' k" if "(k, i) \<in> set (user_columns p')" for k i
    using that assms(1,2) assms(4) [of k] by (fastforce simp: columns_numbered_def)
  moreover have "distinct (user_columns p')"
    using assms(1,2) by (fastforce simp: columns_numbered_def)
  ultimately show ?thesis using assms(1-3) by (auto simp: columns_numbered_def)
qed

lemma numbered_columns:
  assumes "columns_numbered p"
  shows "columns_numbered (p\<lparr>user_columns := user_columns p @ [(SQLITE_VEC0_USER_COLUMN_KIND_VECTOR, length (vector_columns p))],
      vector_columns := vector_columns p @ [vc]\<rparr>)"
    and "columns_numbered (p\<lparr>user_columns := user_columns p @ [(SQLITE_VEC0_USER_COLUMN_KIND_PARTITION, length (partition_columns p))],
      partition_columns := partition_columns p @ [pc]\<rparr>)"
    and "columns_numbered (p\<lparr>user_columns := user_columns p @ [(SQLITE_VEC0_USER_COLUMN_KIND_AUXILIARY, length (auxiliary_columns p))],
      auxiliary_columns := auxiliary_columns p @ [ac]\<rparr>)"
    and "columns_numbered (p\<lparr>user_columns := user_columns p @ [(SQLITE_VEC0_USER_COLUMN_KIND_METADATA, length (metadata_columns p))],
      metadata_columns := metadata_columns p @ [mc]\<rparr>)"
  by (rule numbered_append [OF assms, where kind = SQLITE_VEC0_USER_COLUMN_KIND_VECTOR]
      numbered_append [OF assms, where kind = SQLITE_VEC0_USER_COLUMN_KIND_PARTITION]
      numbered_append [OF assms, where kind = SQLITE_VEC0_USER_COLUMN_KIND_AUXILIARY]
      numbered_append [OF assms, where kind = SQLITE_VEC0_USER_COLUMN_KIND_METADATA];
    simp add: kind_count_def vec0_num_defined_user_columns_def split: vec0_user_column_kind.split)+

lemma init_vector_column_ok:
  assumes "vec0_parse_vector_column nicmp mem junk arg = Inr c" and "init_vector_column c s = Inr s'" and "locals_ok s"
  shows "locals_ok s'"
proof -
  note parsed = parse_vector_column_ok [OF assms(1)]
  note run = assms(2) [unfolded init_vector_column_def Let_def]
  have ok: "length (vector_columns (il_table s)) < 16" "vc_dimensions c \<le> 8192"
    "vc_index_type c = VEC0_INDEX_TYPE_DISKANN \<Longrightarrow> vc_element_type c \<noteq> SQLITE_VEC_ELEMENT_TYPE_BIT"
    "vc_index_type c = VEC0_INDEX_TYPE_DISKANN \<Longrightarrow>
       dk_quantizer_type (vc_diskann c) = VEC0_DISKANN_QUANTIZER_BINARY \<Longrightarrow> vc_dimensions c mod 8 = 0"
    using run by (simp_all add: vec0_limits split: if_split_asm)
  have "dcol_ok c" if "vc_index_type c = VEC0_INDEX_TYPE_DISKANN"
    by (rule diskann_column_ok) (use parsed ok that in simp_all)
  then have c: "column_ok c" unfolding column_ok_def using parsed ok(2,3) by simp
  have s': "s' = s\<lparr>il_table := il_table s\<lparr>user_columns := user_columns (il_table s) @
      [(SQLITE_VEC0_USER_COLUMN_KIND_VECTOR, length (vector_columns (il_table s)))],
      vector_columns := vector_columns (il_table s) @ [c]\<rparr>\<rparr>"
    using run by (simp split: if_split_asm)
  show ?thesis
    using assms(3) ok(1) c numbered_columns(1) [of "il_table s" c]
    by (simp add: s' locals_ok_def within_limits_def vec0_limits)
qed

lemma init_argument_ok:
  assumes "init_argument nicmp F junk argument s = Inr s'" and "locals_ok s"
  shows "locals_ok s'"
proof -
  obtain i arg where a: "argument = (i, arg)" by (cases argument)
  consider (vec) c where "vec0_parse_vector_column nicmp (F ''column name'' i = None) (junk 0) arg = Inr c"
      "init_vector_column c s = Inr s'"
    | (part) c where "init_partition_column F i c s = Inr s'" | (pk) c where "init_primary_key c s = Inr s'"
    | (aux) c where "init_auxiliary_column F i c s = Inr s'" | (meta) c where "init_metadata_column F i c s = Inr s'"
    | (opt) kv where "init_table_option nicmp kv s = Inr s'"
    using assms(1) unfolding init_argument_def a by (auto split: sum.splits if_splits)
  then show ?thesis
  proof cases
    case vec
    then show ?thesis using assms(2) by (rule init_vector_column_ok)
  next
    case part
    then show ?thesis using assms(2) numbered_columns(2) [of "il_table s" c]
      by (auto simp: init_partition_column_def Let_def locals_ok_def within_limits_def vec0_limits split: if_splits)
  next
    case pk
    then show ?thesis using assms(2) by (auto simp: init_primary_key_def locals_ok_def split: if_splits)
  next
    case aux
    then show ?thesis using assms(2) numbered_columns(3) [of "il_table s" c]
      by (auto simp: init_auxiliary_column_def Let_def locals_ok_def within_limits_def vec0_limits split: if_splits)
  next
    case meta
    then show ?thesis using assms(2) numbered_columns(4) [of "il_table s" c]
      by (auto simp: init_metadata_column_def Let_def locals_ok_def within_limits_def vec0_limits split: if_splits)
  next
    case opt
    note run = opt [unfolded init_table_option_def Let_def case_prod_beta]
    have size: "0 < atoi (snd kv)" "atoi (snd kv) mod 8 = 0" "atoi (snd kv) \<le> 4096"
      and s': "s' = s\<lparr>il_chunk_size := atoi (snd kv)\<rparr>"
      using run by (simp_all add: SQLITE_VEC_CHUNK_SIZE_MAX_def split: if_split_asm)
    then show ?thesis using assms(2) by (simp add: locals_ok_def dvd_eq_mod_eq_0)
  qed
qed

lemma init_arguments_ok:
  assumes "fold_result (init_argument nicmp F junk) args
    \<lparr>il_table = no_columns, il_pk = None, il_chunk_size = -1\<rparr> = Inr s"
  shows "locals_ok s"
proof (rule fold_result_inv [OF assms])
  show "locals_ok \<lparr>il_table = no_columns, il_pk = None, il_chunk_size = -1\<rparr>"
    by (simp add: locals_ok_def columns_numbered_def within_limits_def vec0_num_defined_user_columns_def no_columns_def)
qed (rule init_argument_ok)

lemma init_runs:
  assumes "vec0_init nicmp declare F junk isCreate tblName args d = Inr (p, d')"
  obtains s where "locals_ok s" and "init_checks (il_table s)"
    and "isCreate \<Longrightarrow> \<not> names_conflict nicmp tblName (il_table s)"
    and "p = il_table s\<lparr>hasCommandColumn := hasCommandColumn p, pkIsText := pkIsText p,
      chunk_size := nat (if il_chunk_size s < 0 then 1024 else il_chunk_size s)\<rparr>"
    and "if isCreate then hasCommandColumn p \<and> create_shadow_tables F p tblName d = Inr d' else d' = d"
proof -
  obtain s where s: "fold_result (init_argument nicmp F junk) (enumerate 0 args)
      \<lparr>il_table = no_columns, il_pk = None, il_chunk_size = -1\<rparr> = Inr s"
    using assms by (auto simp: vec0_init_def rbind_Inr)
  show thesis
    by (rule that [of s, OF init_arguments_ok [OF s]])
      (use assms s in \<open>auto simp: vec0_init_def rbind_Inr Let_def split: if_splits sum.splits\<close>)
qed

section \<open>Creating and dropping tables\<close>

lemma same_name_simps [simp]: "same_name a a" "same_name a b \<Longrightarrow> same_name b a"
  by (simp_all add: same_name_def)

lemma same_name_trans: "same_name a b \<Longrightarrow> same_name b c \<Longrightarrow> same_name a c"
  by (simp add: same_name_def)

text \<open>The tables that a list of suffixes names.\<close>

abbreviation named :: "string \<Rightarrow> string list \<Rightarrow> string \<Rightarrow> bool" where
  "named tblName suffixes name \<equiv> \<exists>s \<in> set suffixes. same_name name (shadow_name tblName s)"

lemma create_table_Inr: "create_table F tblName s d = Inr d' \<Longrightarrow>
    \<not> has_table d (shadow_name tblName s) \<and> d' = d @ [(shadow_name tblName s, None)]"
  by (auto simp: create_table_def Let_def split: if_splits)

lemma create_tables_run:
  assumes "fold_result (create_table F tblName) suffixes d = Inr d'"
  shows "d' = d @ map (\<lambda>s. (shadow_name tblName s, None)) suffixes \<and>
    (\<forall>(name, _) \<in> set d. \<not> named tblName suffixes name) \<and>
    distinct (map (\<lambda>s. map ascii_lower (shadow_name tblName s)) suffixes)"
  using assms
proof (induction suffixes arbitrary: d)
  case (Cons s suffixes)
  then have s: "\<not> has_table d (shadow_name tblName s)"
    and rest: "fold_result (create_table F tblName) suffixes (d @ [(shadow_name tblName s, None)]) = Inr d'"
    by (auto simp: rbind_Inr dest!: create_table_Inr)
  from Cons.IH [OF rest] s show ?case
    by (auto simp: has_table_def same_name_def image_iff)
qed simp

lemma drop_tables_run:
  assumes "\<forall>s \<in> set suffixes. has_table d (shadow_name tblName s)"
    and "distinct (map (\<lambda>s. map ascii_lower (shadow_name tblName s)) suffixes)"
  shows "fold_result (drop_table no_faults tblName) suffixes d = Inr (filter (\<lambda>(name, _). \<not> named tblName suffixes name) d)"
  using assms
proof (induction suffixes arbitrary: d)
  case (Cons s suffixes)
  let ?d = "filter (\<lambda>(name, _). \<not> same_name name (shadow_name tblName s)) d"
  have "\<forall>s' \<in> set suffixes. has_table ?d (shadow_name tblName s')"
    using Cons.prems by (fastforce simp: has_table_def same_name_def image_iff)
  with Cons.IH [of ?d] Cons.prems show ?case
    by (simp add: drop_table_def drop_table_if_exists_def no_faults_def case_prod_unfold conj_commute cong: filter_cong)
qed (simp add: case_prod_unfold)

lemma drop_if_exists_run:
  "fold_result (drop_table_if_exists no_faults tblName) suffixes d
   = Inr (filter (\<lambda>(name, _). \<not> named tblName suffixes name) d)"
  by (induction suffixes arbitrary: d)
    (simp_all add: drop_table_if_exists_def no_faults_def case_prod_unfold conj_commute)

section \<open>The tables a vec0 table owns\<close>

definition created_tables :: "vec0_vtab \<Rightarrow> string list" where
  "created_tables p = [''info'', ''chunks'', ''rowids''] @ per_column flat_tables (vector_columns p) @
     per_column rescore_tables (vector_columns p) @ per_column diskann_tables (vector_columns p) @
     per_column metadata_tables (metadata_columns p) @ auxiliary_table p"

text \<open>The names as SQLite compares them.\<close>

abbreviation table_key :: "string \<Rightarrow> string \<Rightarrow> nat list" where
  "table_key tblName suffix \<equiv> map ascii_lower (shadow_name tblName suffix)"

definition version_row :: "string \<Rightarrow> int option" where
  "version_row suffix = (if suffix = ''info'' then Some SQLITE_VEC_VERSION_PATCH else None)"

text \<open>The database with the tables of a vec0 table after all the others.\<close>

definition owns :: "string \<Rightarrow> vec0_vtab \<Rightarrow> schema \<Rightarrow> schema \<Rightarrow> bool" where
  "owns tblName p d d' \<longleftrightarrow>
     d' = d @ map (\<lambda>s. (shadow_name tblName s, version_row s)) (created_tables p) \<and>
     (\<forall>(name, _) \<in> set d. \<not> named tblName (created_tables p) name) \<and>
     distinct (map (table_key tblName) (created_tables p))"

lemma seed_info_run:
  assumes "\<not> has_table d (shadow_name tblName ''info'')"
  shows "seed_info tblName (d @ [(shadow_name tblName ''info'', None)])
    = d @ [(shadow_name tblName ''info'', Some SQLITE_VEC_VERSION_PATCH)]"
proof -
  have "seed_info tblName d = d"
    unfolding seed_info_def by (rule map_idI) (use assms in \<open>fastforce simp: has_table_def\<close>)
  then show ?thesis by (simp add: seed_info_def)
qed

lemma create_owns:
  assumes "create_shadow_tables F p tblName d = Inr d'"
  shows "owns tblName p d d'"
proof -
  let ?rest = "tl (created_tables p)"
  let ?fold = "fold_result (create_table F tblName)"
  obtain d1 d2 d3 d4 d5 d6 where d1: "create_table F tblName ''info'' d = Inr d1"
    and steps: "?fold [''chunks'', ''rowids''] (seed_info tblName d1) = Inr d2"
      "?fold (per_column flat_tables (vector_columns p)) d2 = Inr d3"
      "?fold (per_column rescore_tables (vector_columns p)) d3 = Inr d4"
      "?fold (per_column diskann_tables (vector_columns p)) d4 = Inr d5"
      "?fold (per_column metadata_tables (metadata_columns p)) d5 = Inr d6"
      "?fold (auxiliary_table p) d6 = Inr d'"
    using assms
    by (auto simp: create_shadow_tables_def rescore_create_tables_def rbind_Inr simp del: fold_result.simps split: if_splits)
  have "?rest = [''chunks'', ''rowids''] @ per_column flat_tables (vector_columns p) @
     per_column rescore_tables (vector_columns p) @ per_column diskann_tables (vector_columns p) @
     per_column metadata_tables (metadata_columns p) @ auxiliary_table p"
    by (simp add: created_tables_def)
  then have d': "?fold ?rest (seed_info tblName d1) = Inr d'"
    by (simp only: fold_result_append steps rbind_simps)
  note info = create_table_Inr [OF d1]
  have d2: "seed_info tblName d1 = d @ [(shadow_name tblName ''info'', Some SQLITE_VEC_VERSION_PATCH)]"
    using info seed_info_run by simp
  note run = create_tables_run [OF d' [unfolded d2]]
  have c: "created_tables p = ''info'' # ?rest" by (simp add: created_tables_def)
  have "''info'' \<notin> set ?rest" using run by (auto simp: image_iff)
  then have "map (\<lambda>s. (shadow_name tblName s, version_row s)) ?rest = map (\<lambda>s. (shadow_name tblName s, None)) ?rest"
    by (auto simp: version_row_def)
  with run info show ?thesis
    by (subst owns_def) (subst (1 2 3) c, auto simp: version_row_def has_table_def same_name_def)
qed

section \<open>Destroying\<close>

abbreviation without :: "string \<Rightarrow> string list \<Rightarrow> schema \<Rightarrow> schema" where
  "without tblName suffixes d \<equiv> filter (\<lambda>(name, _). \<not> named tblName suffixes name) d"

lemma without_without: "without tblName Y (without tblName X d) = without tblName (X @ Y) d"
  by (auto simp: case_prod_unfold intro!: filter_cong)

lemma drop_more:
  assumes "\<forall>s \<in> set Y. has_table d (shadow_name tblName s)" and "distinct (map (table_key tblName) (X @ Y))"
  shows "fold_result (drop_table no_faults tblName) Y (without tblName X d) = Inr (without tblName (X @ Y) d)"
proof -
  have "has_table (without tblName X d) (shadow_name tblName s)" if "s \<in> set Y" for s
    using assms that by (fastforce simp: has_table_def same_name_def image_iff)
  then have "fold_result (drop_table no_faults tblName) Y (without tblName X d)
      = Inr (without tblName Y (without tblName X d))"
    using assms(2) by (intro drop_tables_run) auto
  then show ?thesis by (simp only: without_without)
qed

lemma drop_more_if_exists:
  "fold_result (drop_table_if_exists no_faults tblName) Y (without tblName X d) = Inr (without tblName (X @ Y) d)"
  by (simp only: drop_if_exists_run without_without)

definition vector_tables :: "nat \<times> VectorColumnDefinition \<Rightarrow> string list" where
  "vector_tables ic = flat_tables (fst ic) (snd ic) @ diskann_tables (fst ic) (snd ic)"

lemma drop_vector_tables_more:
  assumes "\<forall>s \<in> set (concat (map vector_tables cs)). has_table d (shadow_name tblName s)"
    and "distinct (map (table_key tblName) (X @ concat (map vector_tables cs)))"
  shows "fold_result (drop_vector_tables no_faults tblName) cs (without tblName X d)
    = Inr (without tblName (X @ concat (map vector_tables cs)) d)"
  using assms
proof (induction cs arbitrary: X)
  case (Cons ic cs)
  obtain i c where ic: "ic = (i, c)" by (cases ic)
  have "drop_vector_tables no_faults tblName ic (without tblName X d)
      = Inr (without tblName (X @ vector_tables ic) d)"
  proof (cases "vc_index_type c = VEC0_INDEX_TYPE_DISKANN")
    case True
    then show ?thesis
      using drop_more_if_exists [of tblName "diskann_tables i c" X d]
      by (simp add: ic drop_vector_tables_def vector_tables_def flat_tables_def)
  next
    case False
    then have v: "vector_tables ic = flat_tables i c" by (simp add: ic vector_tables_def diskann_tables_def)
    have "fold_result (drop_table no_faults tblName) (flat_tables i c) (without tblName X d)
        = Inr (without tblName (X @ flat_tables i c) d)"
      by (rule drop_more) (use Cons.prems v in auto)
    moreover have "drop_vector_tables no_faults tblName ic d' = fold_result (drop_table no_faults tblName) (flat_tables i c) d'" for d'
      using False by (simp add: ic drop_vector_tables_def flat_tables_def)
    ultimately show ?thesis by (simp only: v)
  qed
  moreover have "fold_result (drop_vector_tables no_faults tblName) cs (without tblName (X @ vector_tables ic) d)
      = Inr (without tblName ((X @ vector_tables ic) @ concat (map vector_tables cs)) d)"
    by (rule Cons.IH) (use Cons.prems in auto)
  ultimately show ?case by simp
qed simp

lemma mset_vector_tables:
  "mset (concat (map vector_tables (enumerate n cs)))
   = mset (concat (map (\<lambda>(i, c). flat_tables i c) (enumerate n cs)))
     + mset (concat (map (\<lambda>(i, c). diskann_tables i c) (enumerate n cs)))"
  by (induction cs arbitrary: n) (simp_all add: vector_tables_def ac_simps)

lemma destroy_owned:
  assumes "owns tblName p d d'"
  shows "vec0Destroy no_faults p tblName d' = Inr d"
proof -
  define core where "core = [''chunks'', ''info'', ''rowids'']"
  define vec where "vec = concat (map vector_tables (enumerate 0 (vector_columns p)))"
  define res where "res = per_column rescore_tables (vector_columns p)"
  define meta where "meta = per_column metadata_tables (metadata_columns p)"
  define aux where "aux = auxiliary_table p"
  let ?all = "(((core @ vec) @ res) @ aux) @ meta"
  have m: "mset ?all = mset (created_tables p)"
    by (simp add: created_tables_def mset_vector_tables per_column_def ac_simps core_def vec_def res_def meta_def aux_def)
  then have "mset (map (table_key tblName) ?all) = mset (map (table_key tblName) (created_tables p))"
    by (metis mset_map)
  then have dist: "distinct (map (table_key tblName) ?all)"
    using assms mset_eq_imp_distinct_iff by (metis owns_def)
  have all: "set ?all = set (created_tables p)" using m by (rule mset_eq_setD)
  have here: "has_table d' (shadow_name tblName s)" if "s \<in> set ?all" for s
  proof -
    have "(shadow_name tblName s, version_row s) \<in> set d'"
      using assms that unfolding all by (auto simp: owns_def)
    then show ?thesis using same_name_simps(1) unfolding has_table_def by blast
  qed
  have gone: "without tblName ?all d' = d"
  proof -
    have "without tblName (created_tables p) d = d"
      using assms by (auto simp: owns_def filter_id_conv)
    moreover have "without tblName (created_tables p) (map (\<lambda>s. (shadow_name tblName s, version_row s)) (created_tables p)) = []"
      by (auto simp: filter_empty_conv) (metis same_name_simps(1))
    ultimately show ?thesis using assms unfolding all by (simp add: owns_def)
  qed
  have "fold_result (drop_table no_faults tblName) core (without tblName [] d') = Inr (without tblName ([] @ core) d')"
    by (rule drop_more) (use here dist in auto)
  then have c: "fold_result (drop_table no_faults tblName) core d' = Inr (without tblName core d')"
    by (simp add: case_prod_unfold)
  have v: "fold_result (drop_vector_tables no_faults tblName) (enumerate 0 (vector_columns p)) (without tblName core d')
      = Inr (without tblName (core @ vec) d')"
    by (rule drop_vector_tables_more [of "enumerate 0 (vector_columns p)" d' tblName core, folded vec_def])
      (use here dist in auto)
  have a: "fold_result (drop_table no_faults tblName) aux (without tblName ((core @ vec) @ res) d')
      = Inr (without tblName (((core @ vec) @ res) @ aux) d')"
    by (rule drop_more) (use here dist in auto)
  have md: "fold_result (drop_table no_faults tblName) meta (without tblName (((core @ vec) @ res) @ aux) d')
      = Inr (without tblName ?all d')"
    by (rule drop_more) (use here dist in auto)
  show ?thesis
    by (simp only: vec0Destroy_def rescore_drop_tables_def core_def [symmetric] res_def [symmetric] aux_def [symmetric]
        meta_def [symmetric] c v a md rbind_simps drop_more_if_exists gone)
qed

section \<open>Renaming\<close>

text \<open>The tables of the list \<open>done\<close> have the new name already.\<close>

definition renamed_table :: "string \<Rightarrow> string \<Rightarrow> string set \<Rightarrow> string \<Rightarrow> string" where
  "renamed_table tblName zNew done s = shadow_name (if s \<in> done then zNew else tblName) s"

definition partly_renamed :: "string \<Rightarrow> string \<Rightarrow> vec0_vtab \<Rightarrow> schema \<Rightarrow> string set \<Rightarrow> schema \<Rightarrow> bool" where
  "partly_renamed tblName zNew p d done d' \<longleftrightarrow>
     d' = d @ map (\<lambda>s. (renamed_table tblName zNew done s, version_row s)) (created_tables p) \<and>
     (\<forall>(name, _) \<in> set d. \<forall>s \<in> set (created_tables p). \<not> same_name name (renamed_table tblName zNew done s)) \<and>
     distinct (map (\<lambda>s. map ascii_lower (renamed_table tblName zNew done s)) (created_tables p))"

lemma rename_step:
  assumes "partly_renamed tblName zNew p d done d1" and "rename_table F tblName zNew s d1 = Inr d2"
    and "s \<in> set (created_tables p)" and "s \<notin> done"
  shows "partly_renamed tblName zNew p d (insert s done) d2"
proof -
  let ?C = "created_tables p"
  let ?old = "renamed_table tblName zNew done" and ?new = "renamed_table tblName zNew (insert s done)"
  have d1: "d1 = d @ map (\<lambda>s. (?old s, version_row s)) ?C"
    and apart: "\<And>name x t. (name, x) \<in> set d \<Longrightarrow> t \<in> set ?C \<Longrightarrow> \<not> same_name name (?old t)"
    and dist: "inj_on (\<lambda>s. map ascii_lower (?old s)) (set ?C)" "distinct ?C"
    using assms(1) by (auto simp: partly_renamed_def distinct_map)
  have olds: "?old s = shadow_name tblName s" "?new s = shadow_name zNew s" "\<And>t. t \<noteq> s \<Longrightarrow> ?new t = ?old t"
    using assms(4) by (simp_all add: renamed_table_def)
  have free: "\<not> has_table d1 (?new s)"
    and d2: "d2 = map (\<lambda>(name, patch). if same_name name (?old s) then (?new s, patch) else (name, patch)) d1"
    using assms(2) olds by (auto simp: rename_table_def split: if_splits)
  have keep: "map (\<lambda>(name, patch). if same_name name (?old s) then (?new s, patch) else (name, patch)) d = d"
    by (rule map_idI) (use apart assms(3) in auto)
  have same: "same_name (?old t) (?old s) \<longleftrightarrow> t = s" if "t \<in> set ?C" for t
    using inj_onD [OF dist(1) _ that assms(3)] by (auto simp: same_name_def)
  have "d2 = d @ map (\<lambda>s. (?new s, version_row s)) ?C"
    using keep same olds by (auto simp: d2 d1)
  moreover have new: "\<not> same_name name (?new s)" if "(name, x) \<in> set d1" for name x
    using free that by (auto simp: has_table_def)
  moreover have "inj_on (\<lambda>s. map ascii_lower (?new s)) (set ?C)"
  proof (rule inj_onI)
    fix t u assume t: "t \<in> set ?C" and u: "u \<in> set ?C" and eq: "map ascii_lower (?new t) = map ascii_lower (?new u)"
    have old_in: "(?old v, version_row v) \<in> set d1" if "v \<in> set ?C" for v using that by (auto simp: d1)
    show "t = u"
      using eq inj_onD [OF dist(1) _ t u] new [OF old_in [OF t]] new [OF old_in [OF u]] olds(3) [of t] olds(3) [of u]
      by (cases "t = s"; cases "u = s") (auto simp: same_name_def)
  qed
  ultimately show ?thesis
    using apart olds(3) dist(2) unfolding partly_renamed_def distinct_map
    by (auto simp: d1) metis
qed

lemma rename_steps:
  assumes "fold_result (rename_table F tblName zNew) suffixes d1 = Inr d2"
    and "partly_renamed tblName zNew p d done d1"
    and "set suffixes \<subseteq> set (created_tables p) - done" and "distinct suffixes"
  shows "partly_renamed tblName zNew p d (done \<union> set suffixes) d2"
  using assms
proof (induction suffixes arbitrary: d1 "done")
  case (Cons s suffixes)
  then obtain d3 where d3: "rename_table F tblName zNew s d1 = Inr d3"
    and rest: "fold_result (rename_table F tblName zNew) suffixes d3 = Inr d2"
    by (auto simp: rbind_Inr)
  have "partly_renamed tblName zNew p d (insert s done) d3"
    by (rule rename_step [OF Cons.prems(2) d3]) (use Cons.prems in auto)
  from Cons.IH [OF rest this] Cons.prems show ?case by auto
qed simp

lemma mset_vector_column_tables:
  "mset (concat (map (\<lambda>(i, c). vector_column_tables i c) (enumerate n cs)))
   = mset (concat (map (\<lambda>(i, c). flat_tables i c) (enumerate n cs)))
     + mset (concat (map (\<lambda>(i, c). rescore_tables i c) (enumerate n cs)))
     + mset (concat (map (\<lambda>(i, c). diskann_tables i c) (enumerate n cs)))"
  by (induction cs arbitrary: n) (simp_all add: vector_column_tables_def ac_simps)

lemma rename_owned:
  assumes "owns tblName p d d1" and "vec0Rename F p tblName zNew d1 = Inr d2"
  shows "owns zNew p d d2"
proof -
  define names where "names = [''info'', ''rowids'', ''chunks''] @ auxiliary_table p @
     per_column vector_column_tables (vector_columns p) @ per_column metadata_tables (metadata_columns p)"
  have m: "mset names = mset (created_tables p)"
    by (simp add: names_def created_tables_def per_column_def mset_vector_column_tables ac_simps)
  have run: "fold_result (rename_table F tblName zNew) names d1 = Inr d2"
    using assms(2) by (simp only: vec0Rename_def names_def [symmetric] attempt_Inr)
  have start: "partly_renamed tblName zNew p d {} d1"
    using assms(1) by (auto simp: owns_def partly_renamed_def renamed_table_def)
  have "distinct (created_tables p)"
    using assms(1) by (simp add: owns_def distinct_map)
  then have "partly_renamed tblName zNew p d ({} \<union> set names) d2"
    by (intro rename_steps [OF run start]) (use m mset_eq_setD [OF m] mset_eq_imp_distinct_iff [OF m] in auto)
  moreover have "renamed_table tblName zNew (set names) s = shadow_name zNew s" if "s \<in> set (created_tables p)" for s
    using that mset_eq_setD [OF m] by (simp add: renamed_table_def)
  ultimately show ?thesis
    unfolding owns_def partly_renamed_def by (auto cong: map_cong)
qed

section \<open>Connecting again\<close>

lemma patch_of_owned:
  assumes "owns tblName p d d'"
  shows "create_version_patch d' tblName = Some SQLITE_VEC_VERSION_PATCH"
proof -
  have "''info'' \<in> set (created_tables p)" by (simp add: created_tables_def)
  then have "filter (\<lambda>(name, _). same_name name (shadow_name tblName ''info'')) d = []"
    using assms by (force simp: owns_def filter_empty_conv)
  then show ?thesis
    using assms by (simp add: create_version_patch_def owns_def created_tables_def version_row_def)
qed

lemma created_owns:
  assumes "vec0_init nicmp declare F junk True tblName args d = Inr (p, d')"
  shows "owns tblName p d d'"
  using init_runs [OF assms] create_owns by (metis (full_types))

lemma connect_created:
  assumes "vec0_init nicmp declare F junk True tblName args d = Inr (p, d')" and "F ''read info'' 0 = None"
  shows "vec0_init nicmp declare F junk False tblName args d' = Inr (p, d')"
  using assms patch_of_owned [OF created_owns [OF assms(1)]]
  by (auto simp: vec0_init_def rbind_Inr Let_def SQLITE_VEC_VERSION_PATCH_def split: if_splits sum.splits)

section \<open>Properties\<close>

text \<open>C8. Every table \<open>vec0_init\<close> accepts is well formed: its columns are numbered within their kinds,
  there are between 1 and 16 vector columns, at most 4 partition, 16 auxiliary and 16 metadata columns,
  the chunk size is a multiple of 8 between 8 and 4096, every vector column has at most 8192
  dimensions and options within their limits (a DiskANN column has a non-empty quantized form and a
  number of neighbours divisible by 8), indexed columns exclude metadata and partition columns, and no
  column of a new table has the table's name.\<close>

theorem init_table_well_formed:
  assumes "vec0_init nicmp declare F junk isCreate tblName args d = Inr (p, d')"
  shows "vtab_ok p \<and>
    1 \<le> length (vector_columns p) \<and> length (vector_columns p) \<le> 16 \<and> length (partition_columns p) \<le> 4 \<and>
    length (auxiliary_columns p) \<le> 16 \<and> length (metadata_columns p) \<le> 16 \<and>
    (\<forall>c \<in> set (vector_columns p). column_ok c) \<and>
    ((\<exists>c \<in> set (vector_columns p). vc_index_type c \<noteq> VEC0_INDEX_TYPE_FLAT) \<longrightarrow>
       metadata_columns p = [] \<and> partition_columns p = []) \<and>
    (isCreate \<longrightarrow> hasCommandColumn p \<and> \<not> names_conflict nicmp tblName p)"
proof -
  obtain s where s: "locals_ok s" "init_checks (il_table s)"
    "isCreate \<Longrightarrow> \<not> names_conflict nicmp tblName (il_table s)"
    and p: "p = il_table s\<lparr>hasCommandColumn := hasCommandColumn p, pkIsText := pkIsText p,
      chunk_size := nat (if il_chunk_size s < 0 then 1024 else il_chunk_size s)\<rparr>"
    and c: "if isCreate then hasCommandColumn p \<and> create_shadow_tables F p tblName d = Inr d' else d' = d"
    by (rule init_runs [OF assms]) blast
  have fields: "user_columns p = user_columns (il_table s)" "vector_columns p = vector_columns (il_table s)"
    "partition_columns p = partition_columns (il_table s)" "auxiliary_columns p = auxiliary_columns (il_table s)"
    "metadata_columns p = metadata_columns (il_table s)"
    "chunk_size p = nat (if il_chunk_size s < 0 then 1024 else il_chunk_size s)"
    by (subst p, simp)+
  have n: "0 < n \<Longrightarrow> 8 dvd n \<Longrightarrow> n \<le> 4096 \<Longrightarrow> 0 < nat n \<and> 8 dvd nat n \<and> nat n \<le> 4096" for n :: int
    by (auto simp: nat_mult_distrib elim!: dvdE)
  have counts: "kind_count p k = kind_count (il_table s) k"
    "vec0_num_defined_user_columns p = vec0_num_defined_user_columns (il_table s)" for k
    by (simp_all only: kind_count_def vec0_num_defined_user_columns_def fields)
  have "vtab_ok p"
    using s(1) n [of "il_chunk_size s"] unfolding vtab_ok_def locals_ok_def columns_numbered_def counts fields by auto
  moreover have "vc_index_type c = VEC0_INDEX_TYPE_FLAT"
    if "c \<in> set (vector_columns p)" "\<not> (metadata_columns p = [] \<and> partition_columns p = [])" for c
    using s(2) that by (cases "vc_index_type c") (auto simp: init_checks_def has_index_def fields)
  moreover have "vector_columns p \<noteq> []" using s(2) by (simp add: init_checks_def fields)
  moreover have "names_conflict nicmp tblName p = names_conflict nicmp tblName (il_table s)"
    by (simp add: names_conflict_def column_names_def fields)
  ultimately show ?thesis
    using s(1,3) c by (auto simp: locals_ok_def within_limits_def vec0_limits fields Suc_le_eq)
qed

definition ex_arguments :: "string list" where
  "ex_arguments = [''embedding float[8] distance_metric=cosine'', ''user int partition key'', ''title text'',
     ''+body text'', ''chunk_size=16'']"

definition ex_token :: Vec0Token where
  "ex_token = \<lparr>token_type = TOKEN_TYPE_PLUS, tok_start = [], tok_len = 0\<rparr>"

definition ex_create :: "(vec0_vtab \<times> schema) result" where
  "ex_create = vec0_init strnicmp_ref (\<lambda>_. True) no_faults (\<lambda>_. ex_token) True ''docs'' ex_arguments [(''other'', None)]"

definition ex_created :: "vec0_vtab \<times> schema" where
  "ex_created = projr ex_create"

lemma ex_create_tables:
  "case ex_create of Inl _ \<Rightarrow> False | Inr (p, d) \<Rightarrow> chunk_size p = 16 \<and>
     map fst d = [''other'', ''docs_info'', ''docs_chunks'', ''docs_rowids'', ''docs_vector_chunks00'',
       ''docs_metadatachunks00'', ''docs_metadatatext00'', ''docs_auxiliary'']"
  by code_simp

lemma ex_create_run:
  "vec0_init strnicmp_ref (\<lambda>_. True) no_faults (\<lambda>_. ex_token) True ''docs'' ex_arguments [(''other'', None)]
   = Inr (fst ex_created, snd ex_created)"
  using ex_create_tables by (auto simp: ex_create_def ex_created_def split: sum.splits)

theorem init_table_well_formed_witness: "vtab_ok (fst ex_created) \<and> hasCommandColumn (fst ex_created)"
  using init_table_well_formed [OF ex_create_run] by simp



end
