(* ===== verification/Cursor.thy ===== *)
theory Cursor
  imports Knn "HOL-Library.Product_Lexorder"
begin

text \<open>
  The cursors of a vec0 table: \<open>vec0Filter\<close> starts a full scan, a point query or a KNN query,
  \<open>vec0Eof\<close>, \<open>vec0Next\<close>, \<open>vec0Rowid\<close> and \<open>vec0Column\<close> walk over its rows.
\<close>

section \<open>The cursor\<close>

text \<open>
  \<open>fs_rowids\<close> are the rows the statement of a full scan still has to deliver, the current one first.
\<close>

record vec0_query_fullscan_data =
  fs_rowids :: "int list"
  fs_done :: bool

record vec0_query_point_data =
  pd_rowid :: int
  pd_vectors :: "bytes list"
  pd_done :: bool

text \<open>A new cursor has no query plan.\<close>

record vec0_cursor =
  query_plan :: "vec0_query_plan option"
  fullscan_data :: "vec0_query_fullscan_data option"
  knn_data :: "vec0_query_knn_data option"
  point_data :: "vec0_query_point_data option"

definition vec0Open :: "faults \<Rightarrow> vec0_cursor result" where
  "vec0Open F = attempt F ''open cursor'' 0
     (Inr \<lparr>query_plan = None, fullscan_data = None, knn_data = None, point_data = None\<rparr>)"

definition vec0_cursor_clear :: "vec0_cursor \<Rightarrow> vec0_cursor" where
  "vec0_cursor_clear cur = cur\<lparr>fullscan_data := None, knn_data := None, point_data := None\<rparr>"

section \<open>Starting a query\<close>

text \<open>
  \<open>SELECT rowid FROM _rowids ORDER BY chunk_id, chunk_offset\<close>: NULLs come first, and rows that are
  equal in both, which the statement leaves open, in the order of their rowids.
\<close>

definition scan_key :: "rowids_row \<Rightarrow> nat \<times> int \<times> int" where
  "scan_key row = (case rr_pos row of None \<Rightarrow> (0, 0, 0) | Some (chunk_id, chunk_offset) \<Rightarrow> (1, chunk_id, chunk_offset))"

definition scan_order :: "'g vec0_db \<Rightarrow> int list" where
  "scan_order db = map fst (sort_key (\<lambda>(rowid, row). scan_key row) (t_rowids db))"

definition vec0Filter_fullscan :: "faults \<Rightarrow> 'g vec0_db \<Rightarrow> vec0_cursor \<Rightarrow> vec0_cursor result" where
  "vec0Filter_fullscan F db cur =
     attempt F ''fullscan'' 0
       (Inr (cur\<lparr>query_plan := Some VEC0_QUERY_PLAN_FULLSCAN,
                 fullscan_data := Some \<lparr>fs_rowids = scan_order db, fs_done = (scan_order db = [])\<rparr>\<rparr>))"

text \<open>\<open>junk\<close> is the uninitialised rowid of a query for a text id that is not there.\<close>

definition point_vectors ::
  "vec0_vtab \<Rightarrow> faults \<Rightarrow> 'g diskann_api \<Rightarrow> 'g vec0_db \<Rightarrow> int \<Rightarrow> bytes list result"
where
  "point_vectors p F api db rowid =
     fold_result (\<lambda>i vs. rbind (vec0_get_vector_data p F api db rowid i) (\<lambda>v. Inr (vs @ [v])))
       [0..<length (vector_columns p)] []"

definition vec0Filter_point ::
  "vec0_vtab \<Rightarrow> faults \<Rightarrow> 'g diskann_api \<Rightarrow> 'g vec0_db \<Rightarrow> int \<Rightarrow> sqlite3_value list \<Rightarrow> vec0_cursor \<Rightarrow> vec0_cursor result"
where
  "vec0Filter_point p F api db junk argv cur =
     attempt F ''point data'' 0
       (let found = (\<lambda>rowid vs done. Inr (cur\<lparr>query_plan := Some VEC0_QUERY_PLAN_POINT,
               point_data := Some \<lparr>pd_rowid = rowid, pd_vectors = vs, pd_done = done\<rparr>\<rparr>))
        in case (if pkIsText p then vec0_rowid_from_id F db (argv ! 0) else Inr (value_int64 (argv ! 0))) of
             Inl rc \<Rightarrow> if rc = SQLITE_EMPTY then found junk [] True else Inl rc
           | Inr rowid \<Rightarrow>
               (case point_vectors p F api db rowid of
                  Inl rc \<Rightarrow> if rc = SQLITE_EMPTY then found rowid [] True else Inl rc
                | Inr vs \<Rightarrow> found rowid vs False))"

text \<open>
  \<open>None\<close> is a query that does not return. A KNN query that ends without data leaves the plan of the
  cursor as it was.
\<close>

definition vec0Filter ::
  "sql_comparison \<Rightarrow> diskann_env \<Rightarrow> (nat \<Rightarrow> int \<Rightarrow> bool) \<Rightarrow> faults \<Rightarrow> (nat \<Rightarrow> diskann_state) diskann_api \<Rightarrow> vec0_vtab \<Rightarrow>
   (nat \<Rightarrow> diskann_state) vec0_db \<Rightarrow> (nat \<Rightarrow> sqlite3_value list) \<Rightarrow> int \<Rightarrow> nat \<Rightarrow> string \<Rightarrow> sqlite3_value list \<Rightarrow>
   vec0_cursor \<Rightarrow> vec0_cursor result option"
where
  "vec0Filter sqlop E mem F api p db in_values junk idxNum idxStr argv cur =
    (let cur = vec0_cursor_clear cur
     in if length idxStr = 0 then Some (Inl SQLITE_ERROR)
        else if (length idxStr - 1) mod 4 \<noteq> 0 then Some (Inl SQLITE_ERROR)
        else if (length idxStr - 1) div 4 \<noteq> length argv then Some (Inl SQLITE_ERROR)
        else if hd idxStr = query_plan_char VEC0_QUERY_PLAN_FULLSCAN then Some (vec0Filter_fullscan F db cur)
        else if hd idxStr = query_plan_char VEC0_QUERY_PLAN_KNN then
          map_option (\<lambda>r. rbind r (\<lambda>d. Inr (case d of None \<Rightarrow> cur
              | Some data \<Rightarrow> cur\<lparr>query_plan := Some VEC0_QUERY_PLAN_KNN, knn_data := Some data\<rparr>)))
            (vec0Filter_knn sqlop E mem F p db in_values idxNum idxStr argv)
        else if hd idxStr = query_plan_char VEC0_QUERY_PLAN_POINT then Some (vec0Filter_point p F api db junk argv cur)
        else Some (Inl SQLITE_ERROR))"

section \<open>Walking\<close>

definition vec0Eof :: "vec0_cursor \<Rightarrow> bool" where
  "vec0Eof cur = (case query_plan cur of
     Some VEC0_QUERY_PLAN_FULLSCAN \<Rightarrow> (case fullscan_data cur of None \<Rightarrow> True | Some d \<Rightarrow> fs_done d)
   | Some VEC0_QUERY_PLAN_KNN \<Rightarrow>
       (case knn_data cur of None \<Rightarrow> True | Some d \<Rightarrow> length (kd_rows d) \<le> kd_current_idx d)
   | Some VEC0_QUERY_PLAN_POINT \<Rightarrow> (case point_data cur of None \<Rightarrow> True | Some d \<Rightarrow> pd_done d)
   | None \<Rightarrow> True)"

text \<open>The step of a full scan that delivers no row sets \<open>done\<close>.\<close>

definition vec0Next :: "faults \<Rightarrow> vec0_cursor \<Rightarrow> vec0_cursor result" where
  "vec0Next F cur = (case query_plan cur of
     Some VEC0_QUERY_PLAN_FULLSCAN \<Rightarrow>
       (case fullscan_data cur of
          None \<Rightarrow> Inl SQLITE_ERROR
        | Some d \<Rightarrow>
            if F ''fullscan step'' (length (fs_rowids d)) \<noteq> None then Inl SQLITE_ERROR
            else Inr (cur\<lparr>fullscan_data := Some \<lparr>fs_rowids = tl (fs_rowids d),
                                             fs_done = (fs_done d \<or> tl (fs_rowids d) = [])\<rparr>\<rparr>))
   | Some VEC0_QUERY_PLAN_KNN \<Rightarrow>
       (case knn_data cur of
          None \<Rightarrow> Inl SQLITE_ERROR
        | Some d \<Rightarrow> Inr (cur\<lparr>knn_data := Some (d\<lparr>kd_current_idx := kd_current_idx d + 1\<rparr>)\<rparr>))
   | Some VEC0_QUERY_PLAN_POINT \<Rightarrow>
       (case point_data cur of
          None \<Rightarrow> Inl SQLITE_ERROR
        | Some d \<Rightarrow> Inr (cur\<lparr>point_data := Some (d\<lparr>pd_done := True\<rparr>)\<rparr>))
   | None \<Rightarrow> Inl SQLITE_ERROR)"

text \<open>\<open>vec0Rowid\<close>; it and \<open>vec0Column\<close> are called on a row, after \<open>vec0Eof\<close> said there is one.\<close>

definition vec0Rowid :: "vec0_cursor \<Rightarrow> int result" where
  "vec0Rowid cur = (case query_plan cur of
     Some VEC0_QUERY_PLAN_FULLSCAN \<Rightarrow> Inr (hd (fs_rowids (the (fullscan_data cur))))
   | Some VEC0_QUERY_PLAN_POINT \<Rightarrow> Inr (pd_rowid (the (point_data cur)))
   | _ \<Rightarrow> Inl SQLITE_ERROR)"

section \<open>Columns\<close>

text \<open>What \<open>vec0Column\<close> leaves in the SQLite context; \<open>Col_none\<close> is no call of a result function.\<close>

datatype column_result =
    Col_id "int + sqlite3_value option"
  | Col_vector bytes VectorElementType
  | Col_null
  | Col_value sqlite3_value
  | Col_double f32
  | Col_metadata metadata_value
  | Col_error_code sqlite_rc
  | Col_error
  | Col_none

text \<open>The columns the three query plans have in common: the stored values of a row.\<close>

definition column_partition :: "vec0_vtab \<Rightarrow> faults \<Rightarrow> 'g vec0_db \<Rightarrow> int \<Rightarrow> int \<Rightarrow> column_result" where
  "column_partition p F db rowid i =
     (case vec0_get_partition_value_for_rowid F db rowid (vec0_column_idx_to_partition_idx p i) of
        Inr v \<Rightarrow> Col_value v | Inl rc \<Rightarrow> Col_error_code rc)"

definition column_auxiliary :: "vec0_vtab \<Rightarrow> faults \<Rightarrow> 'g vec0_db \<Rightarrow> int \<Rightarrow> int \<Rightarrow> column_result" where
  "column_auxiliary p F db rowid i =
     (case vec0_get_auxiliary_value_for_rowid F db rowid (vec0_column_idx_to_auxiliary_idx p i) of
        Inr v \<Rightarrow> Col_value v | Inl rc \<Rightarrow> Col_error_code rc)"

definition column_metadata :: "vec0_vtab \<Rightarrow> faults \<Rightarrow> 'g vec0_db \<Rightarrow> int \<Rightarrow> int \<Rightarrow> column_result" where
  "column_metadata p F db rowid i =
     (case vec0_result_metadata_value_for_rowid p F db rowid (vec0_column_idx_to_metadata_idx p i) of
        Inr v \<Rightarrow> Col_metadata v | Inl rc \<Rightarrow> Col_error)"

definition column_vector ::
  "vec0_vtab \<Rightarrow> faults \<Rightarrow> 'g diskann_api \<Rightarrow> 'g vec0_db \<Rightarrow> int \<Rightarrow> int \<Rightarrow> column_result result"
where
  "column_vector p F api db rowid i =
    (let vector_idx = vec0_column_idx_to_vector_idx p i
     in rbind (vec0_get_vector_data p F api db rowid vector_idx)
          (\<lambda>v. Inr (Col_vector v (vc_element_type (vector_columns p ! vector_idx)))))"

text \<open>\<open>nochange\<close> is \<open>sqlite3_vtab_nochange\<close>: an UPDATE that does not change the column asks for it.\<close>

definition vec0Column_fullscan ::
  "vec0_vtab \<Rightarrow> faults \<Rightarrow> 'g diskann_api \<Rightarrow> 'g vec0_db \<Rightarrow> bool \<Rightarrow> vec0_cursor \<Rightarrow> int \<Rightarrow> column_result result"
where
  "vec0Column_fullscan p F api db nochange cur i = (case fullscan_data cur of
     None \<Rightarrow> Inl SQLITE_ERROR
   | Some d \<Rightarrow>
       (let rowid = hd (fs_rowids d)
        in if i = 0 then rbind (vec0_result_id p F db rowid) (\<lambda>v. Inr (Col_id v))
           else if vec0_column_idx_is_vector p i then column_vector p F api db rowid i
           else if i = int (vec0_column_distance_idx p) then Inr Col_null
           else if vec0_column_idx_is_partition p i then Inr (column_partition p F db rowid i)
           else if vec0_column_idx_is_auxiliary p i then Inr (column_auxiliary p F db rowid i)
           else if vec0_column_idx_is_metadata p i then
             (if nochange then Inr Col_none else Inr (column_metadata p F db rowid i))
           else Inr Col_none))"

definition vec0Column_point ::
  "vec0_vtab \<Rightarrow> faults \<Rightarrow> 'g vec0_db \<Rightarrow> bool \<Rightarrow> vec0_cursor \<Rightarrow> int \<Rightarrow> column_result result"
where
  "vec0Column_point p F db nochange cur i = (case point_data cur of
     None \<Rightarrow> Inl SQLITE_ERROR
   | Some d \<Rightarrow>
       (let rowid = pd_rowid d
        in if i = 0 then rbind (vec0_result_id p F db rowid) (\<lambda>v. Inr (Col_id v))
           else if i = int (vec0_column_distance_idx p) then Inr Col_null
           else if vec0_column_idx_is_vector p i then
             (if nochange then Inr Col_null
              else let vector_idx = vec0_column_idx_to_vector_idx p i; column = vector_columns p ! vector_idx
              in Inr (Col_vector (take (vector_column_byte_size column) (pd_vectors d ! vector_idx)) (vc_element_type column)))
           else if vec0_column_idx_is_partition p i then
             (if nochange then Inr Col_none else Inr (column_partition p F db rowid i))
           else if vec0_column_idx_is_auxiliary p i then
             (if nochange then Inr Col_none else Inr (column_auxiliary p F db rowid i))
           else if vec0_column_idx_is_metadata p i then
             (if nochange then Inr Col_none else Inr (column_metadata p F db rowid i))
           else Inr Col_none))"

definition vec0Column_knn ::
  "vec0_vtab \<Rightarrow> faults \<Rightarrow> 'g diskann_api \<Rightarrow> 'g vec0_db \<Rightarrow> vec0_cursor \<Rightarrow> int \<Rightarrow> column_result result"
where
  "vec0Column_knn p F api db cur i = (case knn_data cur of
     None \<Rightarrow> Inl SQLITE_ERROR
   | Some d \<Rightarrow>
       (let (distance, rowid) = kd_rows d ! kd_current_idx d
        in if i = 0 then rbind (vec0_result_id p F db rowid) (\<lambda>v. Inr (Col_id v))
           else if i = int (vec0_column_distance_idx p) then Inr (Col_double distance)
           else if vec0_column_idx_is_vector p i then column_vector p F api db rowid i
           else if vec0_column_idx_is_partition p i then Inr (column_partition p F db rowid i)
           else if vec0_column_idx_is_auxiliary p i then Inr (column_auxiliary p F db rowid i)
           else if vec0_column_idx_is_metadata p i then Inr (column_metadata p F db rowid i)
           else Inr Col_none))"

definition vec0Column ::
  "vec0_vtab \<Rightarrow> faults \<Rightarrow> 'g diskann_api \<Rightarrow> 'g vec0_db \<Rightarrow> bool \<Rightarrow> vec0_cursor \<Rightarrow> int \<Rightarrow> column_result result"
where
  "vec0Column p F api db nochange cur i = (case query_plan cur of
     Some VEC0_QUERY_PLAN_FULLSCAN \<Rightarrow> vec0Column_fullscan p F api db nochange cur i
   | Some VEC0_QUERY_PLAN_KNN \<Rightarrow> vec0Column_knn p F api db cur i
   | Some VEC0_QUERY_PLAN_POINT \<Rightarrow> vec0Column_point p F db nochange cur i
   | None \<Rightarrow> Inr Col_none)"

end
