(* ===== verification/CursorFacts.thy ===== *)
theory CursorFacts
  imports Cursor UpdateFacts KnnProperties
begin

text \<open>
  A query from \<open>vec0Filter\<close> to the end: which rows SQLite sees when it calls \<open>vec0Eof\<close>, \<open>vec0Column\<close>
  and \<open>vec0Next\<close> in turn.
\<close>

section \<open>Walking over a cursor\<close>

text \<open>What SQLite does with a cursor; \<open>fuel\<close> bounds the rows, and \<open>None\<close> is an error or more rows than that.\<close>

fun walk :: "faults \<Rightarrow> (vec0_cursor \<Rightarrow> 'a) \<Rightarrow> nat \<Rightarrow> vec0_cursor \<Rightarrow> 'a list option" where
  "walk F f 0 cur = None"
| "walk F f (Suc fuel) cur =
     (if vec0Eof cur then Some []
      else case vec0Next F cur of
        Inl _ \<Rightarrow> None
      | Inr cur' \<Rightarrow> map_option ((#) (f cur)) (walk F f fuel cur'))"

definition row_column :: "vec0_vtab \<Rightarrow> faults \<Rightarrow> 'g vec0_db \<Rightarrow> int \<Rightarrow> column_result result" where
  "row_column p F db rowid = rbind (vec0_result_id p F db rowid) (\<lambda>v. Inr (Col_id v))"

lemma walk_fullscan:
  assumes "query_plan cur = Some VEC0_QUERY_PLAN_FULLSCAN"
    and "fullscan_data cur = Some \<lparr>fs_rowids = rows, fs_done = (rows = [])\<rparr>"
  shows "walk no_faults (\<lambda>c. vec0Column p F api db nc c 0) (Suc (length rows)) cur = Some (map (row_column p F db) rows)"
  using assms
proof (induction rows arbitrary: cur)
  case Nil
  then show ?case by (simp add: vec0Eof_def)
next
  case (Cons r rows)
  let ?cur = "cur\<lparr>fullscan_data := Some \<lparr>fs_rowids = rows, fs_done = (rows = [])\<rparr>\<rparr>"
  have "vec0Next no_faults cur = Inr ?cur"
    using Cons.prems by (simp add: vec0Next_def no_faults_def)
  moreover have "vec0Column p F api db nc cur 0 = row_column p F db r"
    using Cons.prems by (simp add: vec0Column_def vec0Column_fullscan_def row_column_def)
  moreover have "\<not> vec0Eof cur" using Cons.prems by (simp add: vec0Eof_def)
  ultimately show ?case using Cons.IH [of ?cur] Cons.prems(1) by simp
qed

text \<open>The rowid and the distance of the rows of a KNN query.\<close>

lemma walk_knn:
  assumes "query_plan cur = Some VEC0_QUERY_PLAN_KNN" and "knn_data cur = Some d" and "kd_current_idx d \<le> length (kd_rows d)"
  shows "walk no_faults (\<lambda>c. (vec0Column p F api db nc c 0, vec0Column p F api db nc c (int (vec0_column_distance_idx p))))
      (Suc (length (kd_rows d) - kd_current_idx d)) cur
    = Some (map (\<lambda>(dist, rowid). (row_column p F db rowid, Inr (Col_double dist))) (drop (kd_current_idx d) (kd_rows d)))"
  using assms
proof (induction "length (kd_rows d) - kd_current_idx d" arbitrary: cur d)
  case 0
  then show ?case by (simp add: vec0Eof_def)
next
  case (Suc n)
  let ?d = "d\<lparr>kd_current_idx := kd_current_idx d + 1\<rparr>"
  let ?cur = "cur\<lparr>knn_data := Some ?d\<rparr>"
  obtain dist rowid where row: "kd_rows d ! kd_current_idx d = (dist, rowid)" by (cases "kd_rows d ! kd_current_idx d")
  have i: "kd_current_idx d < length (kd_rows d)" using Suc(2) by simp
  have nxt: "vec0Next no_faults cur = Inr ?cur" "\<not> vec0Eof cur"
    using Suc.prems i by (simp_all add: vec0Next_def vec0Eof_def)
  have step: "walk no_faults f (Suc (Suc n)) cur = map_option ((#) (f cur)) (walk no_faults f (Suc n) ?cur)"
    for f :: "vec0_cursor \<Rightarrow> 'z"
    by (subst walk.simps(2)) (simp add: nxt del: walk.simps)
  have cols: "vec0Column p F api db nc cur 0 = row_column p F db rowid"
    "vec0Column p F api db nc cur (int (vec0_column_distance_idx p)) = Inr (Col_double dist)"
    using Suc.prems row by (simp_all add: vec0Column_def vec0Column_knn_def row_column_def vec0_column_distance_idx_def)
  have n: "n = length (kd_rows ?d) - kd_current_idx ?d" using Suc(2) by simp
  note IH = Suc(1) [OF n, of ?cur]
  have n': "n = length (kd_rows d) - Suc (kd_current_idx d)" using Suc(2) by simp
  have "walk no_faults (\<lambda>c. (vec0Column p F api db nc c 0, vec0Column p F api db nc c (int (vec0_column_distance_idx p))))
      (Suc n) ?cur
    = Some (map (\<lambda>(dist, rowid). (row_column p F db rowid, Inr (Col_double dist))) (drop (Suc (kd_current_idx d)) (kd_rows d)))"
    using IH Suc.prems i by (simp add: n' del: walk.simps)
  then show ?case
    using cols i row by (simp add: Suc(2) [symmetric] step Cons_nth_drop_Suc [symmetric] del: walk.simps)
qed

lemma walk_point:
  assumes "query_plan cur = Some VEC0_QUERY_PLAN_POINT" and "point_data cur = Some d"
  shows "walk no_faults (\<lambda>c. vec0Column p F api db nc c 0) 2 cur
    = Some (if pd_done d then [] else [row_column p F db (pd_rowid d)])"
  using assms
  by (simp add: numeral_2_eq_2 vec0Eof_def vec0Next_def vec0Column_def vec0Column_point_def row_column_def)

lemma mset_scan_order: "mset (scan_order db) = mset (map fst (t_rowids db))"
  by (simp add: scan_order_def)

section \<open>KNN queries start at their first row\<close>

lemma knn_diskann_starts:
  "vec0Filter_knn_diskann E mem p db i idxStr argv = Some (Inr d) \<Longrightarrow> kd_current_idx d = 0"
  by (auto simp: vec0Filter_knn_diskann_def Let_def split: option.splits sum.splits if_splits)

lemma rescore_starts:
  "rescore_knn sqlop p col i F db idxStr argv arr q k = Inr d \<Longrightarrow> kd_current_idx d = 0"
  by (auto simp: rescore_knn_def Let_def rbind_Inr split: if_splits)

lemma knn_starts:
  assumes "vec0Filter_knn sqlop E mem F p db in_values i idxStr argv = Some (Inr (Some d))"
  shows "kd_current_idx d = 0"
proof (cases "vc_index_type (vector_columns p ! i) = VEC0_INDEX_TYPE_DISKANN")
  case True
  then show ?thesis using assms knn_diskann_starts by (fastforce simp: vec0Filter_knn_def Let_def rbind_Inr)
next
  case False
  have opt: "rbind r (\<lambda>a. case a of None \<Rightarrow> Inr None | Some m \<Rightarrow> f m) = Inr (Some d) \<longleftrightarrow>
      (\<exists>m. r = Inr (Some m) \<and> f m = Inr (Some d))"
    for r :: "'m option result" and f :: "'m \<Rightarrow> vec0_query_knn_data option result"
    by (cases r) (auto split: option.splits)
  have rescore: "rbind r (\<lambda>d. Inr (Some d)) = Inr (Some d) \<longleftrightarrow> r = Inr d" for r :: "vec0_query_knn_data result"
    by (cases r) auto
  have scan: "rbind r (\<lambda>x. rbind (g x) (\<lambda>rows. Inr (Some (h rows)))) = Inr (Some d) \<longleftrightarrow>
      (\<exists>x rows. r = Inr x \<and> g x = Inr rows \<and> h rows = d)"
    for r :: "'x result" and g :: "'x \<Rightarrow> 'y result" and h
    by (auto simp: rbind_Inr)
  show ?thesis
    using assms False rescore_starts
    by (auto simp: vec0Filter_knn_def Let_def opt rescore scan
        split: option.split_asm sum.split_asm if_split_asm)
qed

section \<open>The three kinds of queries\<close>

lemma filter_dispatch:
  assumes "vec0Filter sqlop E mem F api p db in_values junk idxNum idxStr argv cur = Some (Inr cur')"
  shows "hd idxStr = query_plan_char VEC0_QUERY_PLAN_FULLSCAN \<Longrightarrow>
      vec0Filter_fullscan F db (vec0_cursor_clear cur) = Inr cur'"
    and "hd idxStr = query_plan_char VEC0_QUERY_PLAN_POINT \<Longrightarrow>
      vec0Filter_point p F api db junk argv (vec0_cursor_clear cur) = Inr cur'"
    and "hd idxStr = query_plan_char VEC0_QUERY_PLAN_KNN \<Longrightarrow>
      \<exists>d. vec0Filter_knn sqlop E mem F p db in_values idxNum idxStr argv = Some (Inr d) \<and>
        cur' = (case d of None \<Rightarrow> vec0_cursor_clear cur
          | Some data \<Rightarrow> (vec0_cursor_clear cur)\<lparr>query_plan := Some VEC0_QUERY_PLAN_KNN, knn_data := Some data\<rparr>)"
proof -
  note run = assms [unfolded vec0Filter_def Let_def]
  show "vec0Filter_fullscan F db (vec0_cursor_clear cur) = Inr cur'"
    if "hd idxStr = query_plan_char VEC0_QUERY_PLAN_FULLSCAN"
    using run unfolding that by (simp split: if_split_asm)
  show "vec0Filter_point p F api db junk argv (vec0_cursor_clear cur) = Inr cur'"
    if "hd idxStr = query_plan_char VEC0_QUERY_PLAN_POINT"
    using run unfolding that by (simp split: if_split_asm)
  assume k: "hd idxStr = query_plan_char VEC0_QUERY_PLAN_KNN"
  obtain r where "vec0Filter_knn sqlop E mem F p db in_values idxNum idxStr argv = Some r"
    and "rbind r (\<lambda>d. Inr (case d of None \<Rightarrow> vec0_cursor_clear cur
        | Some data \<Rightarrow> (vec0_cursor_clear cur)\<lparr>query_plan := Some VEC0_QUERY_PLAN_KNN, knn_data := Some data\<rparr>)) = Inr cur'"
    using run unfolding k by (simp split: if_split_asm) metis
  then show "\<exists>d. vec0Filter_knn sqlop E mem F p db in_values idxNum idxStr argv = Some (Inr d) \<and>
        cur' = (case d of None \<Rightarrow> vec0_cursor_clear cur
          | Some data \<Rightarrow> (vec0_cursor_clear cur)\<lparr>query_plan := Some VEC0_QUERY_PLAN_KNN, knn_data := Some data\<rparr>)"
    by (cases r) auto
qed

lemma fullscan_rows:
  assumes "vec0Filter_fullscan no_faults db cur = Inr cur'"
  shows "walk no_faults (\<lambda>c. vec0Column p no_faults api db nc c 0) (Suc (length (scan_order db))) cur'
    = Some (map (row_column p no_faults db) (scan_order db))"
  by (rule walk_fullscan) (use assms in \<open>auto simp: vec0Filter_fullscan_def\<close>)

lemma point_rows:
  assumes "vec0Filter_point p no_faults api db junk argv cur = Inr cur'"
  shows "walk no_faults (\<lambda>c. vec0Column p no_faults api db nc c 0) 2 cur'
    = Some (case row_of p no_faults db (argv ! 0) of
        Inl _ \<Rightarrow> []
      | Inr rowid \<Rightarrow> (case point_vectors p no_faults api db rowid of
          Inl _ \<Rightarrow> [] | Inr _ \<Rightarrow> [row_column p no_faults db rowid]))"
proof -
  obtain d where "query_plan cur' = Some VEC0_QUERY_PLAN_POINT" and "point_data cur' = Some d"
    and rows: "(if pd_done d then [] else [row_column p no_faults db (pd_rowid d)])
      = (case row_of p no_faults db (argv ! 0) of
          Inl _ \<Rightarrow> []
        | Inr rowid \<Rightarrow> (case point_vectors p no_faults api db rowid of
            Inl _ \<Rightarrow> [] | Inr _ \<Rightarrow> [row_column p no_faults db rowid]))"
    using assms unfolding vec0Filter_point_def row_of_def
    by (auto simp: Let_def split: sum.split_asm if_split_asm)
  from walk_point [OF this(1,2), of p no_faults api db nc] rows show ?thesis by simp
qed

lemma knn_rows:
  assumes "vec0Filter_knn sqlop E mem F p db in_values i idxStr argv = Some (Inr d)"
    and "cur' = (case d of None \<Rightarrow> vec0_cursor_clear cur
      | Some data \<Rightarrow> (vec0_cursor_clear cur)\<lparr>query_plan := Some VEC0_QUERY_PLAN_KNN, knn_data := Some data\<rparr>)"
  defines "rows \<equiv> case d of None \<Rightarrow> [] | Some d \<Rightarrow> kd_rows d"
  shows "walk no_faults (\<lambda>c. (vec0Column p no_faults api db nc c 0,
      vec0Column p no_faults api db nc c (int (vec0_column_distance_idx p)))) (Suc (length rows)) cur'
    = Some (map (\<lambda>(dist, rowid). (row_column p no_faults db rowid, Inr (Col_double dist))) rows)"
proof (cases d)
  case None
  then have "vec0Eof cur'"
    by (auto simp: assms(2) vec0Eof_def vec0_cursor_clear_def split: option.splits vec0_query_plan.splits)
  then show ?thesis using None by (simp add: rows_def)
next
  case (Some data)
  with assms(1) have "kd_current_idx data = 0" using knn_starts by blast
  with walk_knn [of cur' data p no_faults api db nc] Some assms(2) show ?thesis by (simp add: rows_def)
qed

section \<open>Properties\<close>

text \<open>C6. What SQLite sees of a query. A full scan delivers every row of the table exactly once. A point
  query delivers the row it asks for, or nothing when the row is not there. A KNN query delivers its
  rows in the order in which they were found, each with its distance, or nothing when the query ended
  without data. In every case the walk ends: \<open>vec0Eof\<close> holds after as many \<open>vec0Next\<close> as there are rows.\<close>

theorem cursor_delivers_rows:
  assumes "vec0Filter sqlop E mem no_faults api p db in_values junk idxNum idxStr argv cur = Some (Inr cur')"
  shows "(hd idxStr = query_plan_char VEC0_QUERY_PLAN_FULLSCAN \<longrightarrow>
      walk no_faults (\<lambda>c. vec0Column p no_faults api db nc c 0) (Suc (length (scan_order db))) cur'
        = Some (map (row_column p no_faults db) (scan_order db)) \<and>
      mset (scan_order db) = mset (map fst (t_rowids db)))
    \<and> (hd idxStr = query_plan_char VEC0_QUERY_PLAN_POINT \<longrightarrow>
      walk no_faults (\<lambda>c. vec0Column p no_faults api db nc c 0) 2 cur'
        = Some (case row_of p no_faults db (argv ! 0) of
            Inl _ \<Rightarrow> []
          | Inr rowid \<Rightarrow> (case point_vectors p no_faults api db rowid of
              Inl _ \<Rightarrow> [] | Inr _ \<Rightarrow> [row_column p no_faults db rowid])))
    \<and> (hd idxStr = query_plan_char VEC0_QUERY_PLAN_KNN \<longrightarrow>
      (\<exists>d. vec0Filter_knn sqlop E mem no_faults p db in_values idxNum idxStr argv = Some (Inr d) \<and>
        (let rows = (case d of None \<Rightarrow> [] | Some d \<Rightarrow> kd_rows d) in
         walk no_faults (\<lambda>c. (vec0Column p no_faults api db nc c 0,
             vec0Column p no_faults api db nc c (int (vec0_column_distance_idx p)))) (Suc (length rows)) cur'
           = Some (map (\<lambda>(dist, rowid). (row_column p no_faults db rowid, Inr (Col_double dist))) rows))))"
proof -
  note dispatch = filter_dispatch [OF assms]
  show ?thesis
  proof (intro conjI impI, goal_cases)
    case 1
    show ?case by (rule fullscan_rows [OF dispatch(1) [OF 1]])
  next
    case 2
    show ?case by (rule mset_scan_order)
  next
    case 3
    show ?case by (rule point_rows [OF dispatch(2) [OF 3]])
  next
    case 4
    obtain d where d: "vec0Filter_knn sqlop E mem no_faults p db in_values idxNum idxStr argv = Some (Inr d)"
      and c: "cur' = (case d of None \<Rightarrow> vec0_cursor_clear cur
        | Some data \<Rightarrow> (vec0_cursor_clear cur)\<lparr>query_plan := Some VEC0_QUERY_PLAN_KNN, knn_data := Some data\<rparr>)"
      using dispatch(3) [OF 4] by blast
    show ?case unfolding Let_def by (rule exI [where x = d], rule conjI [OF d knn_rows [OF d c]])
  qed
qed

definition ex_index :: "(nat \<Rightarrow> diskann_state) diskann_api" where
  "ex_index = diskann_index ex_env ex_table"

definition ex_scan :: "vec0_cursor \<Rightarrow> vec0_cursor result option" where
  "ex_scan cur = vec0Filter (\<lambda>_. sql_eq) ex_env (\<lambda>_ _. True) no_faults ex_index ex_table (ex_knn_db False 10) (\<lambda>_. []) 0 0
     ''1'' [] cur"

lemma ex_scan_order: "scan_order (ex_knn_db False 10) = [10, 9]"
  by (simp add: scan_order_def ex_knn_db_def scan_key_def)

theorem cursor_delivers_rows_witness:
  "\<exists>cur. ex_scan \<lparr>query_plan = None, fullscan_data = None, knn_data = None, point_data = None\<rparr> = Some (Inr cur) \<and>
     walk no_faults (\<lambda>c. vec0Column ex_table no_faults ex_index (ex_knn_db False 10) False c 0) 3 cur
       = Some [Inr (Col_id (Inl 10)), Inr (Col_id (Inl 9))]"
proof -
  let ?c = "\<lparr>query_plan = None, fullscan_data = None, knn_data = None, point_data = None\<rparr>"
  obtain cur where f: "ex_scan ?c = Some (Inr cur)"
    by (simp add: ex_scan_def vec0Filter_def vec0Filter_fullscan_def)
  have r: "row_column ex_table no_faults (ex_knn_db False 10) r = Inr (Col_id (Inl r))" for r
    by (simp add: row_column_def vec0_result_id_def ex_table_def)
  from cursor_delivers_rows [OF f [unfolded ex_scan_def], of False]
  have "walk no_faults (\<lambda>c. vec0Column ex_table no_faults ex_index (ex_knn_db False 10) False c 0)
      (Suc (length (scan_order (ex_knn_db False 10)))) cur
    = Some (map (row_column ex_table no_faults (ex_knn_db False 10)) (scan_order (ex_knn_db False 10)))"
    by simp
  then show ?thesis using f by (simp add: ex_scan_order r eval_nat_numeral del: walk.simps)
qed

end
