(* ===== verification/Spec2Isabelle.thy ===== *)
theory Spec2Isabelle
  imports Topk ColumnPrint ScalarFacts UpdateFacts VisitedSet Prune NodeFacts GraphProperties KnnProperties InitFacts CursorFacts
begin

text \<open>
  A model of sqlite-vec, the vector search extension under \<open>crates/sqlite-vec-src/src\<close>.
\<close>

end
